(* ===== verification/JS_Prelude.thy ===== *)
theory JS_Prelude
  imports Complex_Main "HOL-Library.AList"
begin

section \<open>JavaScript numbers, values and objects\<close>

text \<open>
  The language layer shared by all components. A JavaScript number is an exact real or one of
  \<open>Infinity\<close>, \<open>-Infinity\<close> and \<open>NaN\<close>: every special case of the arithmetic operators and of
  the \<open>Math\<close> functions that the sources reach (division by zero, \<open>0 * Infinity\<close>, comparison
  with \<open>NaN\<close>, \<open>Math.max()\<close> of nothing) is written out; IEEE rounding and the sign of zero are
  not modelled. A value is a tagged \<open>jsval\<close> with the language's coercions \<open>ToBoolean\<close>,
  \<open>ToNumber\<close> and \<open>parseFloat\<close>; an object is the list of its own properties in insertion order
  together with what it inherits. Nothing here stands for code of the repository.
\<close>

named_theorems js_math \<comment> \<open>the \<open>Math\<close> functions on finite arguments\<close>

subsection \<open>Numbers\<close>

datatype jsnum = Fin real | PInf | NInf | NaN

instantiation jsnum :: "{zero, one, plus, minus, uminus, times, inverse, ord}"
begin

definition zero_jsnum :: jsnum where
  "zero_jsnum = Fin 0"

definition one_jsnum :: jsnum where
  "one_jsnum = Fin 1"

fun plus_jsnum :: "jsnum \<Rightarrow> jsnum \<Rightarrow> jsnum" where
  "plus_jsnum (Fin a) (Fin b) = Fin (a + b)"
| "plus_jsnum NaN _ = NaN"
| "plus_jsnum _ NaN = NaN"
| "plus_jsnum PInf NInf = NaN"
| "plus_jsnum NInf PInf = NaN"
| "plus_jsnum PInf _ = PInf"
| "plus_jsnum _ PInf = PInf"
| "plus_jsnum NInf _ = NInf"
| "plus_jsnum _ NInf = NInf"

fun uminus_jsnum :: "jsnum \<Rightarrow> jsnum" where
  "uminus_jsnum (Fin a) = Fin (- a)"
| "uminus_jsnum PInf = NInf"
| "uminus_jsnum NInf = PInf"
| "uminus_jsnum NaN = NaN"

definition minus_jsnum :: "jsnum \<Rightarrow> jsnum \<Rightarrow> jsnum" where
  "minus_jsnum a b = a + (- b)"

text \<open>The sign decides a product with an infinity; a zero makes it \<open>NaN\<close>.\<close>

fun inf_times :: "real \<Rightarrow> jsnum \<Rightarrow> jsnum" where
  "inf_times s PInf = (if s = 0 then NaN else if 0 < s then PInf else NInf)"
| "inf_times s NInf = (if s = 0 then NaN else if 0 < s then NInf else PInf)"
| "inf_times s x = NaN"

fun times_jsnum :: "jsnum \<Rightarrow> jsnum \<Rightarrow> jsnum" where
  "times_jsnum (Fin a) (Fin b) = Fin (a * b)"
| "times_jsnum NaN _ = NaN"
| "times_jsnum _ NaN = NaN"
| "times_jsnum (Fin a) y = inf_times a y"
| "times_jsnum x (Fin b) = inf_times b x"
| "times_jsnum PInf y = y"
| "times_jsnum NInf y = - y"

fun divide_jsnum :: "jsnum \<Rightarrow> jsnum \<Rightarrow> jsnum" where
  "divide_jsnum (Fin a) (Fin b) =
     (if b \<noteq> 0 then Fin (a / b) else if a = 0 then NaN else if 0 < a then PInf else NInf)"
| "divide_jsnum NaN _ = NaN"
| "divide_jsnum _ NaN = NaN"
| "divide_jsnum (Fin a) _ = Fin 0"
| "divide_jsnum PInf (Fin b) = (if 0 \<le> b then PInf else NInf)"
| "divide_jsnum NInf (Fin b) = (if 0 \<le> b then NInf else PInf)"
| "divide_jsnum _ _ = NaN"

definition inverse_jsnum :: "jsnum \<Rightarrow> jsnum" where
  "inverse_jsnum x = divide (Fin 1) x"

fun less_jsnum :: "jsnum \<Rightarrow> jsnum \<Rightarrow> bool" where
  "less_jsnum (Fin a) (Fin b) \<longleftrightarrow> a < b"
| "less_jsnum NaN _ \<longleftrightarrow> False"
| "less_jsnum _ NaN \<longleftrightarrow> False"
| "less_jsnum PInf _ \<longleftrightarrow> False"
| "less_jsnum _ NInf \<longleftrightarrow> False"
| "less_jsnum _ _ \<longleftrightarrow> True"

definition less_eq_jsnum :: "jsnum \<Rightarrow> jsnum \<Rightarrow> bool" where
  "less_eq_jsnum a b \<longleftrightarrow> a < b \<or> (a = b \<and> a \<noteq> NaN)"

instance ..

end

lemmas jsnum_lits [simp] = zero_jsnum_def one_jsnum_def

lemma less_eq_Fin [simp]: "(Fin a \<le> Fin b) = (a \<le> b)"
  by (auto simp: less_eq_jsnum_def)

lemma minus_Fin [simp]: "Fin a - Fin b = Fin (a - b)"
  by (simp add: minus_jsnum_def)

text \<open>\<open>NaN\<close> is absorbing for arithmetic and false in every comparison.\<close>

lemma NaN_arith [simp]:
  "NaN + x = NaN" "x + NaN = NaN" "NaN - x = NaN" "x - NaN = NaN"
  "NaN * x = NaN" "x * NaN = NaN" "NaN / x = NaN" "x / NaN = NaN"
  by (cases x; simp add: minus_jsnum_def)+

lemma NaN_cmp [simp]: "\<not> NaN < x" "\<not> x < NaN" "\<not> NaN \<le> x" "\<not> x \<le> NaN"
  by (cases x; simp add: less_eq_jsnum_def)+

instance jsnum :: semigroup_add
proof
  fix a b c :: jsnum
  show "a + b + c = a + (b + c)"
    by (cases a; cases b; cases c) (simp_all add: add.assoc)
qed

instance jsnum :: numeral ..

lemma numeral_Fin [simp]: "numeral k = Fin (numeral k)"
proof (induction k)
  case One
  show ?case by (simp only: numeral.simps one_jsnum_def)
next
  case (Bit0 k)
  then show ?case by (simp only: numeral.simps plus_jsnum.simps)
next
  case (Bit1 k)
  then show ?case by (simp only: numeral.simps one_jsnum_def plus_jsnum.simps)
qed

fun is_fin :: "jsnum \<Rightarrow> bool" where
  "is_fin (Fin _) = True"
| "is_fin _ = False"

fun the_fin :: "jsnum \<Rightarrow> real" where
  "the_fin (Fin a) = a"
| "the_fin _ = 0"

lemma is_finE [elim]: "is_fin x \<Longrightarrow> (\<And>a. x = Fin a \<Longrightarrow> P) \<Longrightarrow> P"
  by (cases x) auto

text \<open>Numeric strict equality \<open>===\<close>: \<open>NaN\<close> differs from itself.\<close>

definition num_eq :: "jsnum \<Rightarrow> jsnum \<Rightarrow> bool" where
  "num_eq a b \<longleftrightarrow> a = b \<and> a \<noteq> NaN"

lemma num_eq_simps [simp]:
  "num_eq (Fin a) (Fin b) = (a = b)" "num_eq NaN x = False" "num_eq x NaN = False"
  "num_eq (Fin a) PInf = False" "num_eq (Fin a) NInf = False"
  "num_eq PInf (Fin a) = False" "num_eq NInf (Fin a) = False"
  by (auto simp: num_eq_def)

subsection \<open>The \<open>Math\<close> object and the remainder operator\<close>

fun num_map :: "(real \<Rightarrow> real) \<Rightarrow> jsnum \<Rightarrow> jsnum" where
  "num_map f (Fin a) = Fin (f a)"
| "num_map f x = x"

definition Math_floor :: "jsnum \<Rightarrow> jsnum" where
  "Math_floor = num_map (\<lambda>x. of_int \<lfloor>x\<rfloor>)"

definition Math_ceil :: "jsnum \<Rightarrow> jsnum" where
  "Math_ceil = num_map (\<lambda>x. of_int \<lceil>x\<rceil>)"

text \<open>\<open>Math.round\<close> rounds halves towards \<open>Infinity\<close>.\<close>

definition Math_round :: "jsnum \<Rightarrow> jsnum" where
  "Math_round = num_map (\<lambda>x. of_int \<lfloor>x + 1 / 2\<rfloor>)"

fun Math_abs :: "jsnum \<Rightarrow> jsnum" where
  "Math_abs (Fin a) = Fin \<bar>a\<bar>"
| "Math_abs NaN = NaN"
| "Math_abs _ = PInf"

definition max2 :: "jsnum \<Rightarrow> jsnum \<Rightarrow> jsnum" where
  "max2 a b = (if a = NaN \<or> b = NaN then NaN else if a < b then b else a)"

definition min2 :: "jsnum \<Rightarrow> jsnum \<Rightarrow> jsnum" where
  "min2 a b = (if a = NaN \<or> b = NaN then NaN else if b < a then b else a)"

definition Math_max :: "jsnum list \<Rightarrow> jsnum" where
  "Math_max xs = foldl max2 NInf xs"

definition Math_min :: "jsnum list \<Rightarrow> jsnum" where
  "Math_min xs = foldl min2 PInf xs"

fun Math_log :: "jsnum \<Rightarrow> jsnum" where
  "Math_log (Fin x) = (if x < 0 then NaN else if x = 0 then NInf else Fin (ln x))"
| "Math_log PInf = PInf"
| "Math_log _ = NaN"

definition Math_LN10 :: jsnum where
  "Math_LN10 = Fin (ln 10)"

definition Math_PI :: jsnum where
  "Math_PI = Fin pi"

fun Math_sqrt :: "jsnum \<Rightarrow> jsnum" where
  "Math_sqrt (Fin x) = (if x < 0 then NaN else Fin (sqrt x))"
| "Math_sqrt PInf = PInf"
| "Math_sqrt _ = NaN"

fun Math_sin :: "jsnum \<Rightarrow> jsnum" where
  "Math_sin (Fin x) = Fin (sin x)"
| "Math_sin _ = NaN"

fun Math_cos :: "jsnum \<Rightarrow> jsnum" where
  "Math_cos (Fin x) = Fin (cos x)"
| "Math_cos _ = NaN"

fun Math_asin :: "jsnum \<Rightarrow> jsnum" where
  "Math_asin (Fin x) = (if \<bar>x\<bar> \<le> 1 then Fin (arcsin x) else NaN)"
| "Math_asin _ = NaN"

definition arctan2 :: "real \<Rightarrow> real \<Rightarrow> real" where
  "arctan2 y x =
     (if 0 < x then arctan (y / x)
      else if x < 0 then (if 0 \<le> y then arctan (y / x) + pi else arctan (y / x) - pi)
      else if 0 < y then pi / 2 else if y < 0 then - (pi / 2) else 0)"

fun Math_atan2 :: "jsnum \<Rightarrow> jsnum \<Rightarrow> jsnum" where
  "Math_atan2 (Fin y) (Fin x) = Fin (arctan2 y x)"
| "Math_atan2 NaN _ = NaN"
| "Math_atan2 _ NaN = NaN"
| "Math_atan2 (Fin y) PInf = Fin 0"
| "Math_atan2 (Fin y) NInf = Fin (if 0 \<le> y then pi else - pi)"
| "Math_atan2 PInf (Fin x) = Fin (pi / 2)"
| "Math_atan2 NInf (Fin x) = Fin (- (pi / 2))"
| "Math_atan2 PInf PInf = Fin (pi / 4)"
| "Math_atan2 PInf NInf = Fin (3 * pi / 4)"
| "Math_atan2 NInf PInf = Fin (- (pi / 4))"
| "Math_atan2 NInf NInf = Fin (- (3 * pi / 4))"

text \<open>
  \<open>Math.pow\<close>: an integral exponent is repeated multiplication or division; a base of zero
  with a negative exponent is \<open>Infinity\<close>; a negative base with a fractional exponent is \<open>NaN\<close>.
\<close>

definition pow_real :: "real \<Rightarrow> real \<Rightarrow> jsnum" where
  "pow_real a b =
     (if b = 0 then Fin 1
      else if a = 0 then (if 0 < b then Fin 0 else PInf)
      else if b = of_int \<lfloor>b\<rfloor> then Fin (a powi \<lfloor>b\<rfloor>)
      else if 0 < a then Fin (a powr b) else NaN)"

fun Math_pow :: "jsnum \<Rightarrow> jsnum \<Rightarrow> jsnum" where
  "Math_pow (Fin a) (Fin b) = pow_real a b"
| "Math_pow x NaN = NaN"
| "Math_pow NaN (Fin b) = (if b = 0 then Fin 1 else NaN)"
| "Math_pow NaN _ = NaN"
| "Math_pow PInf (Fin b) = (if b = 0 then Fin 1 else if 0 < b then PInf else Fin 0)"
| "Math_pow NInf (Fin b) =
     (if b = 0 then Fin 1 else if b < 0 then Fin 0
      else if b = of_int \<lfloor>b\<rfloor> \<and> odd \<lfloor>b\<rfloor> then NInf else PInf)"
| "Math_pow (Fin a) PInf = (if \<bar>a\<bar> = 1 then NaN else if 1 < \<bar>a\<bar> then PInf else Fin 0)"
| "Math_pow (Fin a) NInf = (if \<bar>a\<bar> = 1 then NaN else if 1 < \<bar>a\<bar> then Fin 0 else PInf)"
| "Math_pow _ PInf = PInf"
| "Math_pow _ NInf = Fin 0"

text \<open>The operator \<open>%\<close>: the sign follows the dividend.\<close>

definition trunc :: "real \<Rightarrow> int" where
  "trunc x = (if 0 \<le> x then \<lfloor>x\<rfloor> else \<lceil>x\<rceil>)"

fun js_mod :: "jsnum \<Rightarrow> jsnum \<Rightarrow> jsnum" where
  "js_mod (Fin a) (Fin b) = (if b = 0 then NaN else Fin (a - b * of_int (trunc (a / b))))"
| "js_mod NaN _ = NaN"
| "js_mod _ NaN = NaN"
| "js_mod (Fin a) _ = Fin a"
| "js_mod _ _ = NaN"

lemmas math_fin [simp, js_math] =
  Math_floor_def Math_ceil_def Math_round_def Math_LN10_def Math_PI_def

lemma pow_nat [js_math]: "Math_pow (Fin a) (Fin (numeral k)) = Fin (a ^ numeral k)"
proof -
  have "a powi (numeral k :: int) = a ^ numeral k"
    by (simp add: power_int_def)
  then show ?thesis by (cases "a = 0") (simp_all add: pow_real_def)
qed

lemma pow_int [js_math]: "a \<noteq> 0 \<Longrightarrow> Math_pow (Fin a) (Fin (of_int k)) = Fin (a powi k)"
  by (simp add: pow_real_def)

lemma pow_pos [js_math]: "0 < a \<Longrightarrow> Math_pow (Fin a) (Fin b) = Fin (a powr b)"
  using powr_real_of_int' [of a "\<lfloor>b\<rfloor>"] by (auto simp: pow_real_def)

subsubsection \<open>Extrema\<close>

lemma Math_max_Fin: "Math_max (map Fin (x # xs)) = Fin (Max (set (x # xs)))"
proof -
  have "foldl max2 (Fin y) (map Fin zs) = Fin (Max (set (y # zs)))" for y zs
  proof (induction zs arbitrary: y)
    case (Cons z zs)
    have "max2 (Fin y) (Fin z) = Fin (max y z)"
      by (auto simp: max2_def)
    with Cons.IH [of "max y z"] show ?case
      by (cases zs) (simp_all add: max.assoc)
  qed simp
  then show ?thesis by (simp add: Math_max_def max2_def)
qed

lemma Math_min_Fin: "Math_min (map Fin (x # xs)) = Fin (Min (set (x # xs)))"
proof -
  have "foldl min2 (Fin y) (map Fin zs) = Fin (Min (set (y # zs)))" for y zs
  proof (induction zs arbitrary: y)
    case (Cons z zs)
    have "min2 (Fin y) (Fin z) = Fin (min y z)"
      by (auto simp: min2_def)
    with Cons.IH [of "min y z"] show ?case
      by (cases zs) (simp_all add: min.assoc)
  qed simp
  then show ?thesis by (simp add: Math_min_def min2_def)
qed

end
