(* ===== verification/JS_Values.thy ===== *)
theory JS_Values
  imports JS_Prelude
begin

section \<open>Values, coercions, property lists and loops\<close>

text \<open>
  The values that flow through the sources, with the coercions of the language
  (\<open>ToBoolean\<close>, \<open>ToNumber\<close>, \<open>parseFloat\<close>, \<open>isFinite\<close>, \<open>===\<close>), own properties as
  association lists in insertion order, exceptions as the left summand of a sum type, and the
  two array operations of the library that the charts use (\<open>shift\<close> and \<open>splice\<close>).
\<close>

named_theorems js_obj \<comment> \<open>reading, writing and deleting properties\<close>

subsection \<open>Values and exceptions\<close>

datatype jsval =
    JUndef
  | JNull
  | JBool bool
  | JNum jsnum
  | JStr string
  | JArr "jsval list"
  | JRef nat \<comment> \<open>an object or a function, known by its identity only\<close>

datatype jserr = TypeError | ReferenceError | Thrown string

fun truthy :: "jsval \<Rightarrow> bool" where
  "truthy JUndef = False"
| "truthy JNull = False"
| "truthy (JBool b) = b"
| "truthy (JNum n) = (n \<noteq> NaN \<and> n \<noteq> Fin 0)"
| "truthy (JStr s) = (s \<noteq> [])"
| "truthy _ = True"

abbreviation num_truthy :: "jsnum \<Rightarrow> bool" where
  "num_truthy n \<equiv> n \<noteq> NaN \<and> n \<noteq> Fin 0"

text \<open>\<open>a || b\<close> as an expression: the left operand when it is truthy.\<close>

definition js_or :: "jsval \<Rightarrow> jsval \<Rightarrow> jsval" where
  "js_or a b = (if truthy a then a else b)"

text \<open>\<open>===\<close>; two array literals are different objects.\<close>

fun strict_eq :: "jsval \<Rightarrow> jsval \<Rightarrow> bool" where
  "strict_eq JUndef JUndef = True"
| "strict_eq JNull JNull = True"
| "strict_eq (JBool a) (JBool b) = (a = b)"
| "strict_eq (JNum a) (JNum b) = num_eq a b"
| "strict_eq (JStr a) (JStr b) = (a = b)"
| "strict_eq (JRef a) (JRef b) = (a = b)"
| "strict_eq _ _ = False"

subsection \<open>Numbers in strings\<close>

definition is_ws :: "char \<Rightarrow> bool" where
  "is_ws c = (of_char c \<in> {9, 10, 11, 12, 13, 32, 160 :: nat})"

definition is_digit :: "char \<Rightarrow> bool" where
  "is_digit c = (48 \<le> (of_char c :: nat) \<and> (of_char c :: nat) \<le> 57)"

definition digit_val :: "char \<Rightarrow> nat" where
  "digit_val c = of_char c - 48"

definition digits_val :: "string \<Rightarrow> nat" where
  "digits_val ds = foldl (\<lambda>n d. 10 * n + digit_val d) 0 ds"

text \<open>An optional exponent part; it is read only when at least one digit follows.\<close>

fun scan_exp :: "string \<Rightarrow> int \<times> string" where
  "scan_exp (e # s) =
     (if e = CHR ''e'' \<or> e = CHR ''E'' then
        (let neg = (s \<noteq> [] \<and> hd s = CHR ''-'');
             t = (if s \<noteq> [] \<and> hd s \<in> {CHR ''+'', CHR ''-''} then tl s else s);
             ds = takeWhile is_digit t
         in if ds = [] then (0, e # s)
            else ((if neg then - int (digits_val ds) else int (digits_val ds)), dropWhile is_digit t))
      else (0, e # s))"
| "scan_exp [] = (0, [])"

text \<open>The longest prefix that is an unsigned decimal literal, and the rest.\<close>

definition scan_decimal :: "string \<Rightarrow> (jsnum \<times> string) option" where
  "scan_decimal s =
     (if take 8 s = ''Infinity'' then Some (PInf, drop 8 s) else
      let d1 = takeWhile is_digit s; r1 = dropWhile is_digit s;
          dot = (r1 \<noteq> [] \<and> hd r1 = CHR ''.'');
          d2 = (if dot then takeWhile is_digit (tl r1) else []);
          r2 = (if dot then dropWhile is_digit (tl r1) else r1)
      in if d1 = [] \<and> d2 = [] then None
         else (let (e, r3) = scan_exp r2
               in Some (Fin ((real (digits_val d1) + real (digits_val d2) / 10 ^ length d2) * 10 powi e), r3)))"

definition scan_signed :: "string \<Rightarrow> (jsnum \<times> string) option" where
  "scan_signed s =
     (case s of
        [] \<Rightarrow> None
      | c # t \<Rightarrow> if c = CHR ''-'' then map_option (\<lambda>(v, r). (- v, r)) (scan_decimal t)
                 else if c = CHR ''+'' then scan_decimal t else scan_decimal s)"

definition parse_float :: "string \<Rightarrow> jsnum" where
  "parse_float s = (case scan_signed (dropWhile is_ws s) of None \<Rightarrow> NaN | Some (v, _) \<Rightarrow> v)"

definition hex_val :: "char \<Rightarrow> nat option" where
  "hex_val c =
     (let n = of_char c :: nat
      in if is_digit c then Some (n - 48)
         else if 65 \<le> n \<and> n \<le> 70 then Some (n - 55)
         else if 97 \<le> n \<and> n \<le> 102 then Some (n - 87) else None)"

fun hex_number :: "nat \<Rightarrow> string \<Rightarrow> jsnum" where
  "hex_number n [] = Fin (real n)"
| "hex_number n (c # s) = (case hex_val c of None \<Rightarrow> NaN | Some d \<Rightarrow> hex_number (16 * n + d) s)"

definition trim :: "string \<Rightarrow> string" where
  "trim s = rev (dropWhile is_ws (rev (dropWhile is_ws s)))"

definition str_to_number :: "string \<Rightarrow> jsnum" where
  "str_to_number s =
     (let t = trim s
      in if t = [] then Fin 0
         else if take 2 t \<in> {''0x'', ''0X''} \<and> length t > 2 then hex_number 0 (drop 2 t)
         else (case scan_signed t of Some (v, []) \<Rightarrow> v | _ \<Rightarrow> NaN))"

subsection \<open>Coercions\<close>

text \<open>\<open>ToNumber\<close>; an array goes through its string: its elements joined with commas.\<close>

fun to_number :: "jsval \<Rightarrow> jsnum" where
  "to_number JUndef = NaN"
| "to_number JNull = Fin 0"
| "to_number (JBool b) = (if b then Fin 1 else Fin 0)"
| "to_number (JNum n) = n"
| "to_number (JStr s) = str_to_number s"
| "to_number (JArr []) = Fin 0"
| "to_number (JArr [v]) =
     (case v of JUndef \<Rightarrow> Fin 0 | JNull \<Rightarrow> Fin 0 | JBool _ \<Rightarrow> NaN | _ \<Rightarrow> to_number v)"
| "to_number (JArr _) = NaN"
| "to_number (JRef _) = NaN"

fun js_parseFloat :: "jsval \<Rightarrow> jsnum" where
  "js_parseFloat (JNum n) = n"
| "js_parseFloat (JStr s) = parse_float s"
| "js_parseFloat (JArr (v # vs)) = js_parseFloat v"
| "js_parseFloat _ = NaN"

abbreviation js_isFinite :: "jsval \<Rightarrow> bool" where
  "js_isFinite v \<equiv> is_fin (to_number v)"

subsection \<open>Properties\<close>

type_synonym props = "(string \<times> jsval) list"

definition pget :: "props \<Rightarrow> string \<Rightarrow> jsval" where
  "pget ps k = (case map_of ps k of None \<Rightarrow> JUndef | Some v \<Rightarrow> v)"

definition pset :: "string \<Rightarrow> jsval \<Rightarrow> props \<Rightarrow> props" where
  "pset k v ps = AList.update k v ps"

definition pdel :: "string \<Rightarrow> props \<Rightarrow> props" where
  "pdel k ps = AList.delete k ps"

definition has_own :: "props \<Rightarrow> string \<Rightarrow> bool" where
  "has_own ps k = (map_of ps k \<noteq> None)"

abbreviation wf_props :: "props \<Rightarrow> bool" where
  "wf_props ps \<equiv> distinct (map fst ps)"

lemma pget_pset [simp, js_obj]: "pget (pset k v ps) k' = (if k' = k then v else pget ps k')"
  by (simp add: pget_def pset_def update_conv')

lemma pget_pdel [simp, js_obj]: "pget (pdel k ps) k' = (if k' = k then JUndef else pget ps k')"
  by (simp add: pget_def pdel_def delete_conv')

lemma pget_Nil [simp, js_obj]: "pget [] k = JUndef"
  by (simp add: pget_def)

lemma pget_Cons [simp, js_obj]: "pget ((k, v) # ps) k' = (if k' = k then v else pget ps k')"
  by (simp add: pget_def)

lemma has_own_pset [simp, js_obj]: "has_own (pset k v ps) k' = (k' = k \<or> has_own ps k')"
  by (simp add: has_own_def pset_def update_conv')

lemma has_own_keys: "has_own ps k = (k \<in> fst ` set ps)"
  by (auto simp: has_own_def map_of_eq_None_iff)

lemma wf_pset [simp]: "wf_props (pset k v ps) = wf_props ps"
proof
  assume "wf_props ps"
  then show "wf_props (pset k v ps)"
    by (simp add: pset_def distinct_update)
next
  assume "wf_props (pset k v ps)"
  then show "wf_props ps"
    unfolding pset_def
  proof (induction ps)
    case (Cons p ps)
    then show ?case
      by (cases p) (auto simp: dom_update update_keys split: if_splits)
  qed simp
qed

lemma wf_pdel [simp]: "wf_props ps \<Longrightarrow> wf_props (pdel k ps)"
  by (simp add: pdel_def distinct_delete)

lemma update_fresh: "k \<notin> fst ` set al \<Longrightarrow> AList.update k v al = al @ [(k, v)]"
  by (induction al) auto

lemma pset_fresh: "\<not> has_own ps k \<Longrightarrow> pset k v ps = ps @ [(k, v)]"
  by (simp add: pset_def has_own_keys update_fresh)

subsection \<open>Numeric options and properties\<close>

abbreviation nget :: "props \<Rightarrow> string \<Rightarrow> jsnum" where
  "nget ps k \<equiv> to_number (pget ps k)"

abbreviation bget :: "props \<Rightarrow> string \<Rightarrow> bool" where
  "bget ps k \<equiv> truthy (pget ps k)"

subsection \<open>Array methods\<close>

text \<open>
  \<open>splice(index, 0, x)\<close> and \<open>splice(index, 1)\<close>: the index is truncated, a negative one counts
  from the end, and both ends are clamped.
\<close>

definition splice_start :: "nat \<Rightarrow> jsnum \<Rightarrow> nat" where
  "splice_start len i =
     (case i of
        Fin r \<Rightarrow> (let t = trunc r in if t < 0 then nat (int len + t) else min (nat t) len)
      | PInf \<Rightarrow> len | NInf \<Rightarrow> 0 | NaN \<Rightarrow> 0)"

definition splice_insert :: "jsnum \<Rightarrow> 'a \<Rightarrow> 'a list \<Rightarrow> 'a list" where
  "splice_insert i x xs = (let k = splice_start (length xs) i in take k xs @ x # drop k xs)"

definition splice_remove1 :: "jsnum \<Rightarrow> 'a list \<Rightarrow> 'a list" where
  "splice_remove1 i xs = (let k = splice_start (length xs) i in take k xs @ drop (Suc k) xs)"

definition js_shift :: "'a list \<Rightarrow> 'a list" where
  "js_shift xs = tl xs"

text \<open>Reading \<open>xs[i]\<close> at a natural index: \<open>None\<close> stands for \<open>undefined\<close>.\<close>

definition idx :: "'a list \<Rightarrow> nat \<Rightarrow> 'a option" where
  "idx xs i = (if i < length xs then Some (xs ! i) else None)"

lemma splice_start_end [simp]: "splice_start n (Fin (real n)) = n"
  by (simp add: splice_start_def trunc_def Let_def)

lemma splice_start_nat: "i \<le> n \<Longrightarrow> splice_start n (Fin (real i)) = i"
  by (simp add: splice_start_def trunc_def Let_def)

lemma splice_insert_end [simp]: "splice_insert (Fin (real (length xs))) x xs = xs @ [x]"
  by (simp add: splice_insert_def Let_def)

lemma length_splice_insert [simp]: "length (splice_insert i x xs) = Suc (length xs)"
  by (simp add: splice_insert_def Let_def)

lemma set_splice_insert [simp]: "set (splice_insert i x xs) = insert x (set xs)"
proof -
  have "set (take k xs) \<union> set (drop k xs) = set xs" for k
    by (metis append_take_drop_id set_append)
  then show ?thesis by (auto simp: splice_insert_def Let_def)
qed

lemma set_splice_remove1: "set (splice_remove1 i xs) \<subseteq> set xs"
  by (auto simp: splice_remove1_def Let_def dest: in_set_takeD in_set_dropD)

end
