(* ===== verification/Chart_Helpers.thy ===== *)
theory Chart_Helpers
  imports JS_Values
begin

section \<open>Chart.js: the collection helpers\<close>

text \<open>
  \<open>Chart.helpers\<close> of \<open>Chart.min.js\<close>, lines 171 to 283: \<open>each\<close>, \<open>clone\<close>, \<open>extend\<close>, \<open>merge\<close>,
  \<open>indexOf\<close>, \<open>where\<close>, \<open>findNextWhere\<close>, \<open>findPreviousWhere\<close>, \<open>inherits\<close> and \<open>uid\<close>.
  \<open>each\<close> is given by the sequence of calls it makes; a client folds its callback over it. The
  locale \<open>prop_object\<close> states what the copying helpers need from property access.
\<close>

subsection \<open>Objects and \<open>each\<close>\<close>

text \<open>An object: its own properties and the enumerable ones its prototype chain adds.\<close>

record jsobj =
  own :: props
  inherited :: props

definition oget :: "jsobj \<Rightarrow> string \<Rightarrow> jsval" where
  "oget ob k = (if has_own (own ob) k then pget (own ob) k else pget (inherited ob) k)"

definition for_in :: "jsobj \<Rightarrow> string list" where
  "for_in ob = map fst (own ob) @ filter (\<lambda>k. \<not> has_own (own ob) k) (map fst (inherited ob))"

fun show_nat :: "nat \<Rightarrow> string" where
  "show_nat n = (if n < 10 then [char_of (48 + n)] else show_nat (n div 10) @ [char_of (48 + n mod 10)])"

declare show_nat.simps [simp del]

text \<open>
  The calls \<open>each\<close> makes on an object: \<open>(value, key)\<close> pairs. An object whose \<open>length\<close> is a
  number is taken for an array and indexed from \<open>0\<close>; with an infinite length the loop never
  ends (\<open>None\<close>).
\<close>

definition each_obj :: "jsobj \<Rightarrow> (jsval \<times> string) list option" where
  "each_obj ob =
     (case oget ob ''length'' of
        JNum (Fin n) \<Rightarrow> Some (map (\<lambda>i. (oget ob (show_nat i), show_nat i)) [0..<nat \<lceil>n\<rceil>])
      | JNum PInf \<Rightarrow> None
      | JNum NInf \<Rightarrow> Some []
      | _ \<Rightarrow> Some (map (\<lambda>k. (oget ob k, k)) (for_in ob)))"

text \<open>On an array the callback gets the item and its index.\<close>

definition each_arr :: "('a \<Rightarrow> nat \<Rightarrow> 's \<Rightarrow> 's) \<Rightarrow> 'a list \<Rightarrow> 's \<Rightarrow> 's" where
  "each_arr f xs s = fold (\<lambda>(i, x). f x i) (enumerate 0 xs) s"

subsection \<open>\<open>clone\<close>, \<open>extend\<close> and \<open>merge\<close>\<close>

definition copy_own :: "jsobj \<Rightarrow> (jsval \<times> string) list \<Rightarrow> props \<Rightarrow> props" where
  "copy_own ob its base = fold (\<lambda>(v, k) acc. if has_own (own ob) k then pset k v acc else acc) its base"

definition clone :: "jsobj \<Rightarrow> props option" where
  "clone ob = map_option (\<lambda>its. copy_own ob its []) (each_obj ob)"

definition extend1 :: "props \<Rightarrow> jsobj option \<Rightarrow> props option" where
  "extend1 base ext =
     (case ext of
        None \<Rightarrow> Some base
      | Some ob \<Rightarrow> map_option (\<lambda>its. copy_own ob its base) (each_obj ob))"

fun extend_obj :: "props \<Rightarrow> jsobj option list \<Rightarrow> props option" where
  "extend_obj base [] = Some base"
| "extend_obj base (e # es) = (case extend1 base e of None \<Rightarrow> None | Some b \<Rightarrow> extend_obj b es)"

definition merge :: "jsobj option list \<Rightarrow> props option" where
  "merge args = extend_obj [] args"

subsection \<open>Searching arrays\<close>

fun native_indexOf :: "('a \<Rightarrow> 'a \<Rightarrow> bool) \<Rightarrow> 'a list \<Rightarrow> 'a \<Rightarrow> int" where
  "native_indexOf eq xs x = (case List.find (\<lambda>i. eq (xs ! i) x) [0..<length xs] of None \<Rightarrow> - 1 | Some i \<Rightarrow> int i)"

function indexOf_loop :: "('a \<Rightarrow> 'a \<Rightarrow> bool) \<Rightarrow> 'a list \<Rightarrow> 'a \<Rightarrow> nat \<Rightarrow> int" where
  "indexOf_loop eq xs x i =
     (if i < length xs then (if eq (xs ! i) x then int i else indexOf_loop eq xs x (Suc i)) else - 1)"
  by pat_completeness auto
termination
  by (relation "measure (\<lambda>(eq, xs, x, i). length xs - i)") auto

declare indexOf_loop.simps [simp del]

definition indexOf :: "bool \<Rightarrow> ('a \<Rightarrow> 'a \<Rightarrow> bool) \<Rightarrow> 'a list \<Rightarrow> 'a \<Rightarrow> int" where
  "indexOf has_native eq xs x = (if has_native then native_indexOf eq xs x else indexOf_loop eq xs x 0)"

definition where_arr :: "'a list \<Rightarrow> ('a \<Rightarrow> bool) \<Rightarrow> 'a list" where
  "where_arr xs p = each_arr (\<lambda>x i acc. if p x then acc @ [x] else acc) xs []"

text \<open>
  The callback gets \<open>arrayToSearch[i]\<close>, where \<open>None\<close> stands for \<open>undefined\<close>; so does the
  result. The start index is \<open>undefined\<close> or a position, and position \<open>0\<close> is falsy.
\<close>

function next_loop :: "'a list \<Rightarrow> ('a option \<Rightarrow> bool) \<Rightarrow> nat \<Rightarrow> 'a option" where
  "next_loop xs p i =
     (if i < length xs then (if p (idx xs i) then idx xs i else next_loop xs p (Suc i)) else None)"
  by pat_completeness auto
termination
  by (relation "measure (\<lambda>(xs, p, i). length xs - i)") auto

declare next_loop.simps [simp del]

definition findNextWhere :: "'a list \<Rightarrow> ('a option \<Rightarrow> bool) \<Rightarrow> nat option \<Rightarrow> 'a option" where
  "findNextWhere xs p si =
     (let start = (case si of None \<Rightarrow> - 1 | Some n \<Rightarrow> if n = 0 then - 1 else int n)
      in next_loop xs p (nat (start + 1)))"

fun prev_loop :: "'a list \<Rightarrow> ('a option \<Rightarrow> bool) \<Rightarrow> nat \<Rightarrow> 'a option" where
  "prev_loop xs p 0 = None"
| "prev_loop xs p (Suc i) = (if p (idx xs i) then idx xs i else prev_loop xs p i)"

definition findPreviousWhere :: "'a list \<Rightarrow> ('a option \<Rightarrow> bool) \<Rightarrow> nat option \<Rightarrow> 'a option" where
  "findPreviousWhere xs p si =
     (let start = (case si of None \<Rightarrow> length xs | Some n \<Rightarrow> if n = 0 then length xs else n)
      in prev_loop xs p start)"

subsection \<open>\<open>inherits\<close> and \<open>uid\<close>\<close>

record jsclass =
  ctor :: jsval
  proto :: jsobj
  super_proto :: "jsobj option"

definition flatten :: "jsobj \<Rightarrow> props" where
  "flatten ob = map (\<lambda>k. (k, oget ob k)) (for_in ob)"

text \<open>\<open>fresh\<close> is the identity of the function \<open>inherits\<close> makes when none is given.\<close>

definition inherits :: "nat \<Rightarrow> jsclass \<Rightarrow> jsobj option \<Rightarrow> jsclass option" where
  "inherits fresh parent exts =
     (let c = (case exts of
                 Some e \<Rightarrow> if has_own (own e) ''constructor'' then pget (own e) ''constructor'' else JRef fresh
               | None \<Rightarrow> JRef fresh);
          surrogate = [(''constructor'', c)]
      in map_option (\<lambda>ps. \<lparr>ctor = c, proto = \<lparr>own = ps, inherited = flatten (proto parent)\<rparr>,
                           super_proto = Some (proto parent)\<rparr>)
                    (extend_obj surrogate [exts]))"

text \<open>The closure variable \<open>id\<close> of \<open>uid\<close> is passed and returned.\<close>

definition uid :: "nat \<Rightarrow> string \<times> nat" where
  "uid n = (''chart-'' @ show_nat n, Suc n)"

subsection \<open>Reading after copying\<close>

text \<open>What the copying helpers rely on: a property object can be read, written and tested.\<close>

locale prop_object =
  fixes get :: "'o \<Rightarrow> 'k \<Rightarrow> 'v"
    and put :: "'k \<Rightarrow> 'v \<Rightarrow> 'o \<Rightarrow> 'o"
    and has :: "'o \<Rightarrow> 'k \<Rightarrow> bool"
  assumes get_put: "get (put k v ob) k' = (if k' = k then v else get ob k')"
    and has_put: "has (put k v ob) k' = (k' = k \<or> has ob k')"
begin

lemma get_fold_put:
  assumes "\<And>v k. (v, k) \<in> set its \<Longrightarrow> v = f k"
  shows "get (fold (\<lambda>(v, k) acc. if q k then put k v acc else acc) its ob) k' =
           (if q k' \<and> k' \<in> snd ` set its then f k' else get ob k')"
  using assms
proof (induction its arbitrary: ob)
  case (Cons p its)
  obtain v k where p: "p = (v, k)" by (cases p)
  have v: "v = f k" and IH: "\<And>v k. (v, k) \<in> set its \<Longrightarrow> v = f k"
    using Cons.prems p by auto
  show ?case
    unfolding p by (simp add: Cons.IH [OF IH] get_put v) (auto simp: image_iff)
qed simp

lemma has_fold_put:
  "has (fold (\<lambda>(v, k) acc. if q k then put k v acc else acc) its ob) k' =
     (has ob k' \<or> (q k' \<and> k' \<in> snd ` set its))"
proof (induction its arbitrary: ob)
  case (Cons p its)
  then show ?case by (cases p) (auto simp: has_put)
qed simp

end

interpretation po: prop_object pget pset has_own
  by unfold_locales simp_all

text \<open>An object that \<open>each\<close> does not take for an array.\<close>

definition plain_obj :: "jsobj \<Rightarrow> bool" where
  "plain_obj ob = (case oget ob ''length'' of JNum n \<Rightarrow> n = NaN | _ \<Rightarrow> True)"

lemma each_obj_plain: "plain_obj ob \<Longrightarrow> each_obj ob = Some (map (\<lambda>k. (oget ob k, k)) (for_in ob))"
  by (auto simp: plain_obj_def each_obj_def split: jsval.splits jsnum.splits)

lemma for_in_own: "has_own (own ob) k \<Longrightarrow> k \<in> set (for_in ob)"
  by (auto simp: for_in_def has_own_keys)

lemma copy_own_get:
  "pget (copy_own ob (map (\<lambda>k. (oget ob k, k)) (for_in ob)) base) k =
     (if has_own (own ob) k then pget (own ob) k else pget base k)"
proof -
  let ?its = "map (\<lambda>k. (oget ob k, k)) (for_in ob)"
  have "pget (copy_own ob ?its base) k =
      (if has_own (own ob) k \<and> k \<in> snd ` set ?its then oget ob k else pget base k)"
    unfolding copy_own_def by (rule po.get_fold_put) auto
  then show ?thesis by (auto simp: oget_def image_image dest: for_in_own)
qed

lemma copy_own_has:
  "has_own (copy_own ob (map (\<lambda>k. (oget ob k, k)) (for_in ob)) base) k =
     (has_own base k \<or> has_own (own ob) k)"
  unfolding copy_own_def by (auto simp: po.has_fold_put image_image dest: for_in_own)

lemma extend1_plain:
  assumes "plain_obj ob"
  shows "\<exists>ps. extend1 base (Some ob) = Some ps \<and>
           (\<forall>k. pget ps k = (if has_own (own ob) k then pget (own ob) k else pget base k)) \<and>
           (\<forall>k. has_own ps k = (has_own base k \<or> has_own (own ob) k))"
  using assms by (simp add: extend1_def each_obj_plain copy_own_get copy_own_has)

subsection \<open>\<open>merge\<close> and \<open>clone\<close>\<close>

text \<open>
  Merging the global defaults, the defaults of a chart type and the user's options returns
  a new object in which every key reads as the user set it, else as the chart type sets it, else
  as the global defaults do.
\<close>

theorem merge_precedence:
  assumes "plain_obj g" and "plain_obj d" and "plain_obj u"
  shows "\<exists>config. merge [Some g, Some d, Some u] = Some config \<and>
           (\<forall>k. pget config k =
              (if has_own (own u) k then pget (own u) k
               else if has_own (own d) k then pget (own d) k
               else pget (own g) k))"
proof -
  obtain p1 where p1: "extend1 [] (Some g) = Some p1"
    and g1: "\<And>k. pget p1 k = (if has_own (own g) k then pget (own g) k else pget [] k)"
    using extend1_plain [OF assms(1)] by blast
  obtain p2 where p2: "extend1 p1 (Some d) = Some p2"
    and g2: "\<And>k. pget p2 k = (if has_own (own d) k then pget (own d) k else pget p1 k)"
    using extend1_plain [OF assms(2)] by blast
  obtain p3 where p3: "extend1 p2 (Some u) = Some p3"
    and g3: "\<And>k. pget p3 k = (if has_own (own u) k then pget (own u) k else pget p2 k)"
    using extend1_plain [OF assms(3)] by blast
  have "pget [] k = pget (own g) k" if "\<not> has_own (own g) k" for k
    using that by (simp add: has_own_def pget_def)
  then show ?thesis
    by (intro exI [of _ p3]) (simp add: merge_def p1 p2 p3 g1 g2 g3)
qed

theorem merge_precedence_witness:
  "\<exists>config. merge [Some \<lparr>own = [(''animation'', JBool True), (''scaleFontSize'', JNum 12)], inherited = []\<rparr>,
                   Some \<lparr>own = [(''scaleFontSize'', JNum 10)], inherited = []\<rparr>,
                   Some \<lparr>own = [(''animation'', JBool False)], inherited = []\<rparr>] = Some config \<and>
     pget config ''animation'' = JBool False \<and> pget config ''scaleFontSize'' = JNum 10"
proof -
  let ?g = "\<lparr>own = [(''animation'', JBool True), (''scaleFontSize'', JNum 12)], inherited = []\<rparr>"
  let ?d = "\<lparr>own = [(''scaleFontSize'', JNum 10)], inherited = []\<rparr>"
  let ?u = "\<lparr>own = [(''animation'', JBool False)], inherited = []\<rparr>"
  have "plain_obj ?g" "plain_obj ?d" "plain_obj ?u"
    by (simp_all add: plain_obj_def oget_def)
  from merge_precedence [OF this] obtain config where c: "merge [Some ?g, Some ?d, Some ?u] = Some config"
    and r: "\<And>k. pget config k = (if has_own (own ?u) k then pget (own ?u) k
               else if has_own (own ?d) k then pget (own ?d) k else pget (own ?g) k)"
    by blast
  have "pget config ''animation'' = JBool False" "pget config ''scaleFontSize'' = JNum 10"
    by (simp_all add: r has_own_def)
  with c show ?thesis by blast
qed

lemma fold_pset_fresh:
  assumes "distinct (map snd its)" and "\<forall>k \<in> snd ` set its. \<not> has_own base k"
  shows "fold (\<lambda>(v, k) acc. pset k v acc) its base = base @ map (\<lambda>(v, k). (k, v)) its"
  using assms
proof (induction its arbitrary: base)
  case (Cons p its)
  obtain v k where p: "p = (v, k)" by (cases p)
  have "\<forall>j \<in> snd ` set its. \<not> has_own (base @ [(k, v)]) j"
    using Cons.prems p by (force simp: has_own_keys)
  with Cons.IH [of "base @ [(k, v)]"] Cons.prems p show ?case
    by (simp add: pset_fresh)
qed simp

lemma fold_if_filter: "fold (\<lambda>(v, k) acc. if q k then f v k acc else acc) its s =
    fold (\<lambda>(v, k). f v k) (filter (\<lambda>(v, k). q k) its) s"
  by (induction its arbitrary: s) auto

lemma clone_plain:
  assumes "plain_obj ob" and "wf_props (own ob)"
  shows "clone ob = Some (own ob)"
proof -
  let ?its = "map (\<lambda>k. (oget ob k, k)) (for_in ob)"
  let ?own = "map (\<lambda>(k, v). (v, k)) (own ob)"
  have read: "oget ob k = v" if "(k, v) \<in> set (own ob)" for k v
    using that assms(2) by (simp add: oget_def pget_def has_own_def map_of_eq_Some_iff)
  have "filter (\<lambda>(v, k). has_own (own ob) k) ?its = map (\<lambda>k. (oget ob k, k)) (map fst (own ob))"
    by (simp add: for_in_def filter_map o_def has_own_keys filter_id_conv)
  also have "\<dots> = ?own"
    using read by (auto intro!: map_cong)
  finally have f: "filter (\<lambda>(v, k). has_own (own ob) k) ?its = ?own" .
  have "distinct (map snd ?own)"
    using assms(2) by (simp add: o_def split_def)
  then have "fold (\<lambda>(v, k) acc. pset k v acc) ?own [] = [] @ map (\<lambda>(v, k). (k, v)) ?own"
    by (rule fold_pset_fresh) (simp add: has_own_def)
  then have "copy_own ob ?its [] = own ob"
    unfolding copy_own_def fold_if_filter f by (simp add: o_def split_def)
  then show ?thesis by (simp add: clone_def each_obj_plain assms(1))
qed

text \<open>
  A clone of an object that is not array-like has exactly its own properties, in the same
  order, and none of the inherited ones; but an object with a numeric \<open>length\<close> is taken for an
  array, and every own key that is not an index is lost.
\<close>

theorem clone_copies_own:
  assumes "wf_props (own ob)"
  shows "(plain_obj ob \<longrightarrow> clone ob = Some (own ob)) \<and>
         (\<forall>n k. oget ob ''length'' = JNum (Fin n) \<and> k \<notin> range show_nat \<longrightarrow>
            (\<exists>c. clone ob = Some c \<and> pget c k = JUndef))"
proof (intro conjI impI allI; (elim conjE)?)
  show "clone ob = Some (own ob)" if "plain_obj ob"
    using that assms by (rule clone_plain)
  fix n k
  assume len: "oget ob ''length'' = JNum (Fin n)" and k: "k \<notin> range show_nat"
  let ?its = "map (\<lambda>i. (oget ob (show_nat i), show_nat i)) [0..<nat \<lceil>n\<rceil>]"
  have "pget (copy_own ob ?its []) k =
      (if has_own (own ob) k \<and> k \<in> snd ` set ?its then oget ob k else pget [] k)"
    unfolding copy_own_def by (rule po.get_fold_put) auto
  moreover have "k \<notin> snd ` set ?its" using k by auto
  ultimately show "\<exists>c. clone ob = Some c \<and> pget c k = JUndef"
    using len by (simp add: clone_def each_obj_def)
qed

theorem clone_copies_own_witness:
  "clone \<lparr>own = [(''x'', JNum 1), (''y'', JNum 2)], inherited = [(''draw'', JRef 0)]\<rparr>
     = Some [(''x'', JNum 1), (''y'', JNum 2)] \<and>
   (\<exists>c. clone \<lparr>own = [(''length'', JNum 0), (''y'', JNum 2)], inherited = []\<rparr> = Some c \<and>
      pget c (''length'') = JUndef)"
proof -
  have s: "hd (show_nat n) \<noteq> CHR ''l''" for n
  proof (induction n rule: show_nat.induct)
    case (1 n)
    have ne: "show_nat m \<noteq> []" for m by (subst show_nat.simps) simp
    have d: "char_of (48 + m) \<noteq> CHR ''l''" if "m < 10" for m :: nat
    proof
      assume "char_of (48 + m) = CHR ''l''"
      then have "of_char (char_of (48 + m) :: char) = (of_char (CHR ''l'') :: nat)" by simp
      with that show False by simp
    qed
    show ?case
      by (subst show_nat.simps) (use 1 ne d in \<open>auto simp: hd_append\<close>)
  qed
  have "''length'' \<notin> range show_nat"
    using s by (metis (no_types, lifting) image_iff list.sel(1))
  then show ?thesis
    using clone_copies_own [of "\<lparr>own = [(''x'', JNum 1), (''y'', JNum 2)], inherited = [(''draw'', JRef 0)]\<rparr>"]
      clone_copies_own [of "\<lparr>own = [(''length'', JNum 0), (''y'', JNum 2)], inherited = []\<rparr>"]
    by (simp add: plain_obj_def oget_def has_own_def)
qed

subsection \<open>Searching\<close>

lemma indexOf_loop_find:
  "indexOf_loop eq xs x i =
     (case List.find (\<lambda>j. eq (xs ! j) x) [i..<length xs] of None \<Rightarrow> - 1 | Some j \<Rightarrow> int j)"
proof (induction eq xs x i rule: indexOf_loop.induct)
  case (1 eq xs x i)
  then show ?case
    by (subst indexOf_loop.simps) (simp add: upt_conv_Cons)
qed

text \<open>
  The fallback loop of \<open>indexOf\<close> finds the same position as the native method, so the branch
  on \<open>Array.prototype.indexOf\<close> cannot be observed.
\<close>

theorem indexOf_fallback_agrees: "indexOf False eq xs x = indexOf True eq xs x"
  by (simp add: indexOf_def indexOf_loop_find)

lemma each_arr_append [simp]: "each_arr f (xs @ [x]) s = f x (length xs) (each_arr f xs s)"
  by (simp add: each_arr_def enumerate_append_eq)

lemma each_arr_Nil [simp]: "each_arr f [] s = s"
  by (simp add: each_arr_def)

lemma where_arr_filter: "where_arr xs p = filter p xs"
  by (induction xs rule: rev_induct) (simp_all add: where_arr_def)

abbreviation on_item :: "('a \<Rightarrow> bool) \<Rightarrow> 'a option \<Rightarrow> bool" where
  "on_item p \<equiv> \<lambda>v. case v of None \<Rightarrow> False | Some x \<Rightarrow> p x"

lemma next_loop_find: "next_loop xs (on_item p) i = List.find p (drop i xs)"
proof (induction "length xs - i" arbitrary: i)
  case 0
  then show ?case by (subst next_loop.simps) simp
next
  case (Suc n)
  then have "i < length xs" by simp
  with Suc show ?case
    by (subst next_loop.simps) (simp add: idx_def Cons_nth_drop_Suc [symmetric])
qed

lemma prev_loop_find: "i \<le> length xs \<Longrightarrow> prev_loop xs (on_item p) i = List.find p (rev (take i xs))"
  by (induction i) (simp_all add: idx_def take_Suc_conv_app_nth)

text \<open>
  From a positive index the two searches return the nearest match strictly after and strictly
  before it. From index \<open>0\<close> they start over: forwards from the first element, the element at \<open>0\<close>
  included, and backwards from the end of the array.
\<close>

theorem find_where_spec:
  assumes "n \<le> length xs"
  shows "findNextWhere xs (on_item p) (Some n) = List.find p (if n = 0 then xs else drop (Suc n) xs) \<and>
         findPreviousWhere xs (on_item p) (Some n) = List.find p (rev (if n = 0 then xs else take n xs))"
proof -
  have "nat (int n + 1) = Suc n" by simp
  with assms show ?thesis
    by (simp add: findNextWhere_def findPreviousWhere_def next_loop_find prev_loop_find Let_def)
qed

theorem find_where_spec_witness:
  "findNextWhere [3, 5, 8 :: nat] (on_item (\<lambda>x. x < 6)) (Some 0) = Some 3 \<and>
   findPreviousWhere [3, 5, 8 :: nat] (on_item (\<lambda>x. x < 6)) (Some 2) = Some 5"
  using find_where_spec [of 0 "[3, 5, 8 :: nat]" "\<lambda>x. x < 6"]
    find_where_spec [of 2 "[3, 5, 8 :: nat]" "\<lambda>x. x < 6"]
  by simp

subsection \<open>Identifiers\<close>

lemma digits_val_append: "digits_val (ds @ [d]) = 10 * digits_val ds + digit_val d"
  by (simp add: digits_val_def)

lemma digits_val_show_nat: "digits_val (show_nat n) = n"
proof (induction n rule: show_nat.induct)
  case (1 n)
  have "digit_val (char_of (48 + m)) = m" if "m < 10" for m :: nat
    using that by (simp add: digit_val_def)
  moreover have "digits_val [d] = digit_val d" for d
    by (simp add: digits_val_def)
  ultimately show ?case
    by (subst show_nat.simps) (use 1 in \<open>simp add: digits_val_append\<close>)
qed

text \<open>
  The identifiers \<open>uid\<close> hands out never repeat, since each call uses a counter value the
  calls before it did not.
\<close>

theorem uid_fresh: "fst (uid n) = fst (uid m) \<longleftrightarrow> n = m"
  by (metis append_same_eq digits_val_show_nat fst_conv same_append_eq uid_def)

subsection \<open>Inheritance\<close>

lemma oget_flatten: "pget (flatten ob) k = oget ob k"
proof -
  have "oget ob k = JUndef" if "k \<notin> set (for_in ob)"
    using that by (auto simp: for_in_def oget_def has_own_keys pget_def map_of_eq_None_iff image_iff split: option.splits)
       (metis fst_conv map_of_SomeD)
  then show ?thesis
    by (auto simp: flatten_def pget_def map_of_map_keys map_of_map_restrict restrict_map_def split: option.splits)
qed

text \<open>Method lookup in a class made by \<open>inherits\<close>: the extension first, then the parent.\<close>

lemma inherits_lookup:
  assumes "plain_obj e" and "k \<noteq> ''constructor''" and "inherits fresh parent (Some e) = Some c"
  shows "oget (proto c) k = (if has_own (own e) k then pget (own e) k else oget (proto parent) k)"
proof -
  define c0 where "c0 = (if has_own (own e) ''constructor'' then pget (own e) ''constructor'' else JRef fresh)"
  obtain ps where e1: "extend1 [(''constructor'', c0)] (Some e) = Some ps"
    and g: "\<And>k. pget ps k = (if has_own (own e) k then pget (own e) k else pget [(''constructor'', c0)] k)"
    and h: "\<And>k. has_own ps k = (has_own [(''constructor'', c0)] k \<or> has_own (own e) k)"
    using extend1_plain [OF assms(1)] by blast
  have c: "proto c = \<lparr>own = ps, inherited = flatten (proto parent)\<rparr>"
    using assms(3) by (auto simp: inherits_def Let_def e1 c0_def [symmetric])
  have "has_own [(''constructor'', c0)] k = False"
    using assms(2) by (simp add: has_own_def)
  with g h show ?thesis
    by (simp add: c oget_def [of "\<lparr>own = ps, inherited = flatten (proto parent)\<rparr>"] oget_flatten)
qed

end
