(* ===== verification/Chart_Math.thy ===== *)
theory Chart_Math
  imports JS_Values
begin

section \<open>Chart.js: the numeric helpers\<close>

text \<open>
  \<open>Chart.helpers\<close> of \<open>Chart.min.js\<close>, lines 285 to 357: number tests, extrema, \<open>cap\<close>, decimal
  places, angles, pixel alignment and the control points of a spline. The decimal rendering of a
  number (\<open>toString\<close>) is a parameter, since it depends on the binary representation.
\<close>

subsection \<open>Tests and extrema\<close>

definition isNumber :: "jsval \<Rightarrow> bool" where
  "isNumber n = (js_parseFloat n \<noteq> NaN \<and> js_isFinite n)"

definition js_max :: "jsval list \<Rightarrow> jsnum" where
  "js_max array = Math_max (map to_number array)"

definition js_min :: "jsval list \<Rightarrow> jsnum" where
  "js_min array = Math_min (map to_number array)"

definition cap :: "jsval \<Rightarrow> jsval \<Rightarrow> jsval \<Rightarrow> jsval" where
  "cap valueToCap maxValue minValue =
     (if isNumber maxValue then
        (if to_number maxValue < to_number valueToCap then maxValue else valueToCap)
      else if isNumber minValue then
        (if to_number valueToCap < to_number minValue then minValue else valueToCap)
      else valueToCap)"

text \<open>The second piece of \<open>s.split(".")\<close>, \<open>None\<close> when there is no dot.\<close>

definition second_piece :: "string \<Rightarrow> string option" where
  "second_piece s =
     (case dropWhile (\<lambda>c. c \<noteq> CHR ''.'') s of
        [] \<Rightarrow> None
      | _ # t \<Rightarrow> Some (takeWhile (\<lambda>c. c \<noteq> CHR ''.'') t))"

definition getDecimalPlaces :: "(jsnum \<Rightarrow> string) \<Rightarrow> jsnum \<Rightarrow> jserr + nat" where
  "getDecimalPlaces toString num =
     (if \<not> num_eq (js_mod num 1) 0 \<and> isNumber (JNum num) then
        (case second_piece (toString num) of None \<Rightarrow> Inl TypeError | Some t \<Rightarrow> Inr (length t))
      else Inr 0)"

subsection \<open>Angles and points\<close>

record pt =
  px :: jsnum
  py :: jsnum

record polar =
  angle :: jsnum
  distance :: jsnum

definition toRadians :: "jsnum \<Rightarrow> jsnum" where
  "toRadians degrees = degrees * (Math_PI / 180)"

definition getAngleFromPoint :: "pt \<Rightarrow> pt \<Rightarrow> polar" where
  "getAngleFromPoint centrePoint anglePoint =
     (let distanceFromXCenter = px anglePoint - px centrePoint;
          distanceFromYCenter = py anglePoint - py centrePoint;
          radialDistanceFromCenter =
            Math_sqrt (distanceFromXCenter * distanceFromXCenter + distanceFromYCenter * distanceFromYCenter);
          ang = Math_PI * 2 + Math_atan2 distanceFromYCenter distanceFromXCenter;
          ang' = (if distanceFromXCenter < 0 \<and> distanceFromYCenter < 0 then ang + Math_PI * 2 else ang)
      in \<lparr>angle = ang', distance = radialDistanceFromCenter\<rparr>)"

definition aliasPixel :: "jsnum \<Rightarrow> jsnum" where
  "aliasPixel pixelWidth = (if num_eq (js_mod pixelWidth 2) 0 then 0 else Fin (1 / 2))"

record control_points =
  cp_inner :: pt
  cp_outer :: pt

definition splineCurve :: "pt \<Rightarrow> pt \<Rightarrow> pt \<Rightarrow> jsnum \<Rightarrow> control_points" where
  "splineCurve FirstPoint MiddlePoint AfterPoint t =
     (let d01 = Math_sqrt (Math_pow (px MiddlePoint - px FirstPoint) 2 + Math_pow (py MiddlePoint - py FirstPoint) 2);
          d12 = Math_sqrt (Math_pow (px AfterPoint - px MiddlePoint) 2 + Math_pow (py AfterPoint - py MiddlePoint) 2);
          fa = t * d01 / (d01 + d12);
          fb = t * d12 / (d01 + d12)
      in \<lparr>cp_inner = \<lparr>px = px MiddlePoint - fa * (px AfterPoint - px FirstPoint),
                      py = py MiddlePoint - fa * (py AfterPoint - py FirstPoint)\<rparr>,
          cp_outer = \<lparr>px = px MiddlePoint + fb * (px AfterPoint - px FirstPoint),
                      py = py MiddlePoint + fb * (py AfterPoint - py FirstPoint)\<rparr>\<rparr>)"

subsection \<open>Lemmas on extrema and tests\<close>

lemma isNumber_JNum [simp]: "isNumber (JNum n) = is_fin n"
  by (cases n) (simp_all add: isNumber_def)

lemma isNumber_not [simp]: "\<not> isNumber JUndef" "\<not> isNumber JNull" "\<not> isNumber (JBool b)"
  by (simp_all add: isNumber_def)

lemma isNumber_fin: "isNumber v \<Longrightarrow> \<exists>r. to_number v = Fin r"
  by (auto simp: isNumber_def)

lemma js_max_Fin: "js_max (map (\<lambda>r. JNum (Fin r)) (x # xs)) = Fin (Max (set (x # xs)))"
  using Math_max_Fin [of x xs] by (simp add: js_max_def o_def)

lemma js_min_Fin: "js_min (map (\<lambda>r. JNum (Fin r)) (x # xs)) = Fin (Min (set (x # xs)))"
  using Math_min_Fin [of x xs] by (simp add: js_min_def o_def)

subsection \<open>Polar coordinates\<close>

lemma arctan_circle:
  fixes x y :: real
  assumes "x \<noteq> 0"
  shows "cos (arctan (y / x)) * sqrt (x\<^sup>2 + y\<^sup>2) = \<bar>x\<bar>"
    and "sin (arctan (y / x)) * sqrt (x\<^sup>2 + y\<^sup>2) = sgn x * y"
proof -
  have "1 + (y / x)\<^sup>2 = (x\<^sup>2 + y\<^sup>2) / x\<^sup>2"
    using assms by (simp add: field_simps)
  then have s: "sqrt (1 + (y / x)\<^sup>2) = sqrt (x\<^sup>2 + y\<^sup>2) / \<bar>x\<bar>"
    by (simp add: real_sqrt_divide)
  have r: "sqrt (x\<^sup>2 + y\<^sup>2) > 0"
    using assms by (simp add: add_pos_nonneg)
  show "cos (arctan (y / x)) * sqrt (x\<^sup>2 + y\<^sup>2) = \<bar>x\<bar>"
    using r by (simp add: cos_arctan s)
  show "sin (arctan (y / x)) * sqrt (x\<^sup>2 + y\<^sup>2) = sgn x * y"
  proof -
    have "sin (arctan (y / x)) = (y / x) / (sqrt (x\<^sup>2 + y\<^sup>2) / \<bar>x\<bar>)"
      by (simp only: sin_arctan s)
    with r assms show ?thesis by (auto simp: sgn_if abs_if)
  qed
qed

lemma arctan2_polar:
  "cos (arctan2 y x) * sqrt (x\<^sup>2 + y\<^sup>2) = x" "sin (arctan2 y x) * sqrt (x\<^sup>2 + y\<^sup>2) = y"
  using arctan_circle [of x y]
  by (cases "x = 0"; auto simp: arctan2_def cos_diff sin_diff cos_add sin_add abs_if sgn_if)+

lemma arctan2_range: "- pi < arctan2 y x" "arctan2 y x \<le> pi"
proof -
  have b: "- (pi / 2) < arctan (y / x)" "arctan (y / x) < pi / 2"
    using arctan_bounded [of "y / x"] by auto
  have p: "0 < arctan (y / x)" if "x < 0" "y < 0"
    using that by (simp add: zero_less_divide_iff)
  have n: "arctan (y / x) \<le> 0" if "x < 0" "0 \<le> y"
    using that by (simp add: divide_le_0_iff)
  consider "0 < x" | "x < 0" "0 \<le> y" | "x < 0" "y < 0" | "x = 0" by linarith
  then have "- pi < arctan2 y x \<and> arctan2 y x \<le> pi"
  proof cases
    case 1
    with b pi_gt_zero show ?thesis by (simp add: arctan2_def)
  next
    case 2
    from n [OF 2] b(1) have "- pi < arctan (y / x) + pi \<and> arctan (y / x) + pi \<le> pi"
      using pi_gt_zero by linarith
    with 2 show ?thesis by (simp only: arctan2_def if_True if_False not_less_iff_gr_or_eq) simp
  next
    case 3
    from p [OF 3] b(2) have "- pi < arctan (y / x) - pi \<and> arctan (y / x) - pi \<le> pi"
      using pi_gt_zero by linarith
    with 3 show ?thesis by (simp only: arctan2_def if_True if_False not_less_iff_gr_or_eq not_le) simp
  next
    case 4
    have "- (pi / 2) \<le> pi" using pi_gt_zero by linarith
    with 4 show ?thesis by (simp add: arctan2_def)
  qed
  then show "- pi < arctan2 y x" "arctan2 y x \<le> pi" by auto
qed

lemma arctan2_quadrant:
  "x < 0 \<and> y < 0 \<Longrightarrow> arctan2 y x < - (pi / 2)" "\<not> (x < 0 \<and> y < 0) \<Longrightarrow> - (pi / 2) \<le> arctan2 y x"
proof -
  have b: "- (pi / 2) < arctan (y / x)" "arctan (y / x) < pi / 2"
    using arctan_bounded [of "y / x"] by auto
  show "x < 0 \<and> y < 0 \<Longrightarrow> arctan2 y x < - (pi / 2)"
    using b by (auto simp: arctan2_def)
  show "\<not> (x < 0 \<and> y < 0) \<Longrightarrow> - (pi / 2) \<le> arctan2 y x"
    using b pi_gt_zero by (auto simp: arctan2_def)
qed

lemma getAngle_polar:
  "\<exists>a d. getAngleFromPoint \<lparr>px = Fin cx, py = Fin cy\<rparr> \<lparr>px = Fin x, py = Fin y\<rparr> =
           \<lparr>angle = Fin a, distance = Fin d\<rparr> \<and>
         x = cx + d * cos a \<and> y = cy + d * sin a \<and> 0 \<le> d \<and>
         3 * pi / 2 \<le> a \<and> a < 7 * pi / 2"
proof -
  let ?dx = "x - cx" and ?dy = "y - cy"
  let ?d = "sqrt (?dx\<^sup>2 + ?dy\<^sup>2)" and ?t = "arctan2 ?dy ?dx"
  let ?a = "2 * pi + ?t + (if ?dx < 0 \<and> ?dy < 0 then 2 * pi else 0)"
  have "cos ?a = cos ?t" "sin ?a = sin ?t"
    by (simp_all add: cos_add sin_add)
  then have xy: "x = cx + ?d * cos ?a" "y = cy + ?d * sin ?a"
    using arctan2_polar [where x = ?dx and y = ?dy] by (simp_all add: mult.commute)
  have "3 * pi / 2 \<le> ?a \<and> ?a < 7 * pi / 2"
    using arctan2_range [of ?dy ?dx] arctan2_quadrant [where x = ?dx and y = ?dy]
    by (cases "?dx < 0 \<and> ?dy < 0") auto
  moreover have "getAngleFromPoint \<lparr>px = Fin cx, py = Fin cy\<rparr> \<lparr>px = Fin x, py = Fin y\<rparr> =
      \<lparr>angle = Fin ?a, distance = Fin ?d\<rparr>"
    by (simp add: getAngleFromPoint_def Let_def power2_eq_square add_nonneg_nonneg not_less)
  ultimately show ?thesis
    using xy by (intro exI [of _ ?a] exI [of _ ?d]) simp
qed

lemma polar_unique:
  assumes "d * cos a = d' * cos a'" "d * sin a = d' * sin a'" "0 \<le> d" "0 < d'"
    and "3 * pi / 2 \<le> a" "a < 7 * pi / 2" "3 * pi / 2 \<le> a'" "a' < 7 * pi / 2"
  shows "a = a' \<and> d = d'"
proof -
  have "d\<^sup>2 * ((cos a)\<^sup>2 + (sin a)\<^sup>2) = d'\<^sup>2 * ((cos a')\<^sup>2 + (sin a')\<^sup>2)"
    using assms(1,2) by (metis distrib_left power_mult_distrib)
  then have d: "d = d'"
    using assms(3,4) by (simp add: power2_eq_iff_nonneg)
  with assms(1,2,4) have "cos a = cos a'" "sin a = sin a'" by simp_all
  then have "cos (a - a') = 1"
    using sin_cos_squared_add3 [of a'] by (simp add: cos_diff)
  then obtain k :: int where "a - a' = real_of_int k * (2 * pi)"
    by (auto simp: cos_one_2pi_int)
  moreover have "\<bar>a - a'\<bar> < 2 * pi" using assms(5-8) by linarith
  ultimately have "\<bar>real_of_int k\<bar> * (2 * pi) < 1 * (2 * pi)" by (simp add: abs_mult)
  then have "k = 0" using pi_gt_zero by (simp only: mult_less_cancel_right) linarith
  with \<open>a - a' = real_of_int k * (2 * pi)\<close> d show ?thesis by simp
qed

lemma getAngle_of_polar:
  assumes "0 < d" "3 * pi / 2 \<le> a" "a < 7 * pi / 2"
  shows "getAngleFromPoint \<lparr>px = Fin cx, py = Fin cy\<rparr> \<lparr>px = Fin (cx + d * cos a), py = Fin (cy + d * sin a)\<rparr> =
    \<lparr>angle = Fin a, distance = Fin d\<rparr>"
proof -
  obtain a' d' where eq: "getAngleFromPoint \<lparr>px = Fin cx, py = Fin cy\<rparr> \<lparr>px = Fin (cx + d * cos a), py = Fin (cy + d * sin a)\<rparr> =
      \<lparr>angle = Fin a', distance = Fin d'\<rparr>"
    and x: "cx + d * cos a = cx + d' * cos a'" and y: "cy + d * sin a = cy + d' * sin a'"
    and r: "0 \<le> d'" "3 * pi / 2 \<le> a'" "a' < 7 * pi / 2"
    using getAngle_polar [of cx cy "cx + d * cos a" "cy + d * sin a"] by (elim exE conjE)
  have "a' = a \<and> d' = d"
    by (rule polar_unique [OF _ _ r(1) assms(1) r(2,3) assms(2,3)]) (use x y in linarith)+
  with eq show ?thesis by (simp only:)
qed

text \<open>
  \<open>getAngleFromPoint\<close> converts to polar coordinates about the centre, with the angle in the
  turn that starts at twelve o'clock, from \<open>3\<pi>/2\<close> up to but not including \<open>7\<pi>/2\<close>: the point is
  the centre plus the distance in the direction of the angle, and a point other than the centre
  that is given by such an angle and distance gets exactly these back.
\<close>

theorem getAngleFromPoint_polar:
  "(\<exists>a d. getAngleFromPoint \<lparr>px = Fin cx, py = Fin cy\<rparr> \<lparr>px = Fin x, py = Fin y\<rparr> =
           \<lparr>angle = Fin a, distance = Fin d\<rparr> \<and>
         x = cx + d * cos a \<and> y = cy + d * sin a \<and> 0 \<le> d \<and>
         3 * pi / 2 \<le> a \<and> a < 7 * pi / 2) \<and>
   (0 < r \<and> 3 * pi / 2 \<le> t \<and> t < 7 * pi / 2 \<longrightarrow>
      getAngleFromPoint \<lparr>px = Fin cx, py = Fin cy\<rparr> \<lparr>px = Fin (cx + r * cos t), py = Fin (cy + r * sin t)\<rparr> =
        \<lparr>angle = Fin t, distance = Fin r\<rparr>)"
proof (intro conjI impI)
  assume "0 < r \<and> 3 * pi / 2 \<le> t \<and> t < 7 * pi / 2"
  then show "getAngleFromPoint \<lparr>px = Fin cx, py = Fin cy\<rparr>
      \<lparr>px = Fin (cx + r * cos t), py = Fin (cy + r * sin t)\<rparr> = \<lparr>angle = Fin t, distance = Fin r\<rparr>"
    by (elim conjE) (rule getAngle_of_polar)
qed (rule getAngle_polar)

theorem getAngleFromPoint_polar_witness:
  "getAngleFromPoint \<lparr>px = Fin 5, py = Fin 5\<rparr> \<lparr>px = Fin (5 + 3 * cos (2 * pi)), py = Fin (5 + 3 * sin (2 * pi))\<rparr> =
     \<lparr>angle = Fin (2 * pi), distance = Fin 3\<rparr>"
proof -
  have "3 * pi / 2 \<le> 2 * pi" "2 * pi < 7 * pi / 2" using pi_gt_zero by linarith+
  then show ?thesis
    by (intro getAngleFromPoint_polar [of 5 5 0 0 3 "2 * pi", THEN conjunct2, THEN mp]) simp
qed

subsection \<open>Control points\<close>

text \<open>
  The two control points of a spline lie on the line through the middle point parallel to
  the chord from the first to the last point, on opposite sides of it, and the segment between
  them is the chord scaled by the tension.
\<close>

theorem splineCurve_chord:
  assumes "(mx, my) \<noteq> (fx, fy) \<or> (ax, ay) \<noteq> (mx, my)" and "0 \<le> t"
  shows "\<exists>fa fb. 0 \<le> fa \<and> 0 \<le> fb \<and> fa + fb = t \<and>
     splineCurve \<lparr>px = Fin fx, py = Fin fy\<rparr> \<lparr>px = Fin mx, py = Fin my\<rparr> \<lparr>px = Fin ax, py = Fin ay\<rparr> (Fin t) =
       \<lparr>cp_inner = \<lparr>px = Fin (mx - fa * (ax - fx)), py = Fin (my - fa * (ay - fy))\<rparr>,
        cp_outer = \<lparr>px = Fin (mx + fb * (ax - fx)), py = Fin (my + fb * (ay - fy))\<rparr>\<rparr>"
proof -
  define d01 where "d01 = sqrt ((mx - fx)\<^sup>2 + (my - fy)\<^sup>2)"
  define d12 where "d12 = sqrt ((ax - mx)\<^sup>2 + (ay - my)\<^sup>2)"
  have nonneg: "0 \<le> d01" "0 \<le> d12" by (simp_all add: d01_def d12_def)
  have "d01 \<noteq> 0 \<or> d12 \<noteq> 0"
    using assms(1) by (auto simp: d01_def d12_def sum_power2_eq_zero_iff)
  with nonneg have pos: "0 < d01 + d12" by linarith
  let ?fa = "t * d01 / (d01 + d12)" and ?fb = "t * d12 / (d01 + d12)"
  have "?fa + ?fb = t"
    using pos by (simp add: add_divide_distrib [symmetric] distrib_left [symmetric])
  moreover have "0 \<le> ?fa" "0 \<le> ?fb"
    using nonneg pos assms(2) by simp_all
  moreover have sq: "Math_pow (Fin b) (Fin 2) = Fin (b\<^sup>2)" for b
    using pow_nat [of b "num.Bit0 num.One"] by simp
  have "splineCurve \<lparr>px = Fin fx, py = Fin fy\<rparr> \<lparr>px = Fin mx, py = Fin my\<rparr> \<lparr>px = Fin ax, py = Fin ay\<rparr> (Fin t) =
       \<lparr>cp_inner = \<lparr>px = Fin (mx - ?fa * (ax - fx)), py = Fin (my - ?fa * (ay - fy))\<rparr>,
        cp_outer = \<lparr>px = Fin (mx + ?fb * (ax - fx)), py = Fin (my + ?fb * (ay - fy))\<rparr>\<rparr>"
    using pos by (simp add: splineCurve_def sq d01_def [symmetric] d12_def [symmetric] Let_def not_less del: Math_pow.simps)
  ultimately show ?thesis by blast
qed

theorem splineCurve_chord_witness:
  "\<exists>fa fb. fa + fb = 1 / 2 \<and>
     splineCurve \<lparr>px = Fin 0, py = Fin 0\<rparr> \<lparr>px = Fin 1, py = Fin 2\<rparr> \<lparr>px = Fin 2, py = Fin 0\<rparr> (Fin (1 / 2)) =
       \<lparr>cp_inner = \<lparr>px = Fin (1 - fa * 2), py = Fin 2\<rparr>,
        cp_outer = \<lparr>px = Fin (1 + fb * 2), py = Fin 2\<rparr>\<rparr>"
  using splineCurve_chord [of 1 2 0 0 2 0 "1 / 2"] by auto

end
