(* ===== verification/Chart_Canvas.thy ===== *)
theory Chart_Canvas
  imports Chart_Helpers Chart_Math
begin

section \<open>Canvas and DOM helpers\<close>

text \<open>
  Drawing is a list of canvas commands, appended in the order in which the source issues them;
  an assignment to a property of the context is the command \<open>SetP\<close>. Two facts of the canvas
  that the source reads back are derived from that list: the line width, whose setter ignores
  values that are not positive and finite, and the font used by \<open>measureText\<close>, whose widths come
  from the environment. Event listeners are kept per node as the list of registered pairs.
\<close>

named_theorems canvas_simps \<comment> \<open>appending commands and reading the context back\<close>

subsection \<open>Commands\<close>

datatype cmd =
    BeginPath
  | ClosePath
  | MoveTo jsnum jsnum
  | LineTo jsnum jsnum
  | QuadraticCurveTo jsnum jsnum jsnum jsnum
  | BezierCurveTo jsnum jsnum jsnum jsnum jsnum jsnum
  | ArcC jsnum jsnum jsnum jsnum jsnum bool
  | Fill
  | Stroke
  | ClearRect jsnum jsnum jsnum jsnum
  | FillRect jsnum jsnum jsnum jsnum
  | FillText jsval jsnum jsnum
  | Save
  | Restore
  | Translate jsnum jsnum
  | Rotate jsnum
  | ScaleC jsnum jsnum
  | SetP string jsval
  | SetSize jsnum jsnum \<comment> \<open>assigning the size of the canvas resets the context\<close>

text \<open>
  What the charts take from the browser and the language and what is not computed here: the
  width of a text in a font, the conversion of values and numbers to strings, \<open>toFixed\<close>, the
  result of a template on the properties of an object, and the pixel ratio of the display.
\<close>

record env =
  measureText :: "jsval \<Rightarrow> jsval \<Rightarrow> jsnum"
  to_str :: "jsval \<Rightarrow> string"
  num_str :: "jsnum \<Rightarrow> string"
  toFixed :: "jsnum \<Rightarrow> nat \<Rightarrow> string"
  tmpl :: "jsval \<Rightarrow> props \<Rightarrow> jsval"
  devicePixelRatio :: jsnum

text \<open>A display on which every character is eight pixels wide, for the examples.\<close>

definition example_env :: env where
  "example_env = \<lparr>measureText = (\<lambda>font text. case text of JStr s \<Rightarrow> Fin (8 * real (length s)) | _ \<Rightarrow> Fin 40),
     to_str = (\<lambda>v. ''12''), num_str = (\<lambda>n. ''0.5''), toFixed = (\<lambda>n k. ''10''),
     tmpl = (\<lambda>t ps. pget ps ''value''), devicePixelRatio = Fin 1\<rparr>"

text \<open>The line width after a sequence of commands, with the stack of saved states.\<close>

definition valid_width :: "jsval \<Rightarrow> bool" where
  "valid_width v = (is_fin (to_number v) \<and> 0 < to_number v)"

fun line_width_step :: "cmd \<Rightarrow> jsnum \<times> jsnum list \<Rightarrow> jsnum \<times> jsnum list" where
  "line_width_step (SetP p v) (w, st) = (if p = ''lineWidth'' \<and> valid_width v then to_number v else w, st)"
| "line_width_step Save (w, st) = (w, w # st)"
| "line_width_step Restore (w, st) = (case st of [] \<Rightarrow> (w, []) | u # st \<Rightarrow> (u, st))"
| "line_width_step (SetSize _ _) _ = (1, [])"
| "line_width_step _ s = s"

definition line_width :: "cmd list \<Rightarrow> jsnum" where
  "line_width cs = fst (fold line_width_step cs (1, []))"

subsection \<open>Events and nodes\<close>

text \<open>
  A node offers \<open>addEventListener\<close>, the older \<open>attachEvent\<close>, or neither; then the property
  named \<open>on\<close> plus the event type holds the only handler. A handler is known by its identity.
\<close>

datatype event_api = Standard | Attach | Property

record dom_node =
  api :: event_api
  listeners :: "(string \<times> nat) list"
  on_props :: "(string \<times> nat option) list" \<comment> \<open>\<open>None\<close> is \<open>noop\<close>\<close>

definition addEvent :: "dom_node \<Rightarrow> string \<Rightarrow> nat \<Rightarrow> dom_node" where
  "addEvent node eventType method =
     (case api node of
        Standard \<Rightarrow>
          if (eventType, method) \<in> set (listeners node) then node
          else node\<lparr>listeners := listeners node @ [(eventType, method)]\<rparr>
      | Attach \<Rightarrow> node\<lparr>listeners := listeners node @ [(''on'' @ eventType, method)]\<rparr>
      | Property \<Rightarrow> node\<lparr>on_props := AList.update (''on'' @ eventType) (Some method) (on_props node)\<rparr>)"

definition removeEvent :: "dom_node \<Rightarrow> string \<Rightarrow> nat \<Rightarrow> dom_node" where
  "removeEvent node eventType handler =
     (case api node of
        Standard \<Rightarrow> node\<lparr>listeners := remove1 (eventType, handler) (listeners node)\<rparr>
      | Attach \<Rightarrow> node\<lparr>listeners := remove1 (''on'' @ eventType, handler) (listeners node)\<rparr>
      | Property \<Rightarrow> node\<lparr>on_props := AList.update (''on'' @ eventType) None (on_props node)\<rparr>)"

text \<open>
  \<open>bindEvents\<close> wraps the handler in one closure per event name, whose identities are allocated
  from \<open>fresh\<close>, and remembers them in \<open>chartInstance.events\<close>; a name that occurs twice keeps
  the last closure.
\<close>

fun bind_loop :: "string list \<Rightarrow> nat \<Rightarrow> (string \<times> nat) list \<Rightarrow> dom_node \<Rightarrow> (string \<times> nat) list \<times> dom_node" where
  "bind_loop [] fresh events node = (events, node)"
| "bind_loop (e # es) fresh events node =
     bind_loop es (Suc fresh) (AList.update e fresh events) (addEvent node e fresh)"

definition bindEvents :: "(string \<times> nat) list option \<Rightarrow> string list \<Rightarrow> nat \<Rightarrow> dom_node \<Rightarrow>
    (string \<times> nat) list \<times> dom_node" where
  "bindEvents events arrayOfEvents fresh node =
     bind_loop arrayOfEvents fresh (case events of None \<Rightarrow> [] | Some es \<Rightarrow> es) node"

text \<open>\<open>each\<close> skips a chart that never bound an event.\<close>

definition unbindEvents :: "(string \<times> nat) list option \<Rightarrow> dom_node \<Rightarrow> dom_node" where
  "unbindEvents events node =
     (case events of
        None \<Rightarrow> node
      | Some es \<Rightarrow> fold (\<lambda>(eventName, handler) n. removeEvent n eventName handler) es node)"

subsection \<open>Mouse position, sizes and fonts\<close>

record mouse_event =
  ev_client :: "pt option" \<comment> \<open>\<open>clientX\<close> and \<open>clientY\<close> of the event itself\<close>
  ev_touches :: "pt list option"

record rect =
  rect_left :: jsnum
  rect_top :: jsnum

text \<open>An event with an empty \<open>touches\<close> list makes \<open>touches[0].clientX\<close> throw.\<close>

definition getRelativePosition :: "mouse_event option \<Rightarrow> mouse_event \<Rightarrow> rect \<Rightarrow> jserr + pt" where
  "getRelativePosition originalEvent evt boundingRect =
     (let e = (case originalEvent of Some o' \<Rightarrow> o' | None \<Rightarrow> evt)
      in case ev_touches e of
           Some [] \<Rightarrow> Inl TypeError
         | Some (t # ts) \<Rightarrow> Inr \<lparr>px = px t - rect_left boundingRect, py = py t - rect_top boundingRect\<rparr>
         | None \<Rightarrow>
             (case ev_client e of
                Some c \<Rightarrow> Inr \<lparr>px = px c - rect_left boundingRect, py = py c - rect_top boundingRect\<rparr>
              | None \<Rightarrow> Inr \<lparr>px = NaN, py = NaN\<rparr>))"

text \<open>The container of the canvas: \<open>parentNode.clientWidth\<close> and \<open>clientHeight\<close>.\<close>

record container =
  clientWidth :: jsnum
  clientHeight :: jsnum

definition getMaximumWidth :: "container \<Rightarrow> jsnum" where
  "getMaximumWidth parent = clientWidth parent"

definition getMaximumHeight :: "container \<Rightarrow> jsnum" where
  "getMaximumHeight parent = clientHeight parent"

text \<open>
  The canvas of a chart: its bitmap size, its size on the page once \<open>retinaScale\<close> has set it,
  and the commands issued so far.
\<close>

record canvas =
  cv_width :: jsnum
  cv_height :: jsnum
  css_size :: "(jsnum \<times> jsnum) option"
  cv_log :: "cmd list"

definition emit_cmds :: "cmd list \<Rightarrow> canvas \<Rightarrow> canvas" where
  "emit_cmds cs cv = cv\<lparr>cv_log := cv_log cv @ cs\<rparr>"

definition resize_canvas :: "jsnum \<Rightarrow> jsnum \<Rightarrow> canvas \<Rightarrow> canvas" where
  "resize_canvas w h cv = emit_cmds [SetSize w h] (cv\<lparr>cv_width := w, cv_height := h\<rparr>)"

definition retinaScale :: "env \<Rightarrow> canvas \<Rightarrow> canvas" where
  "retinaScale E cv =
     (let width = cv_width cv; height = cv_height cv; ratio = devicePixelRatio E
      in if num_truthy ratio
         then emit_cmds [ScaleC ratio ratio]
                (resize_canvas (width * ratio) (height * ratio)
                  (cv\<lparr>css_size := Some (width, height)\<rparr>))
         else cv)"

definition clear_chart :: "jsnum \<Rightarrow> jsnum \<Rightarrow> cmd list" where
  "clear_chart width height = [ClearRect 0 0 width height]"

definition fontString :: "env \<Rightarrow> jsval \<Rightarrow> jsval \<Rightarrow> jsval \<Rightarrow> jsval" where
  "fontString E pixelSize fontStyle fontFamily =
     JStr (to_str E fontStyle @ '' '' @ to_str E pixelSize @ ''px '' @ to_str E fontFamily)"

definition longestText :: "env \<Rightarrow> jsval \<Rightarrow> jsval list \<Rightarrow> jsnum" where
  "longestText E font arrayOfStrings =
     each_arr (\<lambda>string i longest. let textWidth = measureText E font string
                                  in if longest < textWidth then textWidth else longest) arrayOfStrings 0"

definition drawRoundedRectangle :: "jsnum \<Rightarrow> jsnum \<Rightarrow> jsnum \<Rightarrow> jsnum \<Rightarrow> jsnum \<Rightarrow> cmd list" where
  "drawRoundedRectangle x y width height radius =
    [BeginPath,
     MoveTo (x + radius) y,
     LineTo (x + width - radius) y,
     QuadraticCurveTo (x + width) y (x + width) (y + radius),
     LineTo (x + width) (y + height - radius),
     QuadraticCurveTo (x + width) (y + height) (x + width - radius) (y + height),
     LineTo (x + radius) (y + height),
     QuadraticCurveTo x (y + height) x (y + height - radius),
     LineTo x (y + radius),
     QuadraticCurveTo x y (x + radius) y,
     ClosePath]"

subsection \<open>Reading the context back\<close>

lemma line_width_snoc [canvas_simps]:
  assumes "c \<notin> {Save, Restore}"
  shows "line_width (cs @ [c]) = fst (line_width_step c (line_width cs, []))"
proof -
  obtain w st where "fold line_width_step cs (1, []) = (w, st)" by fastforce
  with assms show ?thesis by (cases c) (auto simp: line_width_def)
qed

lemma line_width_pos: "is_fin (line_width cs) \<and> 0 < line_width cs"
proof -
  have step: "(is_fin w \<and> 0 < w) \<and> (\<forall>u \<in> set st. is_fin u \<and> 0 < u) \<Longrightarrow>
      (\<lambda>(w, st). (is_fin w \<and> 0 < w) \<and> (\<forall>u \<in> set st. is_fin u \<and> 0 < u)) (line_width_step c (w, st))" for c w st
    by (cases c) (auto simp: valid_width_def split: list.splits)
  have "(is_fin w \<and> 0 < w) \<and> (\<forall>u \<in> set st. is_fin u \<and> 0 < u) \<Longrightarrow>
      (\<lambda>(w, st). (is_fin w \<and> 0 < w) \<and> (\<forall>u \<in> set st. is_fin u \<and> 0 < u)) (fold line_width_step cs (w, st))" for w st
  proof (induction cs arbitrary: w st)
    case (Cons c cs)
    then show ?case using step [of w st c] by (cases "line_width_step c (w, st)") simp
  qed simp
  from this [of 1 "[]"] show ?thesis by (auto simp: line_width_def split: prod.splits)
qed

lemma longestText_Fin:
  assumes "\<And>s. s \<in> set ss \<Longrightarrow> measureText E font s = Fin (w s)"
  shows "longestText E font ss = Fin (Max (insert 0 (w ` set ss)))"
  using assms
proof (induction ss rule: rev_induct)
  case (snoc s ss)
  have "Max (insert 0 (w ` set (ss @ [s]))) = max (w s) (Max (insert 0 (w ` set ss)))"
    by (simp add: insert_commute [of 0])
  moreover have "longestText E font ss = Fin (Max (insert 0 (w ` set ss)))"
    using snoc by simp
  moreover have "measureText E font s = Fin (w s)" using snoc.prems by simp
  ultimately show ?case
    by (simp add: longestText_def each_arr_append Let_def max_def not_less
        del: Max_insert Max_gr_iff Max_ge_iff Max_less_iff Max_le_iff)
qed (simp add: longestText_def each_arr_Nil)

subsection \<open>Binding and unbinding\<close>

text \<open>
  What the life cycle of a chart needs of event registration: what \<open>off\<close> removes is what \<open>on\<close>
  added, and registrations of other handlers stay.
\<close>

locale registration =
  fixes ok :: "'n \<Rightarrow> bool" and key :: "'e \<Rightarrow> 'k"
    and on :: "'n \<Rightarrow> 'e \<Rightarrow> 'h \<Rightarrow> 'n" and off :: "'n \<Rightarrow> 'e \<Rightarrow> 'h \<Rightarrow> 'n"
    and regs :: "'n \<Rightarrow> ('k \<times> 'h) list" and with_regs :: "'n \<Rightarrow> ('k \<times> 'h) list \<Rightarrow> 'n"
  assumes on_regs: "ok n \<Longrightarrow> (key e, h) \<notin> set (regs n) \<Longrightarrow> on n e h = with_regs n (regs n @ [(key e, h)])"
    and off_regs: "ok n \<Longrightarrow> off n e h = with_regs n (remove1 (key e, h) (regs n))"
    and ok_with: "ok (with_regs n rs) = ok n"
    and regs_with: "regs (with_regs n rs) = rs"
    and with_with: "with_regs (with_regs n rs) rs' = with_regs n rs'"
    and with_same: "with_regs n (regs n) = n"
begin

abbreviation keyed :: "('e \<times> 'h) list \<Rightarrow> ('k \<times> 'h) list" where
  "keyed rs \<equiv> map (\<lambda>(e, h). (key e, h)) rs"

lemma on_all:
  assumes "ok n" "distinct (map snd rs)" "snd ` set rs \<inter> snd ` set (regs n) = {}"
  shows "fold (\<lambda>(e, h) n. on n e h) rs n = with_regs n (regs n @ keyed rs)"
  using assms
proof (induction rs arbitrary: n)
  case (Cons r rs)
  obtain e h where r: "r = (e, h)" by (cases r)
  let ?n = "with_regs n (regs n @ [(key e, h)])"
  have "(key e, h) \<notin> set (regs n)" using Cons.prems(3) r by force
  then have "on n e h = ?n" using Cons.prems(1) by (rule on_regs [rotated])
  moreover have "fold (\<lambda>(e, h) n. on n e h) rs ?n = with_regs ?n (regs ?n @ keyed rs)"
    using Cons.prems r by (intro Cons.IH) (auto simp: ok_with regs_with)
  ultimately show ?case by (simp add: r regs_with with_with)
qed (simp add: with_same)

lemma off_all:
  assumes "ok n" "snd ` set rs \<inter> snd ` set us = {}"
  shows "fold (\<lambda>(e, h) n. off n e h) rs (with_regs n (us @ keyed rs)) = with_regs n us"
  using assms
proof (induction rs)
  case (Cons r rs)
  obtain e h where r: "r = (e, h)" by (cases r)
  have "(key e, h) \<notin> set us" using Cons.prems(2) r by force
  with Cons r show ?case by (simp add: off_regs ok_with regs_with with_with remove1_append)
qed simp

lemma off_on:
  assumes "ok n" "distinct (map snd rs)" "snd ` set rs \<inter> snd ` set (regs n) = {}"
  shows "fold (\<lambda>(e, h) n. off n e h) rs (fold (\<lambda>(e, h) n. on n e h) rs n) = n"
  using on_all [OF assms] off_all [OF assms(1), of rs "regs n"] assms(3) by (simp add: with_same)

end

interpretation std: registration "\<lambda>n. api n = Standard" "\<lambda>e. e" addEvent removeEvent listeners
    "\<lambda>n rs. n\<lparr>listeners := rs\<rparr>"
  by unfold_locales (simp_all add: addEvent_def removeEvent_def)

interpretation old: registration "\<lambda>n. api n = Attach" "\<lambda>e. ''on'' @ e" addEvent removeEvent listeners
    "\<lambda>n rs. n\<lparr>listeners := rs\<rparr>"
  by unfold_locales (simp_all add: addEvent_def removeEvent_def)

lemma bind_loop_distinct:
  assumes "distinct es" "set es \<inter> fst ` set events = {}"
  shows "bind_loop es fresh events node =
    (events @ zip es [fresh..<fresh + length es],
     fold (\<lambda>(e, h) n. addEvent n e h) (zip es [fresh..<fresh + length es]) node)"
  using assms
proof (induction es arbitrary: fresh events node)
  case (Cons e es)
  have up: "[fresh..<fresh + length (e # es)] = fresh # [Suc fresh..<Suc fresh + length es]"
    by (simp add: upt_conv_Cons del: upt_Suc)
  have "AList.update e fresh events = events @ [(e, fresh)]"
    using Cons.prems(2) by (simp add: update_fresh)
  moreover have "bind_loop es (Suc fresh) (events @ [(e, fresh)]) (addEvent node e fresh) =
    ((events @ [(e, fresh)]) @ zip es [Suc fresh..<Suc fresh + length es],
     fold (\<lambda>(e, h) n. addEvent n e h) (zip es [Suc fresh..<Suc fresh + length es]) (addEvent node e fresh))"
    using Cons.prems by (intro Cons.IH) auto
  ultimately show ?case unfolding up by simp
qed simp

text \<open>
  Unbinding the events of a chart removes exactly the listeners that binding them had added:
  with distinct event names and handlers that are new to the node, the node is afterwards as it
  was before, under both listener interfaces.
\<close>

theorem unbind_bind:
  assumes "distinct arrayOfEvents" "api node \<noteq> Property"
    and "\<forall>h \<in> snd ` set (listeners node). h < fresh"
  shows "unbindEvents (Some (fst (bindEvents None arrayOfEvents fresh node)))
           (snd (bindEvents None arrayOfEvents fresh node)) = node"
proof -
  let ?rs = "zip arrayOfEvents [fresh..<fresh + length arrayOfEvents]"
  have fresh: "distinct (map snd ?rs)" "snd ` set ?rs \<inter> snd ` set (listeners node) = {}"
    using assms(3) by (fastforce dest: set_zip_rightD)+
  have "bindEvents None arrayOfEvents fresh node = (?rs, fold (\<lambda>(e, h) n. addEvent n e h) ?rs node)"
    using bind_loop_distinct [OF assms(1), of "[]"] by (simp add: bindEvents_def)
  moreover have "fold (\<lambda>(e, h) n. removeEvent n e h) ?rs (fold (\<lambda>(e, h) n. addEvent n e h) ?rs node) = node"
    using assms(2) std.off_on [OF _ fresh] old.off_on [OF _ fresh] by (cases "api node") auto
  ultimately show ?thesis by (simp add: unbindEvents_def)
qed

theorem unbind_bind_witness:
  "unbindEvents (Some (fst (bindEvents None [''mousemove'', ''mouseout''] 7
       \<lparr>api = Attach, listeners = [(''onclick'', 3)], on_props = []\<rparr>)))
     (snd (bindEvents None [''mousemove'', ''mouseout''] 7
       \<lparr>api = Attach, listeners = [(''onclick'', 3)], on_props = []\<rparr>)) =
   \<lparr>api = Attach, listeners = [(''onclick'', 3)], on_props = []\<rparr>"
  by (rule unbind_bind) simp_all

end
