(* ===== verification/Chart_Easing.thy ===== *)
theory Chart_Easing
  imports JS_Values
begin

section \<open>Easing functions and the animation loop\<close>

text \<open>
  The easing equations of \<open>helpers.easingEffects\<close>, one definition per entry of the object, the
  object itself with the lookup that falls back to \<open>linear\<close>, and \<open>helpers.animationLoop\<close> as a
  machine over the queue of animation frames that the browser keeps. An assignment inside an
  expression (\<open>t /= 1 / 2\<close>) is a \<open>let\<close> at the place where it is evaluated; the constants are
  the decimal fractions written in the source.
\<close>

subsection \<open>The easing equations\<close>

definition linear :: "jsnum \<Rightarrow> jsnum" where
  "linear t = t"

definition easeInQuad :: "jsnum \<Rightarrow> jsnum" where
  "easeInQuad t = t * t"

definition easeOutQuad :: "jsnum \<Rightarrow> jsnum" where
  "easeOutQuad t = - 1 * t * (t - 2)"

definition easeInOutQuad :: "jsnum \<Rightarrow> jsnum" where
  "easeInOutQuad t =
     (let t = t / (1 / 2) in
      if t < 1 then 1 / 2 * t * t
      else (let t = t - 1 in - 1 / 2 * (t * (t - 2) - 1)))"

definition easeInCubic :: "jsnum \<Rightarrow> jsnum" where
  "easeInCubic t = t * t * t"

definition easeOutCubic :: "jsnum \<Rightarrow> jsnum" where
  "easeOutCubic t = 1 * (let t = t / 1 - 1 in t * t * t + 1)"

definition easeInOutCubic :: "jsnum \<Rightarrow> jsnum" where
  "easeInOutCubic t =
     (let t = t / (1 / 2) in
      if t < 1 then 1 / 2 * t * t * t
      else 1 / 2 * (let t = t - 2 in t * t * t + 2))"

definition easeInQuart :: "jsnum \<Rightarrow> jsnum" where
  "easeInQuart t = t * t * t * t"

definition easeOutQuart :: "jsnum \<Rightarrow> jsnum" where
  "easeOutQuart t = - 1 * (let t = t / 1 - 1 in t * t * t * t - 1)"

definition easeInOutQuart :: "jsnum \<Rightarrow> jsnum" where
  "easeInOutQuart t =
     (let t = t / (1 / 2) in
      if t < 1 then 1 / 2 * t * t * t * t
      else - 1 / 2 * (let t = t - 2 in t * t * t * t - 2))"

definition easeInQuint :: "jsnum \<Rightarrow> jsnum" where
  "easeInQuint t = (let t = t / 1 in 1 * t * t * t * t * t)"

definition easeOutQuint :: "jsnum \<Rightarrow> jsnum" where
  "easeOutQuint t = 1 * (let t = t / 1 - 1 in t * t * t * t * t + 1)"

definition easeInOutQuint :: "jsnum \<Rightarrow> jsnum" where
  "easeInOutQuint t =
     (let t = t / (1 / 2) in
      if t < 1 then 1 / 2 * t * t * t * t * t
      else 1 / 2 * (let t = t - 2 in t * t * t * t * t + 2))"

definition easeInSine :: "jsnum \<Rightarrow> jsnum" where
  "easeInSine t = - 1 * Math_cos (t / 1 * (Math_PI / 2)) + 1"

definition easeOutSine :: "jsnum \<Rightarrow> jsnum" where
  "easeOutSine t = 1 * Math_sin (t / 1 * (Math_PI / 2))"

definition easeInOutSine :: "jsnum \<Rightarrow> jsnum" where
  "easeInOutSine t = - 1 / 2 * (Math_cos (Math_PI * t / 1) - 1)"

definition easeInExpo :: "jsnum \<Rightarrow> jsnum" where
  "easeInExpo t = (if num_eq t 0 then 1 else 1 * Math_pow 2 (10 * (t / 1 - 1)))"

definition easeOutExpo :: "jsnum \<Rightarrow> jsnum" where
  "easeOutExpo t = (if num_eq t 1 then 1 else 1 * (- Math_pow 2 (- 10 * t / 1) + 1))"

definition easeInOutExpo :: "jsnum \<Rightarrow> jsnum" where
  "easeInOutExpo t =
     (if num_eq t 0 then 0
      else if num_eq t 1 then 1
      else (let t = t / (1 / 2) in
        if t < 1 then 1 / 2 * Math_pow 2 (10 * (t - 1))
        else (let t = t - 1 in 1 / 2 * (- Math_pow 2 (- 10 * t) + 2))))"

definition easeInCirc :: "jsnum \<Rightarrow> jsnum" where
  "easeInCirc t =
     (if 1 \<le> t then t
      else - 1 * (let t = t / 1 in Math_sqrt (1 - t * t) - 1))"

definition easeOutCirc :: "jsnum \<Rightarrow> jsnum" where
  "easeOutCirc t = 1 * (let t = t / 1 - 1 in Math_sqrt (1 - t * t))"

definition easeInOutCirc :: "jsnum \<Rightarrow> jsnum" where
  "easeInOutCirc t =
     (let t = t / (1 / 2) in
      if t < 1 then - 1 / 2 * (Math_sqrt (1 - t * t) - 1)
      else 1 / 2 * (let t = t - 2 in Math_sqrt (1 - t * t) + 1))"

text \<open>
  The three elastic equations start with \<open>p = 0\<close> and \<open>a = 1\<close>; \<open>elastic_shift\<close> is their common
  choice of \<open>a\<close> and \<open>s\<close> for a period \<open>p\<close>.
\<close>

definition elastic_shift :: "jsnum \<Rightarrow> jsnum \<Rightarrow> jsnum \<times> jsnum" where
  "elastic_shift p a =
     (if a < Math_abs 1 then (1, p / 4)
      else (a, p / (2 * Math_PI) * Math_asin (1 / a)))"

definition easeInElastic :: "jsnum \<Rightarrow> jsnum" where
  "easeInElastic t =
     (let p = Fin 0; a = Fin 1
      in if num_eq t 0 then 0
         else (let t = t / 1 in
           if num_eq t 1 then 1
           else (let p = (if \<not> num_truthy p then 1 * Fin 0.3 else p);
                     (a, s) = elastic_shift p a;
                     t = t - 1
                 in - (a * Math_pow 2 (10 * t) * Math_sin ((t * 1 - s) * (2 * Math_PI) / p)))))"

definition easeOutElastic :: "jsnum \<Rightarrow> jsnum" where
  "easeOutElastic t =
     (let p = Fin 0; a = Fin 1
      in if num_eq t 0 then 0
         else (let t = t / 1 in
           if num_eq t 1 then 1
           else (let p = (if \<not> num_truthy p then 1 * Fin 0.3 else p);
                     (a, s) = elastic_shift p a
                 in a * Math_pow 2 (- 10 * t) * Math_sin ((t * 1 - s) * (2 * Math_PI) / p) + 1)))"

definition easeInOutElastic :: "jsnum \<Rightarrow> jsnum" where
  "easeInOutElastic t =
     (let p = Fin 0; a = Fin 1
      in if num_eq t 0 then 0
         else (let t = t / (1 / 2) in
           if num_eq t 2 then 1
           else (let p = (if \<not> num_truthy p then 1 * (Fin 0.3 * Fin 1.5) else p);
                     (a, s) = elastic_shift p a
                 in if t < 1
                    then (let t = t - 1 in
                      - Fin 0.5 * (a * Math_pow 2 (10 * t) * Math_sin ((t * 1 - s) * (2 * Math_PI) / p)))
                    else (let t = t - 1 in
                      a * Math_pow 2 (- 10 * t) * Math_sin ((t * 1 - s) * (2 * Math_PI) / p) * Fin 0.5 + 1))))"

definition easeInBack :: "jsnum \<Rightarrow> jsnum" where
  "easeInBack t = (let s = Fin 1.70158; t = t / 1 in 1 * t * t * ((s + 1) * t - s))"

definition easeOutBack :: "jsnum \<Rightarrow> jsnum" where
  "easeOutBack t = (let s = Fin 1.70158; t = t / 1 - 1 in 1 * (t * t * ((s + 1) * t + s) + 1))"

definition easeInOutBack :: "jsnum \<Rightarrow> jsnum" where
  "easeInOutBack t =
     (let s = Fin 1.70158; t = t / (1 / 2) in
      if t < 1 then (let s' = s * Fin 1.525 in 1 / 2 * (t * t * ((s' + 1) * t - s')))
      else (let t = t - 2; s' = s * Fin 1.525 in 1 / 2 * (t * t * ((s' + 1) * t + s') + 2)))"

definition easeOutBounce :: "jsnum \<Rightarrow> jsnum" where
  "easeOutBounce t =
     (let t = t / 1 in
      if t < 1 / Fin 2.75 then 1 * (Fin 7.5625 * t * t)
      else if t < 2 / Fin 2.75 then
        (let t = t - Fin 1.5 / Fin 2.75 in 1 * (Fin 7.5625 * t * t + Fin 0.75))
      else if t < Fin 2.5 / Fin 2.75 then
        (let t = t - Fin 2.25 / Fin 2.75 in 1 * (Fin 7.5625 * t * t + Fin 0.9375))
      else (let t = t - Fin 2.625 / Fin 2.75 in 1 * (Fin 7.5625 * t * t + Fin 0.984375)))"

definition easeInBounce :: "jsnum \<Rightarrow> jsnum" where
  "easeInBounce t = 1 - easeOutBounce (1 - t)"

definition easeInOutBounce :: "jsnum \<Rightarrow> jsnum" where
  "easeInOutBounce t =
     (if t < 1 / 2 then easeInBounce (t * 2) * Fin 0.5
      else easeOutBounce (t * 2 - 1) * Fin 0.5 + 1 * Fin 0.5)"

text \<open>The object \<open>easingEffects\<close>, its entries in the order of the source.\<close>

definition easingEffects :: "(string \<times> (jsnum \<Rightarrow> jsnum)) list" where
  "easingEffects =
    [(''linear'', linear),
     (''easeInQuad'', easeInQuad),
     (''easeOutQuad'', easeOutQuad),
     (''easeInOutQuad'', easeInOutQuad),
     (''easeInCubic'', easeInCubic),
     (''easeOutCubic'', easeOutCubic),
     (''easeInOutCubic'', easeInOutCubic),
     (''easeInQuart'', easeInQuart),
     (''easeOutQuart'', easeOutQuart),
     (''easeInOutQuart'', easeInOutQuart),
     (''easeInQuint'', easeInQuint),
     (''easeOutQuint'', easeOutQuint),
     (''easeInOutQuint'', easeInOutQuint),
     (''easeInSine'', easeInSine),
     (''easeOutSine'', easeOutSine),
     (''easeInOutSine'', easeInOutSine),
     (''easeInExpo'', easeInExpo),
     (''easeOutExpo'', easeOutExpo),
     (''easeInOutExpo'', easeInOutExpo),
     (''easeInCirc'', easeInCirc),
     (''easeOutCirc'', easeOutCirc),
     (''easeInOutCirc'', easeInOutCirc),
     (''easeInElastic'', easeInElastic),
     (''easeOutElastic'', easeOutElastic),
     (''easeInOutElastic'', easeInOutElastic),
     (''easeInBack'', easeInBack),
     (''easeOutBack'', easeOutBack),
     (''easeInOutBack'', easeInOutBack),
     (''easeInBounce'', easeInBounce),
     (''easeOutBounce'', easeOutBounce),
     (''easeInOutBounce'', easeInOutBounce)]"

definition easingFunction :: "string \<Rightarrow> jsnum \<Rightarrow> jsnum" where
  "easingFunction easingString =
     (case map_of easingEffects easingString of Some f \<Rightarrow> f | None \<Rightarrow> linear)"

lemmas easing_defs =
  linear_def easeInQuad_def easeOutQuad_def easeInOutQuad_def easeInCubic_def easeOutCubic_def
  easeInOutCubic_def easeInQuart_def easeOutQuart_def easeInOutQuart_def easeInQuint_def
  easeOutQuint_def easeInOutQuint_def easeInSine_def easeOutSine_def easeInOutSine_def
  easeInExpo_def easeOutExpo_def easeInOutExpo_def easeInCirc_def easeOutCirc_def
  easeInOutCirc_def elastic_shift_def easeInElastic_def easeOutElastic_def
  easeInOutElastic_def easeInBack_def easeOutBack_def easeInOutBack_def easeOutBounce_def
  easeInBounce_def easeInOutBounce_def

subsection \<open>End points and finiteness\<close>

lemma square_in_unit: "\<bar>x\<bar> \<le> 1 \<Longrightarrow> x * x \<le> (1 :: real)"
  using abs_square_le_1 [of x] by (simp add: power2_eq_square)

lemma easing_at_1: "f \<in> snd ` set easingEffects \<Longrightarrow> f (Fin 1) = Fin 1"
  by (auto simp: easingEffects_def easing_defs Let_def pow_real_def)

lemma easing_at_0:
  "(n, f) \<in> set easingEffects \<Longrightarrow> f (Fin 0) = (if n = ''easeInExpo'' then Fin 1 else Fin 0)"
  by (auto simp: easingEffects_def easing_defs Let_def pow_real_def)

lemma easing_finite:
  assumes "f \<in> snd ` set easingEffects" "0 \<le> x" "x \<le> 1"
  shows "is_fin (f (Fin x))"
proof -
  have circ: "is_fin (easeInCirc (Fin x))" "is_fin (easeOutCirc (Fin x))"
    using assms(2,3) square_in_unit [of x] square_in_unit [of "x - 1"]
    by (auto simp: easeInCirc_def easeOutCirc_def)
  have circ2: "is_fin (easeInOutCirc (Fin x))"
    using assms(2,3) square_in_unit [of "2 * x"] square_in_unit [of "2 * x - 2"]
    by (cases "x < 1 / 2") (auto simp: easeInOutCirc_def Let_def algebra_simps)
  show ?thesis
    using assms(1)
    unfolding easingEffects_def list.set image_insert image_empty snd_conv insert_iff empty_iff
    by (elim disjE FalseE; ((simp only: circ circ2; fail) | simp add: easing_defs Let_def pow_real_def))
qed

lemma easingFunction_in: "easingFunction n \<in> snd ` set easingEffects"
proof (cases "map_of easingEffects n")
  case None
  moreover have "linear \<in> snd ` set easingEffects" by (simp add: easingEffects_def)
  ultimately show ?thesis by (simp add: easingFunction_def)
next
  case (Some f)
  then have "(n, f) \<in> set easingEffects" by (rule map_of_SomeD)
  then show ?thesis using Some by (force simp: easingFunction_def)
qed

text \<open>
  The contract under which the charts use an easing function: finite on the unit interval, and
  1 at time 1, so that an animation ends in the target state. Every string selects a function
  that keeps it, because an unknown name selects \<open>linear\<close>.
\<close>

locale easing_curve =
  fixes ease :: "jsnum \<Rightarrow> jsnum"
  assumes ends: "ease (Fin 1) = Fin 1"
    and finite_curve: "0 \<le> x \<Longrightarrow> x \<le> 1 \<Longrightarrow> is_fin (ease (Fin x))"
begin

lemma last_step: "0 < n \<Longrightarrow> ease (Fin (real n) / Fin (real n)) = Fin 1"
  by (simp add: ends)

lemma step_finite: "0 < n \<Longrightarrow> k \<le> n \<Longrightarrow> is_fin (ease (Fin (real k) / Fin (real n)))"
  by (simp add: finite_curve)

end

interpretation effect: easing_curve "easingFunction n" for n
  by unfold_locales (simp_all add: easing_at_1 easing_finite easingFunction_in)

subsection \<open>Families\<close>

text \<open>
  In the families below the ease-out curve is the ease-in curve played backwards, and the
  ease-in-out curve is the one followed by the other at double speed and half height.
\<close>

definition families :: "((jsnum \<Rightarrow> jsnum) \<times> (jsnum \<Rightarrow> jsnum) \<times> (jsnum \<Rightarrow> jsnum)) list" where
  "families =
    [(easeInQuad, easeOutQuad, easeInOutQuad), (easeInCubic, easeOutCubic, easeInOutCubic),
     (easeInQuart, easeOutQuart, easeInOutQuart), (easeInQuint, easeOutQuint, easeInOutQuint),
     (easeInSine, easeOutSine, easeInOutSine), (easeInCirc, easeOutCirc, easeInOutCirc),
     (easeInBounce, easeOutBounce, easeInOutBounce)]"

lemma polynomial_mirror:
  "easeOutQuad (Fin x) = 1 - easeInQuad (1 - Fin x)"
  "easeOutCubic (Fin x) = 1 - easeInCubic (1 - Fin x)"
  "easeOutQuart (Fin x) = 1 - easeInQuart (1 - Fin x)"
  "easeOutQuint (Fin x) = 1 - easeInQuint (1 - Fin x)"
  by (simp_all add: easing_defs Let_def algebra_simps)

lemma polynomial_glue:
  "easeInOutQuad (Fin x) =
     (if x < 1 / 2 then easeInQuad (2 * Fin x) / 2 else 1 / 2 + easeOutQuad (2 * Fin x - 1) / 2)"
  "easeInOutCubic (Fin x) =
     (if x < 1 / 2 then easeInCubic (2 * Fin x) / 2 else 1 / 2 + easeOutCubic (2 * Fin x - 1) / 2)"
  "easeInOutQuart (Fin x) =
     (if x < 1 / 2 then easeInQuart (2 * Fin x) / 2 else 1 / 2 + easeOutQuart (2 * Fin x - 1) / 2)"
  "easeInOutQuint (Fin x) =
     (if x < 1 / 2 then easeInQuint (2 * Fin x) / 2 else 1 / 2 + easeOutQuint (2 * Fin x - 1) / 2)"
  by (simp_all add: easing_defs Let_def field_simps)

lemma sine_mirror: "easeOutSine (Fin x) = 1 - easeInSine (1 - Fin x)"
  by (simp add: easing_defs cos_diff algebra_simps diff_divide_distrib)

lemma sine_glue:
  "easeInOutSine (Fin x) =
     (if x < 1 / 2 then easeInSine (2 * Fin x) / 2 else 1 / 2 + easeOutSine (2 * Fin x - 1) / 2)"
proof -
  have "sin ((2 * x - 1) * (pi / 2)) = sin (pi * x - pi / 2)"
    by (simp add: algebra_simps)
  also have "\<dots> = - cos (pi * x)" by (simp add: sin_diff)
  finally show ?thesis by (simp add: easing_defs field_simps)
qed

lemma circ_mirror: "0 \<le> x \<Longrightarrow> x \<le> 1 \<Longrightarrow> easeOutCirc (Fin x) = 1 - easeInCirc (1 - Fin x)"
  using square_in_unit [of "x - 1"]
  by (cases "x = 0") (auto simp: easing_defs algebra_simps)

lemma circ_glue:
  assumes "0 \<le> x" "x \<le> 1"
  shows "easeInOutCirc (Fin x) =
     (if x < 1 / 2 then easeInCirc (2 * Fin x) / 2 else 1 / 2 + easeOutCirc (2 * Fin x - 1) / 2)"
  using assms square_in_unit [of "2 * x"] square_in_unit [of "2 * x - 2"]
  by (auto simp: easing_defs Let_def algebra_simps add_divide_distrib)

lemma bounce_mirror: "easeOutBounce (Fin x) = 1 - easeInBounce (1 - Fin x)"
  by (simp add: easing_defs Let_def)

lemma bounce_glue:
  "easeInOutBounce (Fin x) =
     (if x < 1 / 2 then easeInBounce (2 * Fin x) / 2 else 1 / 2 + easeOutBounce (2 * Fin x - 1) / 2)"
proof -
  have "easeInOutBounce (Fin x) =
     (if x < 1 / 2 then easeInBounce (Fin (2 * x)) * Fin (1 / 2)
      else easeOutBounce (Fin (2 * x - 1)) * Fin (1 / 2) + Fin (1 / 2))"
    by (simp add: easeInOutBounce_def mult.commute)
  moreover have "is_fin (easeOutBounce (Fin y))" for y
    by (simp add: easeOutBounce_def Let_def)
  then have "\<exists>z. easeOutBounce (Fin y) = Fin z" for y by blast
  then obtain z z' where "easeOutBounce (Fin (1 - 2 * x)) = Fin z"
      "easeOutBounce (Fin (2 * x - 1)) = Fin z'"
    by metis
  ultimately show ?thesis
    by (simp add: easeInBounce_def)
qed

lemma family_laws:
  assumes "(easeIn, easeOut, easeInOut) \<in> set families" "0 \<le> x" "x \<le> 1"
  shows "easeOut (Fin x) = 1 - easeIn (1 - Fin x) \<and>
     easeInOut (Fin x) =
       (if x < 1 / 2 then easeIn (2 * Fin x) / 2 else 1 / 2 + easeOut (2 * Fin x - 1) / 2)"
proof -
  note laws = polynomial_mirror polynomial_glue sine_mirror sine_glue
    circ_mirror [OF assms(2,3)] circ_glue [OF assms(2,3)] bounce_mirror bounce_glue
  show ?thesis
    using assms(1) unfolding families_def list.set insert_iff empty_iff prod.inject
    by (elim disjE conjE FalseE) (simp_all only: laws simp_thms)
qed

subsection \<open>Range\<close>

text \<open>All but the overshooting curves stay between start and target.\<close>

fun in_unit :: "jsnum \<Rightarrow> bool" where
  "in_unit (Fin y) = (0 \<le> y \<and> y \<le> 1)"
| "in_unit _ = False"

lemma in_unit_mirror: "in_unit y \<Longrightarrow> in_unit (1 - y)"
  by (cases y) simp_all

lemma in_unit_halves: "in_unit y \<Longrightarrow> in_unit (y / 2) \<and> in_unit (1 / 2 + y / 2)"
  by (cases y) simp_all

lemma easeIn_range:
  assumes "0 \<le> x" "x \<le> 1"
  shows "in_unit (easeInQuad (Fin x))" "in_unit (easeInCubic (Fin x))"
    "in_unit (easeInQuart (Fin x))" "in_unit (easeInQuint (Fin x))"
    "in_unit (easeInSine (Fin x))" "in_unit (easeInCirc (Fin x))"
proof -
  have powers: "0 \<le> x * x" "x * x \<le> 1" "0 \<le> x * x * x" "x * x * x \<le> 1"
    "0 \<le> x * x * x * x" "x * x * x * x \<le> 1" "0 \<le> x * x * x * x * x" "x * x * x * x * x \<le> 1"
    using assms by (auto intro: mult_le_one)
  show "in_unit (easeInQuad (Fin x))" "in_unit (easeInCubic (Fin x))"
    "in_unit (easeInQuart (Fin x))" "in_unit (easeInQuint (Fin x))"
    using powers by (simp_all add: easeInQuad_def easeInCubic_def easeInQuart_def easeInQuint_def)
  have "0 \<le> cos (x * (pi / 2))"
    using assms mult_left_le_one_le [of "pi / 2" x]
    by (intro cos_ge_zero) (auto intro: order_trans [of _ 0])
  then show "in_unit (easeInSine (Fin x))" by (simp add: easeInSine_def)
  show "in_unit (easeInCirc (Fin x))"
    using powers(1,2) assms(2) by (simp add: easeInCirc_def real_sqrt_le_1_iff)
qed

lemma easeOutBounce_range:
  assumes "0 \<le> x" "x \<le> 1"
  shows "in_unit (easeOutBounce (Fin x))"
proof -
  have piece: "\<bar>u\<bar> \<le> r \<Longrightarrow> 0 \<le> c \<Longrightarrow> r * r + c \<le> 1 \<Longrightarrow> 0 \<le> u * u + c \<and> u * u + c \<le> 1"
    for u r c :: real
    using abs_le_square_iff [of u r] by (simp add: power2_eq_square)
  have scale: "in_unit (Fin (121 / 16 * (t * t) + c))"
    if "\<bar>11 / 4 * t\<bar> \<le> r" "0 \<le> c" "r * r + c \<le> 1" for t r c :: real
    using piece [OF that] by (simp add: algebra_simps)
  consider "x < 4 / 11" | "4 / 11 \<le> x" "x < 8 / 11" | "8 / 11 \<le> x" "x < 10 / 11" | "10 / 11 \<le> x"
    by linarith
  then show ?thesis
  proof cases
    case 1
    then have "easeOutBounce (Fin x) = Fin (121 / 16 * (x * x) + 0)"
      by (simp add: easeOutBounce_def)
    then show ?thesis using 1 assms scale [of x 1 0] by simp
  next
    case 2
    then have "easeOutBounce (Fin x) = Fin (121 / 16 * ((x - 6 / 11) * (x - 6 / 11)) + 3 / 4)"
      by (simp add: easeOutBounce_def Let_def)
    then show ?thesis using 2 scale [of "x - 6 / 11" "1 / 2" "3 / 4"] by (simp add: abs_le_iff)
  next
    case 3
    then have "easeOutBounce (Fin x) = Fin (121 / 16 * ((x - 9 / 11) * (x - 9 / 11)) + 15 / 16)"
      by (simp add: easeOutBounce_def Let_def)
    then show ?thesis using 3 scale [of "x - 9 / 11" "1 / 4" "15 / 16"] by (simp add: abs_le_iff)
  next
    case 4
    then have "easeOutBounce (Fin x) = Fin (121 / 16 * ((x - 21 / 22) * (x - 21 / 22)) + 63 / 64)"
      by (simp add: easeOutBounce_def Let_def)
    moreover have "\<bar>11 / 4 * (x - 21 / 22)\<bar> \<le> 1 / 8"
      unfolding abs_le_iff using 4 assms by (simp add: field_simps)
    ultimately show ?thesis using scale [of "x - 21 / 22" "1 / 8" "63 / 64"] by simp
  qed
qed

lemma family_range:
  assumes "(easeIn, easeOut, easeInOut) \<in> set families" "0 \<le> x" "x \<le> 1"
    and "\<And>y. 0 \<le> y \<Longrightarrow> y \<le> 1 \<Longrightarrow> in_unit (easeIn (Fin y))"
  shows "in_unit (easeOut (Fin x)) \<and> in_unit (easeInOut (Fin x))"
proof -
  have out: "in_unit (easeOut (Fin y))" if "0 \<le> y" "y \<le> 1" for y
  proof -
    have "easeOut (Fin y) = 1 - easeIn (Fin (1 - y))"
      using family_laws [OF assms(1) that] by simp
    with that show ?thesis using in_unit_mirror assms(4) [of "1 - y"] by simp
  qed
  have "in_unit (easeInOut (Fin x))"
  proof (cases "x < 1 / 2")
    case True
    then have "easeInOut (Fin x) = easeIn (Fin (2 * x)) / 2"
      using family_laws [OF assms(1-3)] by simp
    with True assms(2) show ?thesis
      using in_unit_halves [OF assms(4) [of "2 * x"]] by simp
  next
    case False
    then have "easeInOut (Fin x) = 1 / 2 + easeOut (Fin (2 * x - 1)) / 2"
      using family_laws [OF assms(1-3)] by simp
    with False assms(3) show ?thesis
      using in_unit_halves [OF out [of "2 * x - 1"]] by simp
  qed
  with out assms(2,3) show ?thesis by blast
qed

lemma expo_range:
  assumes "0 \<le> x" "x \<le> 1"
  shows "in_unit (easeInExpo (Fin x))" "in_unit (easeOutExpo (Fin x))" "in_unit (easeInOutExpo (Fin x))"
proof -
  have le: "y \<le> 0 \<Longrightarrow> (2 :: real) powr y \<le> 1" for y
    using powr_mono [of y 0 2] by simp
  show "in_unit (easeInExpo (Fin x))" "in_unit (easeOutExpo (Fin x))"
    using assms by (auto simp: easeInExpo_def easeOutExpo_def pow_pos le simp del: Math_pow.simps)
  show "in_unit (easeInOutExpo (Fin x))"
    using assms le [of "20 * x - 10"] le [of "10 - 20 * x"]
    by (cases "x < 1 / 2")
       (auto simp: easeInOutExpo_def Let_def pow_pos algebra_simps simp del: Math_pow.simps)
qed

lemma easeIn_bounce_range: "0 \<le> y \<Longrightarrow> y \<le> 1 \<Longrightarrow> in_unit (easeInBounce (Fin y))"
  using in_unit_mirror [OF easeOutBounce_range [of "1 - y"]] by (simp add: easeInBounce_def)

lemma families_range:
  assumes "0 \<le> x" "x \<le> 1"
  shows "in_unit (easeOutQuad (Fin x)) \<and> in_unit (easeInOutQuad (Fin x))"
    "in_unit (easeOutCubic (Fin x)) \<and> in_unit (easeInOutCubic (Fin x))"
    "in_unit (easeOutQuart (Fin x)) \<and> in_unit (easeInOutQuart (Fin x))"
    "in_unit (easeOutQuint (Fin x)) \<and> in_unit (easeInOutQuint (Fin x))"
    "in_unit (easeOutSine (Fin x)) \<and> in_unit (easeInOutSine (Fin x))"
    "in_unit (easeOutCirc (Fin x)) \<and> in_unit (easeInOutCirc (Fin x))"
    "in_unit (easeOutBounce (Fin x)) \<and> in_unit (easeInOutBounce (Fin x))"
proof -
  show "in_unit (easeOutQuad (Fin x)) \<and> in_unit (easeInOutQuad (Fin x))"
    by (rule family_range [of easeInQuad, OF _ assms]) (simp_all add: families_def easeIn_range)
  show "in_unit (easeOutCubic (Fin x)) \<and> in_unit (easeInOutCubic (Fin x))"
    by (rule family_range [of easeInCubic, OF _ assms]) (simp_all add: families_def easeIn_range)
  show "in_unit (easeOutQuart (Fin x)) \<and> in_unit (easeInOutQuart (Fin x))"
    by (rule family_range [of easeInQuart, OF _ assms]) (simp_all add: families_def easeIn_range)
  show "in_unit (easeOutQuint (Fin x)) \<and> in_unit (easeInOutQuint (Fin x))"
    by (rule family_range [of easeInQuint, OF _ assms]) (simp_all add: families_def easeIn_range)
  show "in_unit (easeOutSine (Fin x)) \<and> in_unit (easeInOutSine (Fin x))"
    by (rule family_range [of easeInSine, OF _ assms]) (simp_all add: families_def easeIn_range)
  show "in_unit (easeOutCirc (Fin x)) \<and> in_unit (easeInOutCirc (Fin x))"
    by (rule family_range [of easeInCirc, OF _ assms]) (simp_all add: families_def easeIn_range)
  show "in_unit (easeOutBounce (Fin x)) \<and> in_unit (easeInOutBounce (Fin x))"
    by (rule family_range [of easeInBounce, OF _ assms]) (simp_all add: families_def easeIn_bounce_range)
qed

text \<open>
  In the quadratic, cubic, quartic, quintic, sine, circular and bounce families the
  ease-out function is the ease-in function mirrored in time and value, and the ease-in-out
  function glues the two together at time one half.
\<close>

theorem easing_family_laws:
  assumes "(easeIn, easeOut, easeInOut) \<in> set families" "0 \<le> x" "x \<le> 1"
  shows "easeOut (Fin x) = 1 - easeIn (1 - Fin x) \<and>
     easeInOut (Fin x) =
       (if x < 1 / 2 then easeIn (2 * Fin x) / 2 else 1 / 2 + easeOut (2 * Fin x - 1) / 2)"
  using assms by (rule family_laws)

theorem easing_family_laws_witness:
  "easeOutCirc (Fin (1 / 4)) = 1 - easeInCirc (1 - Fin (1 / 4)) \<and>
   easeInOutCirc (Fin (1 / 4)) =
     (if (1 / 4 :: real) < 1 / 2 then easeInCirc (2 * Fin (1 / 4)) / 2
      else 1 / 2 + easeOutCirc (2 * Fin (1 / 4) - 1) / 2)"
  by (rule easing_family_laws [of easeInCirc easeOutCirc easeInOutCirc]) (simp_all add: families_def)


definition overshooting :: "string list" where
  "overshooting = [''easeInElastic'', ''easeOutElastic'', ''easeInOutElastic'',
     ''easeInBack'', ''easeOutBack'', ''easeInOutBack'']"

lemma calm_range:
  assumes "(name, f) \<in> set easingEffects" "name \<notin> set overshooting" "0 \<le> x" "x \<le> 1"
  shows "in_unit (f (Fin x))"
proof -
  note ranges = easeIn_range [OF assms(3,4)] easeIn_bounce_range [OF assms(3,4)]
    expo_range [OF assms(3,4)] families_range [OF assms(3,4)]
  show ?thesis
    using assms(1,2) unfolding easingEffects_def list.set insert_iff empty_iff prod.inject
    by (elim disjE conjE FalseE; simp add: ranges linear_def assms(3,4) overshooting_def)
qed

lemma easingFunction_calm:
  assumes "name \<notin> set overshooting" "0 \<le> x" "x \<le> 1"
  shows "in_unit (easingFunction name (Fin x))"
proof (cases "map_of easingEffects name")
  case None
  then show ?thesis using assms by (simp add: easingFunction_def linear_def)
next
  case (Some f)
  from map_of_SomeD [OF this] have "in_unit (f (Fin x))" using assms by (rule calm_range)
  with Some show ?thesis by (simp add: easingFunction_def)
qed

text \<open>
  Every easing effect ends at 1 and, except \<open>easeInExpo\<close>, which starts at 1, starts at 0; the
  effects other than the elastic and the back ones never leave the interval from 0 to 1.
\<close>

theorem easing_effects_range:
  assumes "(name, f) \<in> set easingEffects" "0 \<le> x" "x \<le> 1"
  shows "f (Fin 0) = (if name = ''easeInExpo'' then Fin 1 else Fin 0) \<and> f (Fin 1) = Fin 1 \<and>
    (name \<notin> set overshooting \<longrightarrow> in_unit (f (Fin x)))"
proof -
  have "f \<in> snd ` set easingEffects" using assms(1) by force
  then show ?thesis using easing_at_0 [OF assms(1)] easing_at_1 calm_range [OF assms(1) _ assms(2,3)] by blast
qed

theorem easing_effects_range_witness:
  "easeInSine (Fin 0) = Fin 0 \<and> easeInSine (Fin 1) = Fin 1 \<and> in_unit (easeInSine (Fin (1 / 3)))"
  using easing_effects_range [of "''easeInSine''" easeInSine "1 / 3"]
  by (simp add: easingEffects_def overshooting_def)

end
