(* ===== verification/Chart_Element.thy ===== *)
theory Chart_Element
  imports Chart_Canvas Chart_Easing
begin

section \<open>Chart elements: points, arcs and rectangles\<close>

text \<open>
  \<open>Chart.Element\<close> and the classes \<open>Point\<close>, \<open>Arc\<close> and \<open>Rectangle\<close>. An element is its own
  properties, those of its class (the prototype chain), and the snapshot \<open>_saved\<close>. The animated
  properties are read as numbers. \<open>save_is_clone\<close> and \<open>put_all_is_extend\<close> tie the copying done
  here to \<open>helpers.clone\<close> and \<open>helpers.extend\<close>.
\<close>

named_theorems element_simps \<comment> \<open>reading a property of an element after an operation\<close>

subsection \<open>\<open>Chart.Element\<close>\<close>

record element =
  el_own :: props
  el_proto :: props
  el_saved :: props \<comment> \<open>\<open>this._saved\<close>\<close>

definition eget :: "element \<Rightarrow> string \<Rightarrow> jsval" where
  "eget e k = (if has_own (el_own e) k then pget (el_own e) k else pget (el_proto e) k)"

abbreviation enum :: "element \<Rightarrow> string \<Rightarrow> jsnum" where
  "enum e k \<equiv> to_number (eget e k)"

definition eset :: "string \<Rightarrow> jsval \<Rightarrow> element \<Rightarrow> element" where
  "eset k v e = e\<lparr>el_own := pset k v (el_own e)\<rparr>"

definition put_all :: "props \<Rightarrow> props \<Rightarrow> props" where
  "put_all src base = fold (\<lambda>(k, v). pset k v) src base"

definition save :: "element \<Rightarrow> element" where
  "save e = e\<lparr>el_saved := el_own e\<rparr>"

text \<open>\<open>new Chart.Element(configuration)\<close> for the classes whose \<open>initialize\<close> is empty.\<close>

definition new_element :: "props \<Rightarrow> props \<Rightarrow> element" where
  "new_element cls configuration =
     save \<lparr>el_own = put_all configuration [], el_proto = cls, el_saved = []\<rparr>"

definition restore :: "element \<Rightarrow> element" where
  "restore e = e\<lparr>el_own := put_all (el_saved e) (el_own e)\<rparr>"

definition restore_keys :: "string list \<Rightarrow> element \<Rightarrow> element" where
  "restore_keys props e = fold (\<lambda>key e. eset key (pget (el_saved e) key) e) props e"

definition update1 :: "string \<Rightarrow> jsval \<Rightarrow> element \<Rightarrow> element" where
  "update1 key value e = eset key value (e\<lparr>el_saved := pset key (eget e key) (el_saved e)\<rparr>)"

definition update :: "props \<Rightarrow> element \<Rightarrow> element" where
  "update newProps e = fold (\<lambda>(key, value). update1 key value) newProps e"

definition transition1 :: "jsnum \<Rightarrow> string \<Rightarrow> jsval \<Rightarrow> element \<Rightarrow> element" where
  "transition1 ease key value e =
     eset key (JNum (((to_number value - nget (el_saved e) key) * ease) + nget (el_saved e) key)) e"

definition transition :: "props \<Rightarrow> jsnum \<Rightarrow> element \<Rightarrow> element" where
  "transition props ease e = fold (\<lambda>(key, value). transition1 ease key value) props e"

definition tooltipPosition :: "element \<Rightarrow> pt" where
  "tooltipPosition e = \<lparr>px = enum e ''x'', py = enum e ''y''\<rparr>"

definition hasValue :: "element \<Rightarrow> bool" where
  "hasValue e = isNumber (eget e ''value'')"

subsection \<open>\<open>Chart.Point\<close>\<close>

definition point_inRange :: "element \<Rightarrow> jsnum \<Rightarrow> jsnum \<Rightarrow> bool" where
  "point_inRange e chartX chartY =
     (let hitDetectionRange = enum e ''hitDetectionRadius'' + enum e ''radius''
      in Math_pow (chartX - enum e ''x'') 2 + Math_pow (chartY - enum e ''y'') 2 < Math_pow hitDetectionRange 2)"

definition point_draw :: "element \<Rightarrow> cmd list" where
  "point_draw e =
     (if truthy (eget e ''display'') then
        [BeginPath,
         ArcC (enum e ''x'') (enum e ''y'') (enum e ''radius'') 0 (Math_PI * 2) False,
         ClosePath,
         SetP ''strokeStyle'' (eget e ''strokeColor''),
         SetP ''lineWidth'' (eget e ''strokeWidth''),
         SetP ''fillStyle'' (eget e ''fillColor''),
         Fill,
         Stroke]
      else [])"

subsection \<open>\<open>Chart.Arc\<close>\<close>

definition arc_inRange :: "element \<Rightarrow> jsnum \<Rightarrow> jsnum \<Rightarrow> bool" where
  "arc_inRange e chartX chartY =
     (let pointRelativePosition =
            getAngleFromPoint \<lparr>px = enum e ''x'', py = enum e ''y''\<rparr> \<lparr>px = chartX, py = chartY\<rparr>;
          betweenAngles = (enum e ''startAngle'' \<le> angle pointRelativePosition \<and>
                           angle pointRelativePosition \<le> enum e ''endAngle'');
          withinRadius = (enum e ''innerRadius'' \<le> distance pointRelativePosition \<and>
                          distance pointRelativePosition \<le> enum e ''outerRadius'')
      in betweenAngles \<and> withinRadius)"

definition arc_tooltipPosition :: "element \<Rightarrow> pt" where
  "arc_tooltipPosition e =
     (let centreAngle = enum e ''startAngle'' + ((enum e ''endAngle'' - enum e ''startAngle'') / 2);
          rangeFromCentre = (enum e ''outerRadius'' - enum e ''innerRadius'') / 2 + enum e ''innerRadius''
      in \<lparr>px = enum e ''x'' + (Math_cos centreAngle * rangeFromCentre),
          py = enum e ''y'' + (Math_sin centreAngle * rangeFromCentre)\<rparr>)"

definition arc_draw :: "element \<Rightarrow> cmd list" where
  "arc_draw e =
     [BeginPath,
      ArcC (enum e ''x'') (enum e ''y'') (enum e ''outerRadius'') (enum e ''startAngle'') (enum e ''endAngle'') False,
      ArcC (enum e ''x'') (enum e ''y'') (enum e ''innerRadius'') (enum e ''endAngle'') (enum e ''startAngle'') True,
      ClosePath,
      SetP ''strokeStyle'' (eget e ''strokeColor''),
      SetP ''lineWidth'' (eget e ''strokeWidth''),
      SetP ''fillStyle'' (eget e ''fillColor''),
      Fill,
      SetP ''lineJoin'' (JStr ''bevel'')]
     @ (if truthy (eget e ''showStroke'') then [Stroke] else [])"

subsection \<open>\<open>Chart.Rectangle\<close>\<close>

definition rect_draw :: "element \<Rightarrow> cmd list" where
  "rect_draw e =
     (let halfWidth = enum e ''width'' / 2;
          leftX = enum e ''x'' - halfWidth;
          rightX = enum e ''x'' + halfWidth;
          topY = enum e ''base'' - (enum e ''base'' - enum e ''y'');
          halfStroke = enum e ''strokeWidth'' / 2;
          (leftX, rightX, topY) =
            (if truthy (eget e ''showStroke'') then (leftX + halfStroke, rightX - halfStroke, topY + halfStroke)
             else (leftX, rightX, topY))
      in [BeginPath,
          SetP ''fillStyle'' (eget e ''fillColor''),
          SetP ''strokeStyle'' (eget e ''strokeColor''),
          SetP ''lineWidth'' (eget e ''strokeWidth''),
          MoveTo leftX (enum e ''base''),
          LineTo leftX topY,
          LineTo rightX topY,
          LineTo rightX (enum e ''base''),
          Fill]
         @ (if truthy (eget e ''showStroke'') then [Stroke] else []))"

definition rect_height :: "element \<Rightarrow> jsnum" where
  "rect_height e = enum e ''base'' - enum e ''y''"

definition rect_inRange :: "element \<Rightarrow> jsnum \<Rightarrow> jsnum \<Rightarrow> bool" where
  "rect_inRange e chartX chartY =
     ((enum e ''x'' - enum e ''width'' / 2 \<le> chartX \<and> chartX \<le> enum e ''x'' + enum e ''width'' / 2) \<and>
      (enum e ''y'' \<le> chartY \<and> chartY \<le> enum e ''base''))"

subsection \<open>Reading properties back\<close>

lemma eget_eset [simp, element_simps]: "eget (eset k v e) k' = (if k' = k then v else eget e k')"
  by (simp add: eget_def eset_def)

lemma eset_fields [simp, element_simps]:
  "el_saved (eset k v e) = el_saved e" "el_proto (eset k v e) = el_proto e"
  "has_own (el_own (eset k v e)) k' = (k' = k \<or> has_own (el_own e) k')"
  by (simp_all add: eset_def)

lemma has_own_Cons [simp]: "has_own ((k, v) # ps) k' = (k' = k \<or> has_own ps k')"
  by (auto simp: has_own_def)

lemma has_own_Nil [simp]: "\<not> has_own [] k"
  by (simp add: has_own_def)

lemma eget_with_saved [simp, element_simps]: "eget (e\<lparr>el_saved := s\<rparr>) k = eget e k"
  by (simp add: eget_def)

lemma pget_put_all [simp]:
  "wf_props src \<Longrightarrow> pget (put_all src base) k = (if has_own src k then pget src k else pget base k)"
  unfolding put_all_def
proof (induction src arbitrary: base)
  case (Cons p src)
  then show ?case by (cases p) (auto simp: has_own_keys)
qed simp

lemma has_own_put_all [simp]: "has_own (put_all src base) k = (has_own src k \<or> has_own base k)"
  unfolding put_all_def
proof (induction src arbitrary: base)
  case (Cons p src)
  then show ?case by (cases p) auto
qed simp

lemma wf_put_all [simp]: "wf_props (put_all src base) = wf_props base"
  unfolding put_all_def
proof (induction src arbitrary: base)
  case (Cons p src)
  then show ?case by (cases p) simp
qed simp

lemma new_element_simps [simp, element_simps]:
  "wf_props cfg \<Longrightarrow> eget (new_element cls cfg) k = (if has_own cfg k then pget cfg k else pget cls k)"
  "el_saved (new_element cls cfg) = el_own (new_element cls cfg)"
  by (simp_all add: new_element_def save_def eget_def)

lemma save_simps [simp, element_simps]: "eget (save e) k = eget e k" "el_saved (save e) = el_own e" "el_own (save e) = el_own e"
  by (simp_all add: save_def eget_def)

lemma new_element_own [simp]: "wf_props cfg \<Longrightarrow> pget (el_own (new_element cls cfg)) k = (if has_own cfg k then pget cfg k else JUndef)"
  by (simp add: new_element_def)

lemma has_own_new_element [simp]: "has_own (el_own (new_element cls cfg)) k = has_own cfg k"
  by (simp add: new_element_def has_own_def save_def flip: has_own_def)

lemma eget_restore_keys [simp, element_simps]:
  "eget (restore_keys ks e) k = (if k \<in> set ks then pget (el_saved e) k else eget e k)"
  unfolding restore_keys_def by (induction ks arbitrary: e) auto

lemma eget_restore [simp, element_simps]:
  "wf_props (el_saved e) \<Longrightarrow>
     eget (restore e) k = (if has_own (el_saved e) k then pget (el_saved e) k else eget e k)"
  by (simp add: restore_def eget_def)

lemma update1_simps [element_simps]:
  "eget (update1 key value e) k = (if k = key then value else eget e k)"
  "pget (el_saved (update1 key value e)) k = (if k = key then eget e key else pget (el_saved e) k)"
  by (simp_all add: update1_def)

lemma update_simps [simp, element_simps]:
  assumes "wf_props np"
  shows "eget (update np e) k = (if has_own np k then pget np k else eget e k)"
    and "pget (el_saved (update np e)) k = (if has_own np k then eget e k else pget (el_saved e) k)"
  using assms unfolding update_def
proof (induction np arbitrary: e)
  case (Cons p np)
  { case 1
    then show ?case using Cons.IH(1) [of "update1 (fst p) (snd p) e"]
      by (cases p) (auto simp: update1_simps has_own_keys)
  next
    case 2
    then show ?case using Cons.IH(2) [of "update1 (fst p) (snd p) e"]
      by (cases p) (auto simp: update1_simps has_own_keys) }
qed simp_all

lemma transition_saved [simp, element_simps]: "el_saved (transition ps z e) = el_saved e"
  unfolding transition_def by (induction ps arbitrary: e) (auto simp: transition1_def)

lemma eget_transition [simp, element_simps]:
  "wf_props ps \<Longrightarrow> eget (transition ps z e) k =
     (if has_own ps k
      then JNum (((nget ps k - nget (el_saved e) k) * z) + nget (el_saved e) k) else eget e k)"
  unfolding transition_def
proof (induction ps arbitrary: e)
  case (Cons p ps)
  then show ?case by (cases p) (auto simp: transition1_def has_own_keys)
qed simp

text \<open>The end of a transition, where the easing decimal is 1.\<close>

lemma transition_end: "is_fin b \<Longrightarrow> (Fin x - b) * 1 + b = Fin x"
  by (cases b) simp_all

subsection \<open>Snapshots\<close>

text \<open>\<open>save\<close> is what \<open>helpers.clone\<close> returns, and \<open>put_all\<close> is \<open>helpers.extend\<close>.\<close>

lemma save_is_clone:
  assumes "plain_obj \<lparr>own = el_own e, inherited = el_proto e\<rparr>" "wf_props (el_own e)"
  shows "clone \<lparr>own = el_own e, inherited = el_proto e\<rparr> = Some (el_saved (save e))"
  using clone_plain [of "\<lparr>own = el_own e, inherited = el_proto e\<rparr>"] assms by simp

lemma put_all_is_extend:
  assumes "plain_obj \<lparr>own = src, inherited = []\<rparr>" "wf_props src"
  shows "extend_obj base [Some \<lparr>own = src, inherited = []\<rparr>] = Some (put_all src base)"
proof -
  let ?ob = "\<lparr>own = src, inherited = []\<rparr>"
  have its: "map (\<lambda>k. (oget ?ob k, k)) (for_in ?ob) = map (\<lambda>(k, v). (v, k)) src"
    using assms(2) by (auto simp: for_in_def oget_def has_own_def pget_def map_of_eq_Some_iff)
  have "copy_own ?ob (map (\<lambda>(k, v). (v, k)) src) base = put_all src base"
  proof -
    have "set zs \<subseteq> set src \<Longrightarrow>
        fold (\<lambda>(v, k) acc. if has_own src k then pset k v acc else acc) (map (\<lambda>(k, v). (v, k)) zs) base =
        fold (\<lambda>(k, v). pset k v) zs base" for zs
    proof (induction zs arbitrary: base)
      case (Cons z zs)
      then show ?case by (cases z) (force simp: has_own_keys)
    qed simp
    then show ?thesis by (simp add: copy_own_def put_all_def)
  qed
  with assms(1) show ?thesis by (simp add: extend1_def each_obj_plain its)
qed

text \<open>
  Snapshots: restoring the keys of an update undoes it, so every property reads as before;
  and restoring after \<open>save\<close> undoes any later assignments to properties the element had.
\<close>

theorem snapshot_roundtrip:
  assumes "wf_props newProps" "wf_props (el_own e)"
  shows "(\<forall>k. eget (restore_keys (map fst newProps) (update newProps e)) k = eget e k) \<and>
    (\<forall>k. has_own (el_own e) k \<longrightarrow>
       eget (restore (fold (\<lambda>(k, v). eset k v) assignments (save e))) k = eget e k)"
proof -
  have saved: "el_saved (fold (\<lambda>(k, v). eset k v) as f) = el_saved f" for as f
    by (induction as arbitrary: f) auto
  have keys: "k \<in> fst ` set newProps \<longleftrightarrow> has_own newProps k" for k
    by (simp add: has_own_keys)
  show ?thesis
    using assms by (auto simp: saved keys) (simp add: eget_def)
qed

theorem snapshot_roundtrip_witness:
  "eget (restore_keys [''fillColor''] (update [(''fillColor'', JStr ''red'')]
     \<lparr>el_own = [(''fillColor'', JStr ''blue'')], el_proto = [], el_saved = []\<rparr>)) ''fillColor'' = JStr ''blue''"
  using snapshot_roundtrip [of "[(''fillColor'', JStr ''red'')]"
      "\<lparr>el_own = [(''fillColor'', JStr ''blue'')], el_proto = [], el_saved = []\<rparr>"]
  by (simp add: eget_def)

subsection \<open>Animation of properties\<close>

text \<open>
  A transition interpolates between the saved and the new value of each animated property:
  it is the saved value at 0, the new value when the easing function has reached the end of the
  animation, never outside the two in between for the effects that do not overshoot, and the
  other properties keep their values.
\<close>

theorem transition_animates:
  assumes "wf_props props" "pget props k = JNum (Fin v)" "nget (el_saved e) k = Fin s"
  shows "eget (transition props 0 e) k = JNum (Fin s) \<and>
    eget (transition props (easingFunction effect (Fin 1)) e) k = JNum (Fin v) \<and>
    (effect \<notin> set overshooting \<and> 0 \<le> x \<and> x \<le> 1 \<longrightarrow>
       (\<exists>y. eget (transition props (easingFunction effect (Fin x)) e) k = JNum (Fin y) \<and>
            min s v \<le> y \<and> y \<le> max s v)) \<and>
    (\<forall>k'. \<not> has_own props k' \<longrightarrow>
       eget (transition props (easingFunction effect (Fin x)) e) k' = eget e k')"
proof -
  have own: "has_own props k"
    using assms(2) by (auto simp: has_own_def pget_def split: option.splits)
  have step: "eget (transition props (Fin y) e) k = JNum (Fin (v * y + s * (1 - y)))" for y
    using assms own by (simp add: algebra_simps)
  have between: "min s v \<le> v * y + s * (1 - y) \<and> v * y + s * (1 - y) \<le> max s v"
    if "0 \<le> y" "y \<le> 1" for y
  proof -
    have "min s v * y + min s v * (1 - y) \<le> v * y + s * (1 - y)"
      "v * y + s * (1 - y) \<le> max s v * y + max s v * (1 - y)"
      using that by (intro add_mono mult_right_mono; simp)+
    then show ?thesis by (simp add: algebra_simps)
  qed
  have "\<exists>y. easingFunction effect (Fin x) = Fin y \<and> 0 \<le> y \<and> y \<le> 1"
    if "effect \<notin> set overshooting" "0 \<le> x" "x \<le> 1"
    using easingFunction_calm [OF that] by (cases "easingFunction effect (Fin x)") auto
  with between step show ?thesis
    using assms(1) step [of 0] step [of 1] by (auto simp: effect.ends simp del: eget_transition) (simp add: assms(1))
qed

theorem transition_animates_witness:
  "eget (transition [(''y'', JNum (Fin 40))] (easingFunction ''easeOutQuart'' (Fin 1))
     (save \<lparr>el_own = [(''y'', JNum (Fin 100))], el_proto = [], el_saved = []\<rparr>)) ''y'' = JNum (Fin 40)"
  using transition_animates [of "[(''y'', JNum (Fin 40))]" "''y''" 40
      "save \<lparr>el_own = [(''y'', JNum (Fin 100))], el_proto = [], el_saved = []\<rparr>" 100]
  by (simp del: eget_transition)

subsection \<open>Hit tests\<close>

lemma square_num: "Math_pow (Fin a) 2 = Fin (a\<^sup>2)"
  using pow_nat [of a "num.Bit0 num.One"] by simp

text \<open>
  A point is hit exactly at the positions closer to its centre than its radius enlarged by
  the hit detection radius.
\<close>

theorem point_inRange_disc:
  assumes "enum e ''x'' = Fin cx" "enum e ''y'' = Fin cy"
    and "enum e ''radius'' = Fin r" "enum e ''hitDetectionRadius'' = Fin h" "0 \<le> h + r"
  shows "point_inRange e (Fin x) (Fin y) \<longleftrightarrow> sqrt ((x - cx)\<^sup>2 + (y - cy)\<^sup>2) < h + r"
proof -
  have "point_inRange e (Fin x) (Fin y) \<longleftrightarrow> (x - cx)\<^sup>2 + (y - cy)\<^sup>2 < (h + r)\<^sup>2"
    using assms by (simp add: point_inRange_def square_num del: Math_pow.simps numeral_Fin)
  also have "\<dots> \<longleftrightarrow> sqrt ((x - cx)\<^sup>2 + (y - cy)\<^sup>2) < sqrt ((h + r)\<^sup>2)"
    by (simp only: real_sqrt_less_iff)
  finally show ?thesis using assms(5) by simp
qed

theorem point_inRange_disc_witness:
  "point_inRange \<lparr>el_own = [(''x'', JNum (Fin 0)), (''y'', JNum (Fin 0)), (''radius'', JNum (Fin 4)),
       (''hitDetectionRadius'', JNum (Fin 20))], el_proto = [], el_saved = []\<rparr> (Fin 3) (Fin 4) \<longleftrightarrow>
   sqrt ((3 - 0)\<^sup>2 + (4 - 0)\<^sup>2) < 20 + (4 :: real)"
  by (rule point_inRange_disc) (simp_all add: eget_def)

lemma arc_inRange_polar:
  assumes "enum e ''x'' = Fin cx" "enum e ''y'' = Fin cy"
    and "enum e ''startAngle'' = Fin s" "enum e ''endAngle'' = Fin t"
    and "enum e ''innerRadius'' = Fin i" "enum e ''outerRadius'' = Fin u"
    and "0 < d" "3 * pi / 2 \<le> a" "a < 7 * pi / 2"
  shows "arc_inRange e (Fin (cx + d * cos a)) (Fin (cy + d * sin a)) \<longleftrightarrow>
    s \<le> a \<and> a \<le> t \<and> i \<le> d \<and> d \<le> u"
  using assms(1-6) getAngle_of_polar [OF assms(7-9), of cx cy]
  by (simp add: arc_inRange_def del: Math_atan2.simps)

text \<open>
  The tooltip of an arc points into the arc: for an arc within the turn that starts at
  twelve o'clock, with a positive outer radius not smaller than the inner one, the tooltip
  position is a position at which the arc is hit.
\<close>

theorem arc_tooltip_inside:
  assumes "enum e ''x'' = Fin cx" "enum e ''y'' = Fin cy"
    and "enum e ''startAngle'' = Fin s" "enum e ''endAngle'' = Fin t"
    and "enum e ''innerRadius'' = Fin i" "enum e ''outerRadius'' = Fin u"
    and "3 * pi / 2 \<le> s" "s < t" "t \<le> 7 * pi / 2" "0 \<le> i" "i \<le> u" "0 < u"
  shows "arc_inRange e (px (arc_tooltipPosition e)) (py (arc_tooltipPosition e))"
proof -
  let ?d = "(u - i) / 2 + i" and ?a = "s + (t - s) / 2"
  have "arc_tooltipPosition e = \<lparr>px = Fin (cx + ?d * cos ?a), py = Fin (cy + ?d * sin ?a)\<rparr>"
    using assms(1-6) by (simp add: arc_tooltipPosition_def mult.commute)
  moreover have "3 * pi / 2 \<le> ?a" "?a < 7 * pi / 2" "s \<le> ?a" "?a \<le> t" "i \<le> ?d" "?d \<le> u" "0 < ?d"
    using assms(7-12) by (simp_all add: field_simps)
  ultimately show ?thesis
    using arc_inRange_polar [OF assms(1-6), of ?d ?a] by simp
qed

theorem arc_tooltip_inside_witness:
  "arc_inRange (new_element [] [(''x'', JNum 0), (''y'', JNum 0), (''startAngle'', JNum (Fin (2 * pi))),
        (''endAngle'', JNum (Fin (3 * pi))), (''innerRadius'', JNum 1), (''outerRadius'', JNum 3)])
     (px (arc_tooltipPosition (new_element [] [(''x'', JNum 0), (''y'', JNum 0), (''startAngle'', JNum (Fin (2 * pi))),
        (''endAngle'', JNum (Fin (3 * pi))), (''innerRadius'', JNum 1), (''outerRadius'', JNum 3)])))
     (py (arc_tooltipPosition (new_element [] [(''x'', JNum 0), (''y'', JNum 0), (''startAngle'', JNum (Fin (2 * pi))),
        (''endAngle'', JNum (Fin (3 * pi))), (''innerRadius'', JNum 1), (''outerRadius'', JNum 3)])))"
  by (rule arc_tooltip_inside [of _ 0 0 "2 * pi" "3 * pi" 1 3]) simp_all

text \<open>
  A bar without a stroke is hit exactly inside the rectangle that is drawn for it.
\<close>

theorem rect_hit_is_drawn:
  assumes "enum e ''x'' = Fin cx" "enum e ''y'' = Fin y" "enum e ''base'' = Fin b" "enum e ''width'' = Fin w"
    and "\<not> truthy (eget e ''showStroke'')"
  shows "\<exists>l r t. filter (\<lambda>c. c \<noteq> BeginPath \<and> c \<noteq> Fill \<and> (\<forall>p v. c \<noteq> SetP p v)) (rect_draw e) =
      [MoveTo (Fin l) (Fin b), LineTo (Fin l) (Fin t), LineTo (Fin r) (Fin t), LineTo (Fin r) (Fin b)] \<and>
    (\<forall>mx my. rect_inRange e (Fin mx) (Fin my) \<longleftrightarrow> l \<le> mx \<and> mx \<le> r \<and> t \<le> my \<and> my \<le> b)"
  using assms
  by (rule_tac x = "cx - w / 2" in exI, rule_tac x = "cx + w / 2" in exI, rule_tac x = y in exI)
     (simp add: rect_draw_def rect_inRange_def Let_def)

theorem rect_hit_is_drawn_witness:
  "\<exists>l r t. \<forall>mx my. rect_inRange (new_element [] [(''x'', JNum 50), (''y'', JNum 10), (''base'', JNum 90), (''width'', JNum 8)])
     (Fin mx) (Fin my) \<longleftrightarrow> l \<le> mx \<and> mx \<le> r \<and> t \<le> my \<and> my \<le> 90"
  using rect_hit_is_drawn [of "new_element [] [(''x'', JNum 50), (''y'', JNum 10), (''base'', JNum 90), (''width'', JNum 8)]" 50 10 90 8]
  by (simp (no_asm_use)) blast

end
