(* ===== verification/Chart_Tooltip.thy ===== *)
theory Chart_Tooltip
  imports Chart_Element
begin

section \<open>Tooltips\<close>

text \<open>
  \<open>Chart.Tooltip\<close>, the single tooltip, and \<open>Chart.MultiTooltip\<close>, the one that lists a value per
  dataset. The properties come from the literal that \<open>showTooltip\<close> passes; the chart's size and
  the text widths are arguments. \<open>xAlign\<close> and \<open>yAlign\<close> are values of a datatype instead of the
  strings of the source.
\<close>

subsection \<open>\<open>Chart.Tooltip\<close>\<close>

datatype x_align = XCenter | XLeft | XRight

datatype y_align = YAbove | YBelow

definition caretPadding :: jsnum where
  "caretPadding = 2"

definition tooltipWidth :: "env \<Rightarrow> element \<Rightarrow> jsnum" where
  "tooltipWidth E e =
     measureText E (fontString E (eget e ''fontSize'') (eget e ''fontStyle'') (eget e ''fontFamily'')) (eget e ''text'')
       + 2 * enum e ''xPadding''"

definition tooltipRectHeight :: "element \<Rightarrow> jsnum" where
  "tooltipRectHeight e = enum e ''fontSize'' + 2 * enum e ''yPadding''"

definition tooltipHeight :: "element \<Rightarrow> jsnum" where
  "tooltipHeight e = tooltipRectHeight e + enum e ''caretHeight'' + caretPadding"

definition xAlign :: "env \<Rightarrow> jsnum \<Rightarrow> element \<Rightarrow> x_align" where
  "xAlign E chartWidth e =
     (if chartWidth < enum e ''x'' + tooltipWidth E e / 2 then XLeft
      else if enum e ''x'' - tooltipWidth E e / 2 < 0 then XRight
      else XCenter)"

definition yAlign :: "element \<Rightarrow> y_align" where
  "yAlign e = (if enum e ''y'' - tooltipHeight e < 0 then YBelow else YAbove)"

definition tooltipX :: "env \<Rightarrow> jsnum \<Rightarrow> element \<Rightarrow> jsnum" where
  "tooltipX E chartWidth e =
     (case xAlign E chartWidth e of
        XCenter \<Rightarrow> enum e ''x'' - tooltipWidth E e / 2
      | XLeft \<Rightarrow> enum e ''x'' - tooltipWidth E e + (enum e ''cornerRadius'' + enum e ''caretHeight'')
      | XRight \<Rightarrow> enum e ''x'' - (enum e ''cornerRadius'' + enum e ''caretHeight''))"

definition tooltipY :: "element \<Rightarrow> jsnum" where
  "tooltipY e =
     (case yAlign e of
        YAbove \<Rightarrow> enum e ''y'' - tooltipHeight e
      | YBelow \<Rightarrow> enum e ''y'' + caretPadding + enum e ''caretHeight'')"

definition tooltip_caret :: "element \<Rightarrow> cmd list" where
  "tooltip_caret e =
     (let x = enum e ''x''; y = enum e ''y''; caretHeight = enum e ''caretHeight''
      in case yAlign e of
        YAbove \<Rightarrow>
          [BeginPath,
           MoveTo x (y - caretPadding),
           LineTo (x + caretHeight) (y - (caretPadding + caretHeight)),
           LineTo (x - caretHeight) (y - (caretPadding + caretHeight)),
           ClosePath,
           Fill]
      | YBelow \<Rightarrow>
          [BeginPath,
           MoveTo x (y + caretPadding),
           LineTo (x + caretHeight) (y + caretPadding + caretHeight),
           LineTo (x - caretHeight) (y + caretPadding + caretHeight),
           ClosePath,
           Fill])"

definition tooltip_draw :: "env \<Rightarrow> jsnum \<Rightarrow> element \<Rightarrow> cmd list" where
  "tooltip_draw E chartWidth e =
     [SetP ''font'' (fontString E (eget e ''fontSize'') (eget e ''fontStyle'') (eget e ''fontFamily'')),
      SetP ''fillStyle'' (eget e ''fillColor'')]
     @ tooltip_caret e
     @ drawRoundedRectangle (tooltipX E chartWidth e) (tooltipY e) (tooltipWidth E e) (tooltipRectHeight e)
         (enum e ''cornerRadius'')
     @ [Fill,
        SetP ''fillStyle'' (eget e ''textColor''),
        SetP ''textAlign'' (JStr ''center''),
        SetP ''textBaseline'' (JStr ''middle''),
        FillText (eget e ''text'') (tooltipX E chartWidth e + tooltipWidth E e / 2)
          (tooltipY e + tooltipRectHeight e / 2)]"

subsection \<open>\<open>Chart.MultiTooltip\<close>\<close>

record multi_tooltip =
  m_el :: element
  m_labels :: "jsval list"
  m_colors :: "(jsval \<times> jsval) list" \<comment> \<open>\<open>fill\<close> and \<open>stroke\<close> of \<open>legendColors\<close>\<close>

definition multi_height :: "element \<Rightarrow> jsval list \<Rightarrow> jsnum" where
  "multi_height e labels =
     (let n = Fin (real (length labels)); fontSize = enum e ''fontSize''
      in (n * fontSize) + ((n - 1) * (fontSize / 2)) + (enum e ''yPadding'' * 2)
         + enum e ''titleFontSize'' * Fin 1.5)"

definition multi_width :: "env \<Rightarrow> element \<Rightarrow> jsval list \<Rightarrow> jsnum" where
  "multi_width E e labels =
     (let font = fontString E (eget e ''fontSize'') (eget e ''fontStyle'') (eget e ''fontFamily'');
          titleFont = fontString E (eget e ''titleFontSize'') (eget e ''titleFontStyle'') (eget e ''titleFontFamily'');
          titleWidth = measureText E titleFont (eget e ''title'');
          labelWidth = longestText E font labels + enum e ''fontSize'' + 3;
          longestTextWidth = js_max [JNum labelWidth, JNum titleWidth]
      in longestTextWidth + (enum e ''xPadding'' * 2))"

definition multi_y :: "jsnum \<Rightarrow> jsnum \<Rightarrow> jsnum \<Rightarrow> jsnum" where
  "multi_y chartHeight height y =
     (let halfHeight = height / 2
      in if y - halfHeight < 0 then halfHeight
         else if chartHeight < y + halfHeight then chartHeight - halfHeight
         else y)"

definition multi_x :: "jsnum \<Rightarrow> jsnum \<Rightarrow> jsnum \<Rightarrow> jsnum \<Rightarrow> jsnum" where
  "multi_x chartWidth xOffset width x =
     (if chartWidth / 2 < x then x - (xOffset + width) else x + xOffset)"

definition multi_initialize :: "env \<Rightarrow> jsnum \<Rightarrow> jsnum \<Rightarrow> multi_tooltip \<Rightarrow> multi_tooltip" where
  "multi_initialize E chartWidth chartHeight m =
     (let e = m_el m;
          font = fontString E (eget e ''fontSize'') (eget e ''fontStyle'') (eget e ''fontFamily'');
          titleFont = fontString E (eget e ''titleFontSize'') (eget e ''titleFontStyle'') (eget e ''titleFontFamily'');
          height = multi_height e (m_labels m);
          width = multi_width E e (m_labels m);
          y = multi_y chartHeight height (enum e ''y'');
          x = multi_x chartWidth (enum e ''xOffset'') width (enum e ''x'')
      in m\<lparr>m_el := eset ''x'' (JNum x) (eset ''y'' (JNum y) (eset ''width'' (JNum width)
             (eset ''height'' (JNum height) (eset ''titleFont'' titleFont (eset ''font'' font e)))))\<rparr>)"

definition getLineHeight :: "element \<Rightarrow> nat \<Rightarrow> jsnum" where
  "getLineHeight e index =
     (let baseLineHeight = enum e ''y'' - (enum e ''height'' / 2) + enum e ''yPadding'';
          afterTitleIndex = Fin (real index) - 1;
          fontSize = enum e ''fontSize''; titleFontSize = enum e ''titleFontSize''
      in if index = 0 then baseLineHeight + titleFontSize / 2
         else baseLineHeight + ((fontSize * Fin 1.5 * afterTitleIndex) + fontSize / 2) + titleFontSize * Fin 1.5)"

text \<open>A missing entry of \<open>legendColors\<close> throws; \<open>showTooltip\<close> passes one per label.\<close>

fun multi_labels :: "element \<Rightarrow> (jsval \<times> jsval) list \<Rightarrow> nat \<Rightarrow> jsval list \<Rightarrow> jserr + cmd list" where
  "multi_labels e colors index [] = Inr []"
| "multi_labels e colors index (label # labels) =
     (let x = enum e ''x'' + enum e ''xPadding''; fontSize = enum e ''fontSize'';
          y = getLineHeight e (index + 1)
      in case idx colors index of
           None \<Rightarrow> Inl TypeError
         | Some (fill, stroke) \<Rightarrow>
             (case multi_labels e colors (Suc index) labels of
                Inl err \<Rightarrow> Inl err
              | Inr rest \<Rightarrow> Inr
                 ([SetP ''fillStyle'' (eget e ''textColor''),
                   FillText label (x + fontSize + 3) y,
                   SetP ''fillStyle'' (eget e ''legendColorBackground''),
                   FillRect x (y - fontSize / 2) fontSize fontSize,
                   SetP ''fillStyle'' fill,
                   FillRect x (y - fontSize / 2) fontSize fontSize] @ rest)))"

definition multi_draw :: "multi_tooltip \<Rightarrow> jserr + cmd list" where
  "multi_draw m =
     (let e = m_el m
      in case multi_labels e (m_colors m) 0 (m_labels m) of
           Inl err \<Rightarrow> Inl err
         | Inr labels \<Rightarrow> Inr
            (drawRoundedRectangle (enum e ''x'') (enum e ''y'' - enum e ''height'' / 2) (enum e ''width'')
               (enum e ''height'') (enum e ''cornerRadius'')
             @ [SetP ''fillStyle'' (eget e ''fillColor''),
                Fill,
                ClosePath,
                SetP ''textAlign'' (JStr ''left''),
                SetP ''textBaseline'' (JStr ''middle''),
                SetP ''fillStyle'' (eget e ''titleTextColor''),
                SetP ''font'' (eget e ''titleFont''),
                FillText (eget e ''title'') (enum e ''x'' + enum e ''xPadding'') (getLineHeight e 0),
                SetP ''font'' (eget e ''font'')]
             @ labels))"

subsection \<open>Placement\<close>

text \<open>
  Placement of a tooltip whose element lies inside the chart: the box spans the element
  horizontally, and if it takes at most two thirds of the chart's width it leaves the chart by
  at most the corner radius plus the caret height; it never covers the element, and when it is above the element it does not leave the chart at
  the top.
\<close>

theorem tooltip_placement:
  assumes "enum e ''x'' = Fin x" "enum e ''y'' = Fin y" "0 \<le> x" "x \<le> cw"
    and "enum e ''caretHeight'' = Fin c" "enum e ''cornerRadius'' = Fin r" "0 \<le> c" "0 \<le> r"
    and "tooltipWidth E e = Fin w" "tooltipRectHeight e = Fin h" "0 \<le> h" "c + r \<le> w / 2"
  shows "\<exists>l t. tooltipX E (Fin cw) e = Fin l \<and> tooltipY e = Fin t \<and>
    l \<le> x \<and> x \<le> l + w \<and>
    (w / 2 \<le> x \<and> x + w / 2 \<le> cw \<longrightarrow> 0 \<le> l \<and> l + w \<le> cw) \<and>
    (3 / 2 * w \<le> cw \<longrightarrow> - (c + r) \<le> l \<and> l + w \<le> cw + (c + r)) \<and>
    (if yAlign e = YAbove then 0 \<le> t \<and> t + h + c + 2 = y else t = y + c + 2)"
proof -
  have tY: "tooltipY e = Fin (if yAlign e = YAbove then y - (h + c + 2) else y + 2 + c)"
    "yAlign e = YAbove \<longleftrightarrow> 0 \<le> y - (h + c + 2)"
    using assms by (auto simp: tooltipY_def yAlign_def tooltipHeight_def caretPadding_def)
  consider "cw < x + w / 2" | "x + w / 2 \<le> cw" "x - w / 2 < 0" | "x + w / 2 \<le> cw" "0 \<le> x - w / 2"
    by linarith
  then obtain l where l: "tooltipX E (Fin cw) e = Fin l" "l \<le> x" "x \<le> l + w"
    "w / 2 \<le> x \<and> x + w / 2 \<le> cw \<longrightarrow> 0 \<le> l \<and> l + w \<le> cw"
    "3 / 2 * w \<le> cw \<longrightarrow> - (c + r) \<le> l \<and> l + w \<le> cw + (c + r)"
  proof cases
    case 1
    with assms show ?thesis
      by (intro that [of "x - w + (r + c)"]) (auto simp: tooltipX_def xAlign_def)
  next
    case 2
    with assms show ?thesis
      by (intro that [of "x - (r + c)"]) (auto simp: tooltipX_def xAlign_def)
  next
    case 3
    with assms show ?thesis
      by (intro that [of "x - w / 2"]) (auto simp: tooltipX_def xAlign_def)
  qed
  with tY show ?thesis by auto
qed

theorem tooltip_placement_witness:
  "\<exists>l t. tooltipX example_env (Fin 300)
      (new_element [] [(''x'', JNum 10), (''y'', JNum 20), (''caretHeight'', JNum 8), (''cornerRadius'', JNum 6),
        (''xPadding'', JNum 6), (''yPadding'', JNum 6), (''fontSize'', JNum 14)]) = Fin l \<and>
    tooltipY (new_element [] [(''x'', JNum 10), (''y'', JNum 20), (''caretHeight'', JNum 8), (''cornerRadius'', JNum 6),
        (''xPadding'', JNum 6), (''yPadding'', JNum 6), (''fontSize'', JNum 14)]) = Fin t \<and> l \<le> 10 \<and> 10 \<le> l + 52"
  using tooltip_placement [of "new_element [] [(''x'', JNum 10), (''y'', JNum 20), (''caretHeight'', JNum 8),
        (''cornerRadius'', JNum 6), (''xPadding'', JNum 6), (''yPadding'', JNum 6), (''fontSize'', JNum 14)]" 10 20 300 8 6
      example_env 52 26]
  by (simp add: tooltipWidth_def tooltipRectHeight_def example_env_def) blast

text \<open>
  A multi-tooltip that is not higher than the chart is moved so that its box lies inside the
  chart vertically, and its rows fill the box: the title row starts \<open>yPadding\<close> below the top, the
  rows of the labels follow at a distance of one and a half font sizes, and the row of the last
  label ends \<open>yPadding\<close> above the bottom.
\<close>

theorem multi_tooltip_layout:
  assumes "enum (m_el m) ''y'' = Fin y" "enum (m_el m) ''fontSize'' = Fin f"
    and "enum (m_el m) ''titleFontSize'' = Fin tf" "enum (m_el m) ''yPadding'' = Fin yp"
    and "m_labels m \<noteq> []" "m' = multi_initialize E cw (Fin ch) m"
  shows "\<exists>h t. enum (m_el m') ''height'' = Fin h \<and> enum (m_el m') ''y'' = Fin (t + h / 2) \<and>
    (h \<le> ch \<and> 0 \<le> h \<longrightarrow> 0 \<le> t \<and> t + h \<le> ch) \<and>
    getLineHeight (m_el m') 0 = Fin (t + yp + tf / 2) \<and>
    (\<forall>i. getLineHeight (m_el m') (Suc (Suc i)) = getLineHeight (m_el m') (Suc i) + Fin (3 / 2 * f)) \<and>
    getLineHeight (m_el m') (length (m_labels m)) = Fin (t + h - yp - f / 2)"
proof -
  define n where "n = real (length (m_labels m))"
  define h where "h = n * f + (n - 1) * (f / 2) + yp * 2 + tf * (3 / 2)"
  define y' where "y' = (if y - h / 2 < 0 then h / 2 else if ch < y + h / 2 then ch - h / 2 else y)"
  have h: "multi_height (m_el m) (m_labels m) = Fin h"
    using assms(1-4) by (simp add: multi_height_def h_def n_def Let_def)
  have "multi_y (Fin ch) (Fin h) (Fin y) = Fin y'"
    by (simp add: multi_y_def y'_def Let_def)
  then have ys: "enum (m_el m') ''y'' = Fin y'" "enum (m_el m') ''height'' = Fin h"
    using assms(1,6) h by (simp_all add: multi_initialize_def Let_def)
  have same: "enum (m_el m') k = enum (m_el m) k" if "k \<in> {''fontSize'', ''titleFontSize'', ''yPadding''}" for k
    using that assms(6) by (auto simp: multi_initialize_def Let_def)
  have title: "getLineHeight (m_el m') 0 = Fin (y' - h / 2 + yp + tf / 2)"
    using ys same assms(2-4) by (simp add: getLineHeight_def Let_def)
  have row: "getLineHeight (m_el m') (Suc i) = Fin (y' - h / 2 + yp + (f * (3 / 2) * real i + f / 2) + tf * (3 / 2))" for i
    using ys same assms(2-4) by (simp add: getLineHeight_def Let_def)
  obtain k where k: "length (m_labels m) = Suc k"
    using assms(5) by (cases "m_labels m") auto
  have "getLineHeight (m_el m') (length (m_labels m)) = Fin (y' - h / 2 + h - yp - f / 2)"
    unfolding k row by (simp add: h_def n_def k field_simps)
  moreover have "h \<le> ch \<and> 0 \<le> h \<longrightarrow> 0 \<le> y' - h / 2 \<and> y' - h / 2 + h \<le> ch"
    by (auto simp: y'_def)
  moreover have "getLineHeight (m_el m') (Suc (Suc i)) = getLineHeight (m_el m') (Suc i) + Fin (3 / 2 * f)" for i
    unfolding row by (simp add: field_simps)
  ultimately show ?thesis
    using ys title
    by (rule_tac x = h in exI, rule_tac x = "y' - h / 2" in exI) (simp add: algebra_simps)
qed

theorem multi_tooltip_layout_witness:
  "\<exists>h t. enum (m_el (multi_initialize example_env (Fin 400) (Fin 200)
       \<lparr>m_el = new_element [] [(''y'', JNum 5), (''fontSize'', JNum 12), (''titleFontSize'', JNum 14), (''yPadding'', JNum 6)],
        m_labels = [JStr ''a'', JStr ''b''], m_colors = []\<rparr>)) ''height'' = Fin h \<and>
     enum (m_el (multi_initialize example_env (Fin 400) (Fin 200)
       \<lparr>m_el = new_element [] [(''y'', JNum 5), (''fontSize'', JNum 12), (''titleFontSize'', JNum 14), (''yPadding'', JNum 6)],
        m_labels = [JStr ''a'', JStr ''b''], m_colors = []\<rparr>)) ''y'' = Fin (t + h / 2)"
  using multi_tooltip_layout [of "\<lparr>m_el = new_element [] [(''y'', JNum 5), (''fontSize'', JNum 12),
        (''titleFontSize'', JNum 14), (''yPadding'', JNum 6)], m_labels = [JStr ''a'', JStr ''b''], m_colors = []\<rparr>" 5 12 14 6,
      OF _ _ _ _ _ refl]
  by simp blast

end
