(* ===== verification/Chart_Animation.thy ===== *)
theory Chart_Animation
  imports Chart_Easing
begin

section \<open>The animation loop\<close>

text \<open>
  \<open>helpers.animationLoop\<close> over an explicit queue of requested animation frames. A queue entry is
  the handle that \<open>requestAnimFrame\<close> returned together with the closure it will run; the closure
  \<open>animationFrame\<close> is known by the variables it captured. The browser runs the first entry
  (\<open>run_frame\<close>); \<open>Chart.Type.prototype.stop\<close> cancels the handle that the chart remembers. The
  callbacks \<open>callback\<close>, \<open>onProgress\<close> and \<open>onComplete\<close> are the events of the trace.
\<close>

datatype anim_event =
    Callback jsnum jsnum nat \<comment> \<open>\<open>easeDecimal\<close>, \<open>stepDecimal\<close>, \<open>currentStep\<close>\<close>
  | OnProgress jsnum jsnum
  | OnComplete

record anim_closure =
  currentStep :: nat
  totalSteps :: jsnum
  easing :: "jsnum \<Rightarrow> jsnum"

record anim_world =
  next_handle :: nat
  frame_queue :: "(nat \<times> anim_closure) list"
  animationFrame :: "nat option" \<comment> \<open>\<open>chartInstance.animationFrame\<close>\<close>
  anim_trace :: "anim_event list"

definition requestAnimFrame :: "anim_closure \<Rightarrow> anim_world \<Rightarrow> nat \<times> anim_world" where
  "requestAnimFrame c w =
     (next_handle w,
      w\<lparr>next_handle := Suc (next_handle w), frame_queue := frame_queue w @ [(next_handle w, c)]\<rparr>)"

definition cancelAnimFrame :: "nat option \<Rightarrow> anim_world \<Rightarrow> anim_world" where
  "cancelAnimFrame h w = w\<lparr>frame_queue := filter (\<lambda>e. Some (fst e) \<noteq> h) (frame_queue w)\<rparr>"

definition emit :: "anim_event list \<Rightarrow> anim_world \<Rightarrow> anim_world" where
  "emit es w = w\<lparr>anim_trace := anim_trace w @ es\<rparr>"

text \<open>The closure \<open>animationFrame\<close> of the source.\<close>

definition run_closure :: "anim_closure \<Rightarrow> anim_world \<Rightarrow> anim_world" where
  "run_closure c w =
     (let c = c\<lparr>currentStep := Suc (currentStep c)\<rparr>;
          current = Fin (real (currentStep c));
          stepDecimal = current / totalSteps c;
          easeDecimal = easing c stepDecimal;
          w = emit [Callback easeDecimal stepDecimal (currentStep c)] w;
          w = emit [OnProgress easeDecimal stepDecimal] w
      in if current < totalSteps c
         then (let (h, w) = requestAnimFrame c w in w\<lparr>animationFrame := Some h\<rparr>)
         else emit [OnComplete] w)"

definition animationLoop :: "jsnum \<Rightarrow> string \<Rightarrow> anim_world \<Rightarrow> anim_world" where
  "animationLoop tot easingString w =
     snd (requestAnimFrame \<lparr>currentStep = 0, totalSteps = tot, easing = easingFunction easingString\<rparr> w)"

definition run_frame :: "anim_world \<Rightarrow> anim_world" where
  "run_frame w =
     (case frame_queue w of [] \<Rightarrow> w | (h, c) # q \<Rightarrow> run_closure c (w\<lparr>frame_queue := q\<rparr>))"

definition stop :: "anim_world \<Rightarrow> anim_world" where
  "stop w = cancelAnimFrame (animationFrame w) w"

subsection \<open>One animation\<close>

text \<open>The number of frames an animation takes, and what one frame reports.\<close>

definition frame_count :: "real \<Rightarrow> nat" where
  "frame_count tot = max 1 (nat \<lceil>tot\<rceil>)"

definition frame_events :: "real \<Rightarrow> (jsnum \<Rightarrow> jsnum) \<Rightarrow> nat \<Rightarrow> anim_event list" where
  "frame_events tot ease k =
     (let d = Fin (real k) / Fin tot in [Callback (ease d) d k, OnProgress (ease d) d])"

lemma before_last: "Suc k < frame_count tot \<Longrightarrow> real (Suc k) < tot"
  by (simp add: frame_count_def max_def split: if_splits) linarith

lemma at_last: "frame_count tot \<le> Suc k \<Longrightarrow> \<not> real (Suc k) < tot"
  by (simp add: frame_count_def)

lemma run_closure_more:
  assumes "totalSteps c = Fin tot" "Suc (currentStep c) < frame_count tot"
  shows "run_closure c w = w\<lparr>next_handle := Suc (next_handle w),
      frame_queue := frame_queue w @ [(next_handle w, c\<lparr>currentStep := Suc (currentStep c)\<rparr>)],
      animationFrame := Some (next_handle w),
      anim_trace := anim_trace w @ frame_events tot (easing c) (Suc (currentStep c))\<rparr>"
  using before_last [OF assms(2)] assms(1)
  by (simp add: run_closure_def requestAnimFrame_def emit_def frame_events_def Let_def)

lemma run_closure_last:
  assumes "totalSteps c = Fin tot" "frame_count tot \<le> Suc (currentStep c)"
  shows "run_closure c w = w\<lparr>anim_trace :=
      anim_trace w @ frame_events tot (easing c) (Suc (currentStep c)) @ [OnComplete]\<rparr>"
  using at_last [OF assms(2)] assms(1)
  by (simp add: run_closure_def requestAnimFrame_def emit_def frame_events_def Let_def)

lemma running:
  assumes "frame_queue w = [(h, c)]" "totalSteps c = Fin tot" "currentStep c + j < frame_count tot"
  shows "\<exists>h'. frame_queue ((run_frame ^^ j) w) = [(h', c\<lparr>currentStep := currentStep c + j\<rparr>)] \<and>
    (0 < j \<longrightarrow> animationFrame ((run_frame ^^ j) w) = Some h') \<and>
    anim_trace ((run_frame ^^ j) w) =
      anim_trace w @ concat (map (frame_events tot (easing c)) [Suc (currentStep c)..<Suc (currentStep c + j)])"
  using assms(3)
proof (induction j)
  case 0
  with assms show ?case by simp
next
  case (Suc j)
  let ?w = "(run_frame ^^ j) w" and ?c = "c\<lparr>currentStep := currentStep c + j\<rparr>"
  from Suc obtain h' where h': "frame_queue ?w = [(h', ?c)]"
    "anim_trace ?w = anim_trace w @ concat (map (frame_events tot (easing c)) [Suc (currentStep c)..<Suc (currentStep c + j)])"
    by force
  have "run_frame ?w = run_closure ?c (?w\<lparr>frame_queue := []\<rparr>)"
    by (simp add: run_frame_def h')
  also have "\<dots> = ?w\<lparr>next_handle := Suc (next_handle ?w),
      frame_queue := [(next_handle ?w, c\<lparr>currentStep := currentStep c + Suc j\<rparr>)],
      animationFrame := Some (next_handle ?w),
      anim_trace := anim_trace ?w @ frame_events tot (easing c) (Suc (currentStep c + j))\<rparr>"
    using Suc.prems assms(2) by (subst run_closure_more [where tot = tot]) simp_all
  finally show ?case using h'(2) by simp
qed

lemma finished:
  assumes "frame_queue w = [(h, c)]" "totalSteps c = Fin tot" "currentStep c = 0"
  shows "frame_queue ((run_frame ^^ frame_count tot) w) = [] \<and>
    anim_trace ((run_frame ^^ frame_count tot) w) =
      anim_trace w @ concat (map (frame_events tot (easing c)) [1..<Suc (frame_count tot)]) @ [OnComplete]"
proof -
  obtain j where j: "frame_count tot = Suc j"
    by (metis frame_count_def max.cobounded1 not0_implies_Suc not_one_le_zero)
  let ?w = "(run_frame ^^ j) w" and ?c = "c\<lparr>currentStep := currentStep c + j\<rparr>"
  from running [OF assms(1,2), of j] j assms(3) obtain h' where h': "frame_queue ?w = [(h', ?c)]"
    "anim_trace ?w = anim_trace w @ concat (map (frame_events tot (easing c)) [1..<Suc j])"
    by force
  have "run_frame ?w = run_closure ?c (?w\<lparr>frame_queue := []\<rparr>)"
    by (simp add: run_frame_def h')
  also have "\<dots> = ?w\<lparr>frame_queue := [],
      anim_trace := anim_trace ?w @ frame_events tot (easing c) (Suc j) @ [OnComplete]\<rparr>"
    using j assms(2,3) by (subst run_closure_last [where tot = tot]) simp_all
  finally show ?thesis using h'(2) by (simp add: j)
qed

lemma loop_queue:
  assumes "frame_queue w = []"
  shows "frame_queue (animationLoop (Fin tot) s w) =
      [(next_handle w, \<lparr>currentStep = 0, totalSteps = Fin tot, easing = easingFunction s\<rparr>)] \<and>
    anim_trace (animationLoop (Fin tot) s w) = anim_trace w \<and>
    animationFrame (animationLoop (Fin tot) s w) = animationFrame w"
  using assms by (simp add: animationLoop_def requestAnimFrame_def)

text \<open>
  C39. An animation of \<open>tot\<close> steps takes exactly \<open>max 1 \<lceil>tot\<rceil>\<close> frames: frame \<open>k\<close> draws the
  chart at the eased fraction \<open>k / tot\<close> and reports progress, the completion callback runs
  once, after the last frame, and no frame is left requested. When \<open>tot\<close> is a positive whole
  number the last frame draws the chart at exactly 1, whatever easing function is named.
\<close>

theorem animationLoop_frames:
  assumes "frame_queue w = []" "w' = (run_frame ^^ frame_count tot) (animationLoop (Fin tot) easingString w)"
  shows "frame_queue w' = [] \<and>
    anim_trace w' = anim_trace w @
      concat (map (frame_events tot (easingFunction easingString)) [1..<Suc (frame_count tot)]) @ [OnComplete] \<and>
    (\<forall>n. 0 < n \<longrightarrow> tot = real n \<longrightarrow>
       frame_events tot (easingFunction easingString) (frame_count tot) =
         [Callback (Fin 1) (Fin 1) n, OnProgress (Fin 1) (Fin 1)])"
proof -
  have "frame_events tot (easingFunction easingString) (frame_count tot) =
      [Callback (Fin 1) (Fin 1) n, OnProgress (Fin 1) (Fin 1)]" if "0 < n" "tot = real n" for n
    using that effect.last_step [of n easingString] by (simp add: frame_events_def frame_count_def max_def Let_def)
  then show ?thesis
    using finished [where w = "animationLoop (Fin tot) easingString w" and tot = tot]
      loop_queue [OF assms(1), of tot easingString] assms(2) by simp
qed

theorem animationLoop_frames_witness:
  "anim_trace ((run_frame ^^ frame_count 2) (animationLoop (Fin 2) ''easeInQuad''
     \<lparr>next_handle = 0, frame_queue = [], animationFrame = None, anim_trace = []\<rparr>)) =
   [Callback (Fin (1 / 4)) (Fin (1 / 2)) 1, OnProgress (Fin (1 / 4)) (Fin (1 / 2)),
    Callback (Fin 1) (Fin 1) 2, OnProgress (Fin 1) (Fin 1), OnComplete]"
  using animationLoop_frames [of "\<lparr>next_handle = 0, frame_queue = [], animationFrame = None, anim_trace = []\<rparr>"
      _ 2 "''easeInQuad''", OF _ refl]
  by (simp add: frame_count_def frame_events_def easingFunction_def easingEffects_def easeInQuad_def Let_def
      upt_conv_Cons numeral_2_eq_2)

text \<open>
  C40. Stopping an animation after at least one of its frames and before the last one cancels
  it: no frame is left requested, and the completion callback has not run. Stopping it before
  its first frame has no effect at all, because \<open>animationLoop\<close> does not keep the handle of the
  frame that it requests itself; the same animation then runs to its end.
\<close>

theorem stop_animation:
  assumes "frame_queue w = []" "\<forall>h. animationFrame w = Some h \<longrightarrow> h < next_handle w"
    and "j < frame_count tot"
    and "w' = (run_frame ^^ j) (animationLoop (Fin tot) easingString w)"
  shows "if j = 0 then stop w' = w'
    else frame_queue (stop w') = [] \<and>
      anim_trace (stop w') = anim_trace w @
        concat (map (frame_events tot (easingFunction easingString)) [1..<Suc j])"
proof (cases "j = 0")
  case True
  have fresh: "Some (next_handle w) \<noteq> animationFrame w" using assms(2) by (metis less_irrefl)
  from True show ?thesis
    using assms(1,4) fresh by (auto simp: stop_def cancelAnimFrame_def animationLoop_def requestAnimFrame_def)
next
  case False
  have "\<exists>h'. frame_queue w' = [(h', \<lparr>currentStep = j, totalSteps = Fin tot, easing = easingFunction easingString\<rparr>)] \<and>
      animationFrame w' = Some h' \<and>
      anim_trace w' = anim_trace w @ concat (map (frame_events tot (easingFunction easingString)) [1..<Suc j])"
    using running [where w = "animationLoop (Fin tot) easingString w" and j = j and tot = tot]
      loop_queue [OF assms(1), of tot easingString] assms(3,4) False by simp
  then show ?thesis using False by (auto simp: stop_def cancelAnimFrame_def)
qed

theorem stop_animation_witness:
  "stop (animationLoop (Fin 2) ''linear''
      \<lparr>next_handle = 0, frame_queue = [], animationFrame = None, anim_trace = []\<rparr>) =
    animationLoop (Fin 2) ''linear''
      \<lparr>next_handle = 0, frame_queue = [], animationFrame = None, anim_trace = []\<rparr> \<and>
   frame_queue (stop ((run_frame ^^ 1) (animationLoop (Fin 2) ''linear''
      \<lparr>next_handle = 0, frame_queue = [], animationFrame = None, anim_trace = []\<rparr>))) = []"
  using stop_animation [of "\<lparr>next_handle = 0, frame_queue = [], animationFrame = None, anim_trace = []\<rparr>"
      0 2 _ "''linear''", OF _ _ _ refl]
    stop_animation [of "\<lparr>next_handle = 0, frame_queue = [], animationFrame = None, anim_trace = []\<rparr>"
      1 2 _ "''linear''", OF _ _ _ refl]
  by (simp add: frame_count_def)

end
