(* ===== verification/Scale_Range.thy ===== *)
theory Scale_Range
  imports Chart_Math
begin

section \<open>Chart.js: fitting a scale to the data\<close>

text \<open>
  \<open>calculateOrderOfMagnitude\<close> and \<open>calculateScaleRange\<close> of \<open>Chart.min.js\<close>, lines 358 to 438. The
  fitting loop doubles or halves the step until the number of steps fits the drawing space. It is
  a partial function, with \<open>None\<close> for a loop that never ends: it does end when the graph's range
  is positive, and it does not when every value is negative and the scale must begin at zero.
\<close>

subsection \<open>Definitions\<close>

definition calculateOrderOfMagnitude :: "jsnum \<Rightarrow> jsnum" where
  "calculateOrderOfMagnitude val = Math_floor (Math_log val / Math_LN10)"

record scale_range =
  steps :: jsnum
  stepValue :: jsnum
  range_min :: jsnum
  range_max :: jsnum

text \<open>
  The loop over \<open>(skipFitting, stepValue, numberOfSteps)\<close>; \<open>ints\<close> is the condition
  \<open>integersOnly && rangeOrderOfMagnitude >= 0\<close>, which the loop does not change.
\<close>

partial_function (option) fit_loop ::
    "jsnum \<Rightarrow> jsnum \<Rightarrow> bool \<Rightarrow> bool \<Rightarrow> jsnum \<Rightarrow> jsnum \<Rightarrow> (bool \<times> jsnum \<times> jsnum) option" where
  "fit_loop maxSteps graphRange ints skipFitting sv n =
     (if (maxSteps < n \<or> n * 2 < maxSteps) \<and> \<not> skipFitting then
        (if maxSteps < n then
           (let sv' = sv * 2; n' = Math_round (graphRange / sv')
            in fit_loop maxSteps graphRange ints (\<not> num_eq (js_mod n' 1) 0) sv' n')
         else if ints then
           (if num_eq (js_mod (sv / 2) 1) 0 then
              fit_loop maxSteps graphRange ints skipFitting (sv / 2) (Math_round (graphRange / (sv / 2)))
            else Some (skipFitting, sv, n))
         else fit_loop maxSteps graphRange ints skipFitting (sv / 2) (Math_round (graphRange / (sv / 2))))
      else Some (skipFitting, sv, n))"

text \<open>The extreme values, pulled apart when they coincide.\<close>

definition spread_values :: "bool \<Rightarrow> jsnum \<Rightarrow> jsnum \<Rightarrow> jsnum \<times> jsnum" where
  "spread_values startFromZero maxValue minValue =
     (if num_eq maxValue minValue then
        (let maxValue' = maxValue + Fin (1 / 2)
         in if Fin (1 / 2) \<le> minValue \<and> \<not> startFromZero then (maxValue', minValue - Fin (1 / 2))
            else (maxValue' + Fin (1 / 2), minValue))
      else (maxValue, minValue))"

definition calculateScaleRange :: "jsval list \<Rightarrow> jsnum \<Rightarrow> jsnum \<Rightarrow> bool \<Rightarrow> bool \<Rightarrow> scale_range option" where
  "calculateScaleRange valuesArray drawingSize textSize startFromZero integersOnly =
     (let minSteps = 2;
          maxSteps = Math_floor (drawingSize / (textSize * Fin (3 / 2)));
          skipFitting = (maxSteps \<le> minSteps);
          (maxValue, minValue) = spread_values startFromZero (js_max valuesArray) (js_min valuesArray);
          valueRange = Math_abs (maxValue - minValue);
          order = calculateOrderOfMagnitude valueRange;
          graphMax = Math_ceil (maxValue / (1 * Math_pow 10 order)) * Math_pow 10 order;
          graphMin = (if startFromZero then 0
                      else Math_floor (minValue / (1 * Math_pow 10 order)) * Math_pow 10 order);
          graphRange = graphMax - graphMin;
          sv = Math_pow 10 order;
          numberOfSteps = Math_round (graphRange / sv)
      in case fit_loop maxSteps graphRange (integersOnly \<and> 0 \<le> order) skipFitting sv numberOfSteps of
           None \<Rightarrow> None
         | Some (skip, sv', n') \<Rightarrow>
             (let n'' = (if skip then minSteps else n'); sv'' = (if skip then graphRange / n'' else sv')
              in Some \<lparr>steps = n'', stepValue = sv'', range_min = graphMin, range_max = graphMin + n'' * sv''\<rparr>))"

subsection \<open>Orders of magnitude\<close>

lemma order_of_magnitude_Fin: "0 < x \<Longrightarrow> calculateOrderOfMagnitude (Fin x) = Fin (of_int \<lfloor>log 10 x\<rfloor>)"
  by (simp add: calculateOrderOfMagnitude_def log_def)

lemma floor_log_10:
  assumes "10 powi k \<le> x" and "x < 10 powi (k + 1)"
  shows "\<lfloor>log 10 x\<rfloor> = k"
proof -
  have p: "(10 :: real) powi j = 10 powr of_int j" for j
    by (simp add: powr_real_of_int')
  have "0 < x" using assms(1) by (rule less_le_trans [rotated]) simp
  then have "of_int k \<le> log 10 x" "log 10 x < of_int k + 1"
    using assms by (simp_all add: le_log_iff log_less_iff p)
  then show ?thesis by (rule floor_unique)
qed

lemma Math_pow10 [simp]: "Math_pow (Fin 10) (Fin (of_int k)) = Fin (10 powi k)"
  by (rule pow_int) simp

subsection \<open>One step of the fitting loop\<close>

text \<open>The number of steps on a range \<open>R\<close> divided into pieces of \<open>s\<close>, as an integer.\<close>

definition pieces :: "real \<Rightarrow> real \<Rightarrow> int" where
  "pieces R s = \<lfloor>R / s + 1 / 2\<rfloor>"

lemma Math_round_pieces: "s \<noteq> 0 \<Longrightarrow> Math_round (Fin R / Fin s) = Fin (of_int (pieces R s))"
  by (simp add: pieces_def)

lemma js_mod_one: "num_eq (js_mod (Fin x) (Fin 1)) (Fin 0) \<longleftrightarrow> x \<in> \<int>"
proof
  assume "num_eq (js_mod (Fin x) (Fin 1)) (Fin 0)"
  then have "x = of_int (trunc x)" by simp
  then show "x \<in> \<int>" by (metis Ints_of_int)
qed (auto simp: trunc_def elim: Ints_cases)

lemma pieces_double: "m < pieces R s \<Longrightarrow> m \<le> 2 * pieces R (s * 2)"
proof -
  assume "m < pieces R s"
  then have "of_int m + 1 \<le> R / s + 1 / 2"
    by (simp add: pieces_def less_floor_iff)
  moreover have "R / (s * 2) + 1 / 2 < of_int (pieces R (s * 2)) + 1"
    unfolding pieces_def by linarith
  then have "R / s < 2 * of_int (pieces R (s * 2)) + 1" by simp
  ultimately have "of_int m - 1 < (of_int (2 * pieces R (s * 2)) :: real)" by simp
  then show ?thesis by linarith
qed

lemma pieces_halve: "2 * pieces R s < m \<Longrightarrow> pieces R (s / 2) \<le> m"
proof -
  assume m: "2 * pieces R s < m"
  have "R / s + 1 / 2 < of_int (pieces R s) + 1"
    unfolding pieces_def by linarith
  then have "R / (s / 2) + 1 / 2 < of_int (2 * pieces R s + 1) + 1" by simp
  then have "pieces R (s / 2) < 2 * pieces R s + 1 + 1"
    unfolding pieces_def by (simp add: floor_less_iff)
  with m show ?thesis by linarith
qed

lemma pieces_double_less: "2 \<le> pieces R s \<Longrightarrow> pieces R (s * 2) < pieces R s"
proof -
  assume n: "2 \<le> pieces R s"
  have "R / s + 1 / 2 < of_int (pieces R s) + 1"
    unfolding pieces_def by linarith
  moreover have "2 \<le> (of_int (pieces R s) :: real)"
    using n by linarith
  ultimately have "R / (s * 2) + 1 / 2 < of_int (pieces R s)" by simp
  then show ?thesis unfolding pieces_def [of R "s * 2"] by (simp add: floor_less_iff)
qed

lemma fit_loop_int:
  assumes "0 < s"
  shows "fit_loop (Fin (of_int m)) (Fin R) ints False (Fin s) (Fin (of_int n)) =
     (if m < n then
        fit_loop (Fin (of_int m)) (Fin R) ints False (Fin (s * 2)) (Fin (of_int (pieces R (s * 2))))
      else if 2 * n < m then
        (if ints \<and> s / 2 \<notin> \<int> then Some (False, Fin s, Fin (of_int n))
         else fit_loop (Fin (of_int m)) (Fin R) ints False (Fin (s / 2)) (Fin (of_int (pieces R (s / 2)))))
      else Some (False, Fin s, Fin (of_int n)))"
proof -
  have two: "(of_int n * 2 < (of_int m :: real)) = (2 * n < m)"
    by linarith
  have dbl: "Math_round (Fin R / (Fin s * 2)) = Fin (of_int (pieces R (s * 2)))"
    and hlf: "Math_round (Fin R / (Fin s / 2)) = Fin (of_int (pieces R (s / 2)))"
    using assms by (simp_all add: pieces_def)
  have int: "num_eq (js_mod (Fin (of_int k)) 1) 0" for k
    using js_mod_one [of "of_int k"] by simp
  have half: "num_eq (js_mod (Fin s / 2) 1) 0 = (s / 2 \<in> \<int>)"
    using js_mod_one [of "s / 2"] by simp
  show ?thesis
    by (subst fit_loop.simps)
      (simp only: dbl hlf int half Let_def, simp add: two)
qed

subsection \<open>Termination and outcome of the fitting loop\<close>

definition fits :: "int \<Rightarrow> real \<Rightarrow> bool \<Rightarrow> real \<Rightarrow> real \<Rightarrow> bool" where
  "fits m R ints s s' \<longleftrightarrow> 0 < s' \<and> pieces R s' \<le> m \<and> (\<not> ints \<longrightarrow> m \<le> 2 * pieces R s') \<and>
     (ints \<and> s \<in> \<int> \<longrightarrow> s' \<in> \<int>) \<and> (1 \<le> pieces R s \<longrightarrow> 1 \<le> pieces R s')"

lemma pieces_halve_mono: "0 < R \<Longrightarrow> 0 < s \<Longrightarrow> pieces R s \<le> pieces R (s / 2)"
  unfolding pieces_def by (intro floor_mono) (simp add: divide_right_mono)

lemma fit_loop_double:
  assumes "0 < s" and "2 \<le> m" and "m < pieces R s"
  shows "\<exists>s'. fit_loop (Fin (of_int m)) (Fin R) ints False (Fin s) (Fin (of_int (pieces R s))) =
            Some (False, Fin s', Fin (of_int (pieces R s'))) \<and> fits m R ints s s'"
  using assms
proof (induction "nat (pieces R s)" arbitrary: s rule: less_induct)
  case less
  have step: "fit_loop (Fin (of_int m)) (Fin R) ints False (Fin s) (Fin (of_int (pieces R s))) =
      fit_loop (Fin (of_int m)) (Fin R) ints False (Fin (s * 2)) (Fin (of_int (pieces R (s * 2))))"
    using less.prems by (subst fit_loop_int) simp_all
  have Z: "s \<in> \<int> \<Longrightarrow> s * 2 \<in> \<int>" by simp
  show ?case
  proof (cases "m < pieces R (s * 2)")
    case True
    have "nat (pieces R (s * 2)) < nat (pieces R s)"
      using less.prems pieces_double_less [of R s] by linarith
    from less.hyps [OF this] True less.prems obtain s' where
      "fit_loop (Fin (of_int m)) (Fin R) ints False (Fin (s * 2)) (Fin (of_int (pieces R (s * 2)))) =
         Some (False, Fin s', Fin (of_int (pieces R s')))" "fits m R ints (s * 2) s'"
      by auto
    with step Z True less.prems(2) show ?thesis by (auto simp: fits_def)
  next
    case False
    have "m \<le> 2 * pieces R (s * 2)"
      using less.prems(3) by (rule pieces_double)
    with False less.prems Z have
      "fit_loop (Fin (of_int m)) (Fin R) ints False (Fin (s * 2)) (Fin (of_int (pieces R (s * 2)))) =
         Some (False, Fin (s * 2), Fin (of_int (pieces R (s * 2)))) \<and> fits m R ints s (s * 2)"
      by (subst fit_loop_int) (auto simp: fits_def)
    with step show ?thesis by metis
  qed
qed

lemma fit_loop_halve:
  assumes "0 < s" and "0 < R" and "of_int m \<le> R / s * 2 ^ K" and "pieces R s \<le> m"
  shows "\<exists>s'. fit_loop (Fin (of_int m)) (Fin R) ints False (Fin s) (Fin (of_int (pieces R s))) =
            Some (False, Fin s', Fin (of_int (pieces R s'))) \<and> fits m R ints s s'"
  using assms
proof (induction K arbitrary: s)
  case 0
  have "of_int m \<le> (of_int (pieces R s) + 1 / 2 :: real)"
    using 0 unfolding pieces_def by simp linarith
  moreover have "0 \<le> pieces R s"
    using 0 by (simp add: pieces_def)
  ultimately have "\<not> 2 * pieces R s < m" by linarith
  with 0 show ?case
    by (subst fit_loop_int) (auto simp: fits_def)
next
  case (Suc K)
  show ?case
  proof (cases "2 * pieces R s < m \<and> \<not> (ints \<and> s / 2 \<notin> \<int>)")
    case True
    have step: "fit_loop (Fin (of_int m)) (Fin R) ints False (Fin s) (Fin (of_int (pieces R s))) =
        fit_loop (Fin (of_int m)) (Fin R) ints False (Fin (s / 2)) (Fin (of_int (pieces R (s / 2))))"
      using Suc.prems True by (subst fit_loop_int) auto
    have "of_int m \<le> R / (s / 2) * 2 ^ K"
      using Suc.prems(3) by simp
    moreover have "pieces R (s / 2) \<le> m"
      using True pieces_halve by blast
    ultimately obtain s' where
      "fit_loop (Fin (of_int m)) (Fin R) ints False (Fin (s / 2)) (Fin (of_int (pieces R (s / 2)))) =
         Some (False, Fin s', Fin (of_int (pieces R s')))" "fits m R ints (s / 2) s'"
      using Suc.IH [of "s / 2"] Suc.prems by auto
    with step True pieces_halve_mono [OF Suc.prems(2,1)] show ?thesis by (auto simp: fits_def)
  next
    case False
    with Suc.prems show ?thesis
      by (subst fit_loop_int) (auto simp: fits_def)
  qed
qed

lemma fit_loop_fits:
  assumes "0 < s" and "0 < R" and "2 \<le> m"
  shows "\<exists>s'. fit_loop (Fin (of_int m)) (Fin R) ints False (Fin s) (Fin (of_int (pieces R s))) =
            Some (False, Fin s', Fin (of_int (pieces R s'))) \<and> fits m R ints s s'"
proof (cases "m < pieces R s")
  case True
  with assms show ?thesis by (intro fit_loop_double)
next
  case False
  obtain K where "of_int m * (s / R) < (2 :: real) ^ K"
    using real_arch_pow [of 2 "of_int m * (s / R)"] by auto
  then have "of_int m \<le> R / s * 2 ^ K"
    using assms by (simp add: field_simps)
  with False assms show ?thesis by (intro fit_loop_halve) auto
qed

text \<open>With a range that is not positive and no restriction to integers the loop never returns.\<close>

definition stuck :: "jsnum \<Rightarrow> jsnum \<Rightarrow> bool \<Rightarrow> bool \<Rightarrow> jsnum \<Rightarrow> jsnum \<Rightarrow> bool" where
  "stuck ms gr ints skip sv n \<longleftrightarrow> \<not> ints \<and> \<not> skip \<and>
     (\<exists>m R s k. ms = Fin (of_int m) \<and> gr = Fin R \<and> sv = Fin s \<and> n = Fin (of_int k) \<and>
        R \<le> 0 \<and> 0 < s \<and> 0 < m \<and> k \<le> 0)"

lemma pieces_nonpos: "R \<le> 0 \<Longrightarrow> 0 < s \<Longrightarrow> pieces R s \<le> 0"
proof -
  assume "R \<le> 0" "0 < s"
  then have "R / s \<le> 0" by (simp add: divide_le_0_iff)
  then have "R / s + 1 / 2 < 1" by linarith
  then have "pieces R s < 1" by (simp add: pieces_def floor_less_iff)
  then show ?thesis by simp
qed

lemma fit_loop_diverges:
  assumes "stuck ms gr ints skip sv n"
  shows "fit_loop ms gr ints skip sv n = None"
proof (rule ccontr)
  assume "fit_loop ms gr ints skip sv n \<noteq> None"
  then obtain r where ret: "fit_loop ms gr ints skip sv n = Some r" by blast
  have "\<not> stuck ms gr ints skip sv n"
  proof (rule fit_loop.raw_induct [where P = "\<lambda>ms gr ints skip sv n r. \<not> stuck ms gr ints skip sv n", OF _ ret])
    fix f ms gr ints skip sv n r
    assume IH: "\<And>ms gr ints skip sv n r. f ms gr ints skip sv n = Some r \<Longrightarrow> \<not> stuck ms gr ints skip sv n"
      and eq: "(if (ms < n \<or> n * 2 < ms) \<and> \<not> skip then
          (if ms < n then
             (let sv' = sv * 2; n' = Math_round (gr / sv') in f ms gr ints (\<not> num_eq (js_mod n' 1) 0) sv' n')
           else if ints then
             (if num_eq (js_mod (sv / 2) 1) 0 then f ms gr ints skip (sv / 2) (Math_round (gr / (sv / 2)))
              else Some (skip, sv, n))
           else f ms gr ints skip (sv / 2) (Math_round (gr / (sv / 2))))
        else Some (skip, sv, n)) = Some r"
    show "\<not> stuck ms gr ints skip sv n"
    proof
      assume "stuck ms gr ints skip sv n"
      then obtain m R s k where v: "\<not> ints" "\<not> skip" "ms = Fin (of_int m)" "gr = Fin R" "sv = Fin s"
          "n = Fin (of_int k)" "R \<le> 0" "0 < s" "0 < m" "k \<le> 0"
        by (auto simp: stuck_def)
      have "of_int k * 2 < (of_int m :: real)" "\<not> (of_int m :: real) < of_int k"
        using v by linarith+
      with eq v have "f ms gr ints skip (sv / 2) (Math_round (gr / (sv / 2))) = Some r"
        by (simp split: if_splits)
      then have "\<not> stuck ms gr ints skip (sv / 2) (Math_round (gr / (sv / 2)))" by (rule IH)
      moreover have "stuck ms gr ints skip (sv / 2) (Math_round (gr / (sv / 2)))"
        unfolding stuck_def using v pieces_nonpos [of R "s / 2"]
        by (auto simp: pieces_def intro!: exI [of _ m] exI [of _ "s / 2"] exI [of _ "pieces R (s / 2)"])
      ultimately show False by blast
    qed
  qed
  with assms show False by blast
qed

subsection \<open>The scale on finite data\<close>

text \<open>
  On finite values the definition computes with reals: the extremes \<open>hi\<close> and \<open>lo\<close>, the power of
  ten \<open>p\<close> of their distance, and the graph's bounds, multiples of \<open>p\<close>.
\<close>

abbreviation jnums :: "real list \<Rightarrow> jsval list" where
  "jnums vs \<equiv> map (\<lambda>r. JNum (Fin r)) vs"

definition hi_lo :: "bool \<Rightarrow> real list \<Rightarrow> real \<times> real" where
  "hi_lo z vs =
     (let M = Max (set vs); m = Min (set vs)
      in if M = m then (if 1 / 2 \<le> m \<and> \<not> z then (M + 1 / 2, m - 1 / 2) else (M + 1, m)) else (M, m))"

definition unit_of :: "bool \<Rightarrow> real list \<Rightarrow> real" where
  "unit_of z vs = 10 powi \<lfloor>log 10 (fst (hi_lo z vs) - snd (hi_lo z vs))\<rfloor>"

definition graph_max :: "bool \<Rightarrow> real list \<Rightarrow> real" where
  "graph_max z vs = of_int \<lceil>fst (hi_lo z vs) / unit_of z vs\<rceil> * unit_of z vs"

definition graph_min :: "bool \<Rightarrow> real list \<Rightarrow> real" where
  "graph_min z vs = (if z then 0 else of_int \<lfloor>snd (hi_lo z vs) / unit_of z vs\<rfloor> * unit_of z vs)"

definition max_steps :: "real \<Rightarrow> real \<Rightarrow> int" where
  "max_steps ds ts = \<lfloor>ds / (ts * (3 / 2))\<rfloor>"

lemma hi_lo_less: "vs \<noteq> [] \<Longrightarrow> snd (hi_lo z vs) < fst (hi_lo z vs)"
proof -
  assume "vs \<noteq> []"
  then have "Min (set vs) \<le> Max (set vs)" by simp
  then show ?thesis by (auto simp: hi_lo_def Let_def)
qed

lemma hi_lo_bounds: "v \<in> set vs \<Longrightarrow> snd (hi_lo z vs) \<le> v \<and> v \<le> fst (hi_lo z vs)"
proof -
  assume v: "v \<in> set vs"
  then have "Min (set vs) \<le> v" "v \<le> Max (set vs)" by simp_all
  then show ?thesis by (auto simp: hi_lo_def Let_def)
qed

lemma unit_pos [simp]: "0 < unit_of z vs"
  by (simp add: unit_of_def)

lemma unit_signs [simp]: "unit_of z vs \<noteq> 0" "\<not> unit_of z vs < 0"
  using unit_pos [of z vs] by linarith+

lemma graph_max_ge: "v \<in> set vs \<Longrightarrow> v \<le> graph_max z vs"
proof -
  assume "v \<in> set vs"
  then have "v / unit_of z vs \<le> fst (hi_lo z vs) / unit_of z vs"
    using hi_lo_bounds [of v vs z] unit_pos [of z vs] by (simp add: divide_le_cancel)
  also have "\<dots> \<le> of_int \<lceil>fst (hi_lo z vs) / unit_of z vs\<rceil>"
    by (rule le_of_int_ceiling)
  finally show ?thesis by (simp add: graph_max_def pos_divide_le_eq)
qed

lemma graph_min_le: "v \<in> set vs \<Longrightarrow> \<not> z \<or> 0 \<le> v \<Longrightarrow> graph_min z vs \<le> v"
proof -
  assume v: "v \<in> set vs" and z: "\<not> z \<or> 0 \<le> v"
  have "of_int \<lfloor>snd (hi_lo z vs) / unit_of z vs\<rfloor> \<le> snd (hi_lo z vs) / unit_of z vs"
    by (rule of_int_floor_le)
  also have "\<dots> \<le> v / unit_of z vs"
    using hi_lo_bounds [OF v, of z] unit_pos [of z vs] by (simp add: divide_le_cancel)
  finally have "of_int \<lfloor>snd (hi_lo z vs) / unit_of z vs\<rfloor> \<le> v / unit_of z vs" .
  with z show ?thesis by (cases z) (simp_all add: graph_min_def pos_le_divide_eq)
qed

lemma graph_range_pos: "vs \<noteq> [] \<Longrightarrow> \<not> z \<or> (\<exists>v \<in> set vs. 0 < v) \<Longrightarrow> graph_min z vs < graph_max z vs"
proof -
  assume ne: "vs \<noteq> []" and z: "\<not> z \<or> (\<exists>v \<in> set vs. 0 < v)"
  show ?thesis
  proof (cases z)
    case True
    with z obtain v where "v \<in> set vs" "0 < v" by blast
    with True graph_max_ge [of v vs z] show ?thesis by (simp add: graph_min_def)
  next
    case False
    have "snd (hi_lo z vs) / unit_of z vs < fst (hi_lo z vs) / unit_of z vs"
      using hi_lo_less [OF ne] by (simp add: divide_strict_right_mono)
    then have "\<lfloor>snd (hi_lo z vs) / unit_of z vs\<rfloor> < \<lceil>fst (hi_lo z vs) / unit_of z vs\<rceil>"
      by linarith
    with False show ?thesis by (simp add: graph_min_def graph_max_def)
  qed
qed

lemma graph_range_units:
  "\<exists>j. graph_max z vs - graph_min z vs = of_int j * unit_of z vs"
  by (auto simp: graph_max_def graph_min_def left_diff_distrib [symmetric] of_int_diff [symmetric]
      simp del: of_int_diff)

lemma calculateScaleRange_fin:
  assumes "vs \<noteq> []" and "0 < ts"
  shows "calculateScaleRange (jnums vs) (Fin ds) (Fin ts) z ints =
     (let R = graph_max z vs - graph_min z vs; u = unit_of z vs
      in case fit_loop (Fin (of_int (max_steps ds ts))) (Fin R) (ints \<and> 1 \<le> u)
                (max_steps ds ts \<le> 2) (Fin u) (Fin (of_int (pieces R u))) of
           None \<Rightarrow> None
         | Some (skip, sv, n) \<Rightarrow>
             (let n' = (if skip then 2 else n); sv' = (if skip then Fin R / n' else sv)
              in Some \<lparr>steps = n', stepValue = sv', range_min = Fin (graph_min z vs),
                       range_max = Fin (graph_min z vs) + n' * sv'\<rparr>))"
proof -
  obtain x xs where vs: "vs = x # xs" using assms(1) by (cases vs) auto
  let ?hl = "hi_lo z vs"
  have spread: "spread_values z (js_max (jnums vs)) (js_min (jnums vs)) = (Fin (fst ?hl), Fin (snd ?hl))"
    using js_max_Fin [of x xs] js_min_Fin [of x xs] unfolding vs
    by (simp add: spread_values_def hi_lo_def Let_def)
  have "0 < fst ?hl - snd ?hl" using hi_lo_less [OF assms(1), of z] by simp
  then have order: "calculateOrderOfMagnitude (Math_abs (Fin (fst ?hl - snd ?hl))) =
      Fin (of_int \<lfloor>log 10 (fst ?hl - snd ?hl)\<rfloor>)"
    by (simp add: order_of_magnitude_Fin)
  have u: "Math_pow 10 (Fin (of_int \<lfloor>log 10 (fst ?hl - snd ?hl)\<rfloor>)) = Fin (unit_of z vs)"
    by (simp add: unit_of_def pow_real_def)
  have p: "(10 :: real) powi j = 10 powr of_int j" for j
    by (simp add: powr_real_of_int')
  have k: "0 \<le> \<lfloor>log 10 (fst ?hl - snd ?hl)\<rfloor> \<longleftrightarrow> 1 \<le> unit_of z vs"
    using powr_le_cancel_iff [of 10 0 "of_int \<lfloor>log 10 (fst ?hl - snd ?hl)\<rfloor>"] by (simp add: unit_of_def p)
  have gmax: "Math_ceil (Fin (fst ?hl) / (1 * Fin (unit_of z vs))) * Fin (unit_of z vs) = Fin (graph_max z vs)"
    using unit_pos [of z vs] by (simp add: graph_max_def)
  have gmin: "(if z then 0 else Math_floor (Fin (snd ?hl) / (1 * Fin (unit_of z vs))) * Fin (unit_of z vs)) =
      Fin (graph_min z vs)"
    using unit_pos [of z vs] by (simp add: graph_min_def)
  have ms: "Math_floor (Fin ds / (Fin ts * Fin (3 / 2))) = Fin (of_int (max_steps ds ts))"
    using assms(2) by (simp add: max_steps_def)
  have rnd: "Math_round (Fin R / Fin (unit_of z vs)) = Fin (of_int (pieces R (unit_of z vs)))" for R
    using unit_pos [of z vs] by (intro Math_round_pieces) simp
  have le: "(Fin (of_int (max_steps ds ts)) \<le> 2) = (max_steps ds ts \<le> 2)"
    by (simp add: of_int_le_numeral_iff)
  have ge: "(0 \<le> Fin (of_int \<lfloor>log 10 (fst ?hl - snd ?hl)\<rfloor>)) = (1 \<le> unit_of z vs)"
    using k by simp
  show ?thesis
    unfolding calculateScaleRange_def spread Let_def prod.case order u gmax gmin ms minus_Fin rnd le ge
    by (rule refl)
qed

lemma pieces_close: "0 < s \<Longrightarrow> \<bar>of_int (pieces R s) * s - R\<bar> \<le> s / 2"
proof -
  assume s: "0 < s"
  have "\<bar>of_int (pieces R s) - R / s\<bar> \<le> 1 / 2"
    unfolding pieces_def by linarith
  then have "\<bar>of_int (pieces R s) - R / s\<bar> * s \<le> 1 / 2 * s"
    using s by (intro mult_right_mono) simp_all
  with s show ?thesis by (simp add: abs_mult_pos left_diff_distrib)
qed

lemma calculateScaleRange_outcome:
  assumes "vs \<noteq> []" and "0 < ts" and "\<not> z \<or> (\<exists>v \<in> set vs. 0 < v)"
  shows "\<exists>n s. calculateScaleRange (jnums vs) (Fin ds) (Fin ts) z ints =
             Some \<lparr>steps = Fin (of_int n), stepValue = Fin s, range_min = Fin (graph_min z vs),
                   range_max = Fin (graph_min z vs + of_int n * s)\<rparr> \<and> 0 < s \<and> 1 \<le> n \<and>
           \<bar>graph_min z vs + of_int n * s - graph_max z vs\<bar> \<le> s / 2 \<and>
           (max_steps ds ts \<le> 2 \<longrightarrow> n = 2 \<and> graph_min z vs + of_int n * s = graph_max z vs) \<and>
           (2 < max_steps ds ts \<longrightarrow> n = pieces (graph_max z vs - graph_min z vs) s \<and>
              fits (max_steps ds ts) (graph_max z vs - graph_min z vs) (ints \<and> 1 \<le> unit_of z vs) (unit_of z vs) s)"
proof -
  let ?R = "graph_max z vs - graph_min z vs" and ?u = "unit_of z vs" and ?m = "max_steps ds ts"
  have R: "0 < ?R" using graph_range_pos [OF assms(1,3)] by simp
  obtain j where j: "?R = of_int j * ?u" using graph_range_units by blast
  with R have "0 < j" by (simp add: zero_less_mult_iff)
  then have u: "1 \<le> pieces ?R ?u" unfolding j by (simp add: pieces_def)
  show ?thesis
  proof (cases "?m \<le> 2")
    case True
    then have "fit_loop (Fin (of_int ?m)) (Fin ?R) (ints \<and> 1 \<le> ?u) (?m \<le> 2) (Fin ?u) (Fin (of_int (pieces ?R ?u))) =
        Some (True, Fin ?u, Fin (of_int (pieces ?R ?u)))"
      by (simp add: fit_loop.simps)
    with True R show ?thesis
      by (intro exI [of _ "2 :: int"] exI [of _ "?R / 2"]) (simp add: calculateScaleRange_fin assms Let_def diff_divide_distrib)
  next
    case False
    then obtain s where s: "fit_loop (Fin (of_int ?m)) (Fin ?R) (ints \<and> 1 \<le> ?u) False (Fin ?u)
          (Fin (of_int (pieces ?R ?u))) = Some (False, Fin s, Fin (of_int (pieces ?R s)))"
      and f: "fits ?m ?R (ints \<and> 1 \<le> ?u) ?u s"
      using fit_loop_fits [of ?u ?R ?m "ints \<and> 1 \<le> ?u"] R by auto
    from f have "0 < s" by (simp add: fits_def)
    with pieces_close [of s ?R] have "\<bar>graph_min z vs + of_int (pieces ?R s) * s - graph_max z vs\<bar> \<le> s / 2"
      by (simp add: algebra_simps)
    moreover have "1 \<le> pieces ?R s" using f u by (simp add: fits_def)
    ultimately show ?thesis using False f \<open>0 < s\<close>
      by (intro exI [of _ "pieces ?R s"] exI [of _ s]) (simp add: calculateScaleRange_fin assms Let_def s)
  qed
qed



text \<open>
  When only whole numbers are allowed and the data spread over at least one unit (or
  coincide), the fitted step and the lower end of the scale are whole numbers.
\<close>

theorem calculateScaleRange_integers:
  assumes "vs \<noteq> []" and "0 < ts" and "\<not> z \<or> (\<exists>v \<in> set vs. 0 < v)" and "2 < max_steps ds ts"
    and "Max (set vs) = Min (set vs) \<or> 1 \<le> Max (set vs) - Min (set vs)"
  shows "\<exists>r. calculateScaleRange (jnums vs) (Fin ds) (Fin ts) z True = Some r \<and>
           the_fin (stepValue r) \<in> \<int> \<and> the_fin (range_min r) \<in> \<int>"
proof -
  have d: "1 \<le> fst (hi_lo z vs) - snd (hi_lo z vs)"
    using assms(5) by (auto simp: hi_lo_def Let_def)
  then have "0 \<le> \<lfloor>log 10 (fst (hi_lo z vs) - snd (hi_lo z vs))\<rfloor>"
    by simp
  then obtain j where j: "\<lfloor>log 10 (fst (hi_lo z vs) - snd (hi_lo z vs))\<rfloor> = int j"
    by (metis nonneg_int_cases)
  then have u: "unit_of z vs = 10 ^ j" by (simp add: unit_of_def)
  then have uZ: "unit_of z vs \<in> \<int>" "1 \<le> unit_of z vs" by simp_all
  obtain n s where o: "calculateScaleRange (jnums vs) (Fin ds) (Fin ts) z True =
             Some \<lparr>steps = Fin (of_int n), stepValue = Fin s, range_min = Fin (graph_min z vs),
                   range_max = Fin (graph_min z vs + of_int n * s)\<rparr>"
     "fits (max_steps ds ts) (graph_max z vs - graph_min z vs) (True \<and> 1 \<le> unit_of z vs) (unit_of z vs) s"
    using calculateScaleRange_outcome [OF assms(1-3)] assms(4) by blast
  have "s \<in> \<int>" using o(2) uZ by (simp add: fits_def)
  moreover have "graph_min z vs \<in> \<int>" using uZ(1) by (cases z) (simp_all add: graph_min_def)
  ultimately show ?thesis using o(1) by simp
qed

theorem calculateScaleRange_integers_witness:
  "\<exists>r. calculateScaleRange (jnums [2, 40]) (Fin 180) (Fin 12) False True = Some r \<and>
      the_fin (stepValue r) \<in> \<int> \<and> the_fin (range_min r) \<in> \<int>"
  by (rule calculateScaleRange_integers) (simp_all add: max_steps_def)

text \<open>
  C11. When the scale must begin at zero but the graph's upper bound is negative, and the step may
  be a fraction, the fitting loop halves the step for ever: the call never returns.
\<close>

theorem calculateScaleRange_never_returns:
  assumes "vs \<noteq> []" and "0 < ts" and "2 < max_steps ds ts" and "graph_max True vs < 0"
    and "\<not> ints \<or> unit_of True vs < 1"
  shows "calculateScaleRange (jnums vs) (Fin ds) (Fin ts) True ints = None"
proof -
  let ?R = "graph_max True vs - graph_min True vs" and ?u = "unit_of True vs" and ?m = "max_steps ds ts"
  have R: "?R \<le> 0" using assms(4) by (simp add: graph_min_def)
  have "stuck (Fin (of_int ?m)) (Fin ?R) (ints \<and> 1 \<le> ?u) (?m \<le> 2) (Fin ?u) (Fin (of_int (pieces ?R ?u)))"
    unfolding stuck_def using assms(3,5) R pieces_nonpos [OF R, of ?u] unit_pos [of True vs]
    by (intro conjI exI [of _ ?m] exI [of _ ?R] exI [of _ ?u] exI [of _ "pieces ?R ?u"]) auto
  then show ?thesis
    by (simp add: calculateScaleRange_fin assms(1,2) fit_loop_diverges)
qed

theorem calculateScaleRange_never_returns_witness:
  "calculateScaleRange (jnums [- 1 / 2, - 1 / 5]) (Fin 180) (Fin 12) True True = None"
proof -
  let ?vs = "[- 1 / 2, - 1 / 5] :: real list"
  have h: "hi_lo True ?vs = (- 1 / 5, - 1 / 2)" by (simp add: hi_lo_def Let_def)
  have "\<lfloor>log 10 (3 / 10)\<rfloor> = (- 1 :: int)"
    by (rule floor_log_10) (simp_all add: power_int_def)
  then have u: "unit_of True ?vs = 1 / 10"
    unfolding unit_of_def h by (simp add: power_int_def)
  have "graph_max True ?vs < 0"
    unfolding graph_max_def h u by simp
  moreover have "2 < max_steps 180 12" by (simp add: max_steps_def)
  moreover have "unit_of True ?vs < 1" unfolding u by simp
  ultimately show ?thesis
    by (intro calculateScaleRange_never_returns) simp_all
qed

text \<open>
  The fitted scale can end below the data: with room for four steps, the values \<open>0\<close> and \<open>9\<close>
  give two steps of \<open>4\<close>, so the scale ends at \<open>8\<close>. The number of steps is rounded to the nearest
  integer, and rounding down cuts the top off the graph.
\<close>

theorem calculateScaleRange_clips_maximum:
  "calculateScaleRange (jnums [0, 9]) (Fin 72) (Fin 12) False False =
     Some \<lparr>steps = Fin 2, stepValue = Fin 4, range_min = Fin 0, range_max = Fin 8\<rparr>"
proof -
  let ?vs = "[0, 9] :: real list"
  have h: "hi_lo False ?vs = (9, 0)" by (simp add: hi_lo_def Let_def)
  have "\<lfloor>log 10 (9 :: real)\<rfloor> = (0 :: int)" by (rule floor_log_10) simp_all
  then have u: "unit_of False ?vs = 1" unfolding unit_of_def h by simp
  have g: "graph_max False ?vs = 9" "graph_min False ?vs = 0"
    unfolding graph_max_def graph_min_def h u by simp_all
  have m: "max_steps 72 12 = 4" by (simp add: max_steps_def)
  have "fit_loop (Fin 4) (Fin 9) False False (Fin 1) (Fin 9) = Some (False, Fin 4, Fin 2)"
    by (simp add: fit_loop.simps trunc_def)
  then show ?thesis
    using calculateScaleRange_fin [of ?vs 12 72 False False]
    by (simp add: u g m Let_def pieces_def)
qed

end
