(* ===== verification/Chart_Scale.thy ===== *)
theory Chart_Scale
  imports Scale_Range Chart_Canvas
begin

section \<open>The linear scale\<close>

text \<open>
  \<open>Chart.Scale\<close>: the axes of the bar and line charts. The state is a record with the
  configuration that the charts pass and the fields the class computes. \<open>calculateYRange\<close>, which
  the charts override, either keeps the range of the options (\<open>s_override\<close>) or fits one to the
  data, which is an argument of \<open>fit\<close>. An operation returns \<open>None\<close> when it does not return in
  the source and \<open>Some (Inl err)\<close> when it throws; the loop of \<open>fit\<close> is a partial function.
\<close>

named_theorems scale_simps \<comment> \<open>what an operation of the scale leaves unchanged\<close>

record scale =
  s_width :: jsnum
  s_height :: jsnum
  s_fontSize :: jsnum
  s_font :: jsval
  s_padding :: jsnum
  s_display :: bool
  s_showLabels :: bool
  s_offsetGridLines :: bool
  s_beginAtZero :: bool
  s_integersOnly :: bool
  s_override :: bool
  s_template :: jsval
  s_textColor :: jsval
  s_lineWidth :: jsval
  s_lineColor :: jsval
  s_gridLineWidth :: jsval
  s_gridLineColor :: jsval
  s_valuesCount :: int
  s_xLabels :: "jsval list"
  s_steps :: jsnum
  s_stepValue :: jsnum
  s_min :: jsnum
  s_max :: jsnum
  s_startPoint :: jsnum
  s_endPoint :: jsnum
  s_yLabels :: "jsval list"
  s_yLabelWidth :: jsnum
  s_xLabelRotation :: nat
  s_xLabelWidth :: jsnum
  s_xScalePaddingLeft :: jsnum
  s_xScalePaddingRight :: jsnum

subsection \<open>Positions\<close>

definition drawingArea :: "scale \<Rightarrow> jsnum" where
  "drawingArea s = s_startPoint s - s_endPoint s"

definition calculateY :: "scale \<Rightarrow> jsnum \<Rightarrow> jsnum" where
  "calculateY s value =
     (let scalingFactor = drawingArea s / (s_min s - s_max s)
      in s_endPoint s - (scalingFactor * (value - s_min s)))"

definition calculateX :: "scale \<Rightarrow> jsnum \<Rightarrow> jsnum" where
  "calculateX s index =
     (let innerWidth = s_width s - (s_xScalePaddingLeft s + s_xScalePaddingRight s);
          valueWidth = innerWidth / (Fin (of_int (s_valuesCount s)) - (if s_offsetGridLines s then 0 else 1));
          valueOffset = (valueWidth * index) + s_xScalePaddingLeft s;
          valueOffset = (if s_offsetGridLines s then valueOffset + (valueWidth / 2) else valueOffset)
      in Math_round valueOffset)"

subsection \<open>Labels\<close>

text \<open>The number of passes of \<open>for (i = 0; i <= steps; i++)\<close>; \<open>None\<close> when it does not end.\<close>

definition label_count :: "jsnum \<Rightarrow> nat option" where
  "label_count n =
     (case n of Fin r \<Rightarrow> Some (nat (\<lfloor>r\<rfloor> + 1)) | PInf \<Rightarrow> None | _ \<Rightarrow> Some 0)"

definition yLabel :: "env \<Rightarrow> scale \<Rightarrow> nat \<Rightarrow> nat \<Rightarrow> jsval" where
  "yLabel E s places i =
     tmpl E (s_template s) [(''value'', JStr (toFixed E (s_min s + (Fin (real i) * s_stepValue s)) places))]"

definition buildYLabels :: "env \<Rightarrow> scale \<Rightarrow> (jserr + scale) option" where
  "buildYLabels E s =
     (case getDecimalPlaces (num_str E) (s_stepValue s) of
        Inl err \<Rightarrow> Some (Inl err)
      | Inr stepDecimalPlaces \<Rightarrow>
          (case label_count (s_steps s) of
             None \<Rightarrow> None
           | Some n \<Rightarrow>
               (let labels = map (yLabel E s stepDecimalPlaces) [0..<n]
                in Some (Inr (s\<lparr>s_yLabels := labels,
                     s_yLabelWidth := (if s_display s \<and> s_showLabels s then longestText E (s_font s) labels else 0)\<rparr>)))))"

text \<open>
  The loop of \<open>calculateXLabelRotation\<close>; the rotation counts whole degrees from 0, so it is a
  natural number.
\<close>

definition rotation_step :: "jsnum \<Rightarrow> jsnum \<Rightarrow> scale \<Rightarrow> scale" where
  "rotation_step originalLabelWidth firstWidth s =
     (let cosRotation = Math_cos (toRadians (Fin (real (s_xLabelRotation s))));
          firstRotated = cosRotation * firstWidth
      in s\<lparr>s_xScalePaddingLeft :=
             (if s_yLabelWidth s + 8 < firstRotated + s_fontSize s / 2
              then firstRotated + s_fontSize s / 2 else s_xScalePaddingLeft s),
           s_xScalePaddingRight := s_fontSize s / 2,
           s_xLabelRotation := Suc (s_xLabelRotation s),
           s_xLabelWidth := cosRotation * originalLabelWidth\<rparr>)"

function rotation_loop :: "jsnum \<Rightarrow> jsnum \<Rightarrow> jsnum \<Rightarrow> scale \<Rightarrow> scale" where
  "rotation_loop xGridWidth originalLabelWidth firstWidth s =
     (if (xGridWidth < s_xLabelWidth s \<and> s_xLabelRotation s = 0) \<or>
         (xGridWidth < s_xLabelWidth s \<and> s_xLabelRotation s \<le> 90 \<and> 0 < s_xLabelRotation s)
      then rotation_loop xGridWidth originalLabelWidth firstWidth (rotation_step originalLabelWidth firstWidth s)
      else s)"
  by pat_completeness auto
termination
  by (relation "measure (\<lambda>(g, ow, f, s). 91 - s_xLabelRotation s)") (auto simp: rotation_step_def Let_def)

declare rotation_loop.simps [simp del]

definition label_at :: "jsval list \<Rightarrow> nat \<Rightarrow> jsval" where
  "label_at labels i = (case idx labels i of None \<Rightarrow> JUndef | Some v \<Rightarrow> v)"

text \<open>The paddings before any rotation.\<close>

definition rotation_start :: "env \<Rightarrow> scale \<Rightarrow> scale" where
  "rotation_start E s =
     (let firstWidth = measureText E (s_font s) (label_at (s_xLabels s) 0);
          lastWidth = measureText E (s_font s)
            (if s_xLabels s = [] then JUndef else label_at (s_xLabels s) (length (s_xLabels s) - 1))
      in s\<lparr>s_xScalePaddingRight := lastWidth / 2 + 3,
           s_xScalePaddingLeft := (if s_yLabelWidth s + 10 < firstWidth / 2 then firstWidth / 2 else s_yLabelWidth s + 10),
           s_xLabelRotation := 0\<rparr>)"

definition calculateXLabelRotation :: "env \<Rightarrow> scale \<Rightarrow> scale" where
  "calculateXLabelRotation E s =
     (let firstWidth = measureText E (s_font s) (label_at (s_xLabels s) 0);
          s = rotation_start E s
      in if s_display s then
           (let originalLabelWidth = longestText E (s_font s) (s_xLabels s);
                s = s\<lparr>s_xLabelWidth := originalLabelWidth\<rparr>;
                xGridWidth = Math_floor (calculateX s 1 - calculateX s 0) - 6;
                s = rotation_loop xGridWidth originalLabelWidth firstWidth s
            in if 0 < s_xLabelRotation s
               then s\<lparr>s_endPoint := s_endPoint s -
                       (Math_sin (toRadians (Fin (real (s_xLabelRotation s)))) * originalLabelWidth + 3)\<rparr>
               else s)
         else s\<lparr>s_xLabelWidth := 0, s_xScalePaddingRight := s_padding s, s_xScalePaddingLeft := s_padding s\<rparr>)"

subsection \<open>Fitting\<close>

definition calculateYRange :: "jsval list \<Rightarrow> jsnum \<Rightarrow> scale \<Rightarrow> scale option" where
  "calculateYRange data currentHeight s =
     (if s_override s then Some s
      else map_option
        (\<lambda>r. s\<lparr>s_steps := steps r, s_stepValue := stepValue r, s_min := range_min r, s_max := range_max r\<rparr>)
        (calculateScaleRange data currentHeight (s_fontSize s) (s_beginAtZero s) (s_integersOnly s)))"

text \<open>Range and labels for a height, as \<open>fit\<close> computes them before and inside its loop.\<close>

definition range_and_labels :: "env \<Rightarrow> jsval list \<Rightarrow> jsnum \<Rightarrow> scale \<Rightarrow> (jserr + scale) option" where
  "range_and_labels E data cachedHeight s =
     (case calculateYRange data cachedHeight s of None \<Rightarrow> None | Some s \<Rightarrow> buildYLabels E s)"

partial_function (option) fit_while :: "env \<Rightarrow> jsval list \<Rightarrow> jsnum \<Rightarrow> scale \<Rightarrow> (jserr + scale) option" where
  "fit_while E data cachedHeight s =
     (if s_endPoint s - s_startPoint s < cachedHeight then
        (case range_and_labels E data (s_endPoint s - s_startPoint s) s of
           None \<Rightarrow> None
         | Some (Inl err) \<Rightarrow> Some (Inl err)
         | Some (Inr s') \<Rightarrow>
             fit_while E data (s_endPoint s - s_startPoint s)
               (if s_yLabelWidth s < s_yLabelWidth s' then calculateXLabelRotation E s' else s'))
      else Some (Inr s))"

definition init_points :: "scale \<Rightarrow> scale" where
  "init_points s =
     s\<lparr>s_startPoint := (if s_display s then s_fontSize s else 0) + s_padding s,
       s_endPoint := (if s_display s then s_height s - (s_fontSize s * Fin (3 / 2)) - 5 else s_height s) - s_padding s\<rparr>"

definition fit :: "env \<Rightarrow> jsval list \<Rightarrow> scale \<Rightarrow> (jserr + scale) option" where
  "fit E data s =
     (let s = init_points s;
          cachedHeight = s_endPoint s - s_startPoint s
      in case range_and_labels E data cachedHeight s of
           None \<Rightarrow> None
         | Some (Inl err) \<Rightarrow> Some (Inl err)
         | Some (Inr s) \<Rightarrow> fit_while E data cachedHeight (calculateXLabelRotation E s))"

definition addXLabel :: "env \<Rightarrow> jsval list \<Rightarrow> jsval \<Rightarrow> scale \<Rightarrow> (jserr + scale) option" where
  "addXLabel E data label s =
     fit E data (s\<lparr>s_xLabels := s_xLabels s @ [label], s_valuesCount := s_valuesCount s + 1\<rparr>)"

definition removeXLabel :: "env \<Rightarrow> jsval list \<Rightarrow> scale \<Rightarrow> (jserr + scale) option" where
  "removeXLabel E data s =
     fit E data (s\<lparr>s_xLabels := js_shift (s_xLabels s), s_valuesCount := s_valuesCount s - 1\<rparr>)"

text \<open>\<open>update\<close> is only called with a new height and width.\<close>

definition scale_update :: "env \<Rightarrow> jsval list \<Rightarrow> jsnum \<Rightarrow> jsnum \<Rightarrow> scale \<Rightarrow> (jserr + scale) option" where
  "scale_update E data height width s = fit E data (s\<lparr>s_height := height, s_width := width\<rparr>)"

subsection \<open>Drawing\<close>

text \<open>
  The grid line and the tick of the \<open>index\<close>-th label of the vertical axis; \<open>cs\<close> holds the
  commands issued so far, from which \<open>ctx.lineWidth\<close> is read back.
\<close>

definition draw_yLabel :: "scale \<Rightarrow> jsval \<Rightarrow> nat \<Rightarrow> cmd list \<Rightarrow> cmd list" where
  "draw_yLabel s labelString index cs =
     (let yLabelGap = (s_endPoint s - s_startPoint s) / s_steps s;
          xStart = Math_round (s_xScalePaddingLeft s);
          yLabelCenter = s_endPoint s - (yLabelGap * Fin (real index));
          linePositionY = Math_round yLabelCenter;
          cs = cs @ [SetP ''textAlign'' (JStr ''right''), SetP ''textBaseline'' (JStr ''middle'')]
                @ (if s_showLabels s then [FillText labelString (xStart - 10) yLabelCenter] else [])
                @ [BeginPath]
                @ (if index > 0
                   then [SetP ''lineWidth'' (s_gridLineWidth s), SetP ''strokeStyle'' (s_gridLineColor s)]
                   else [SetP ''lineWidth'' (s_lineWidth s), SetP ''strokeStyle'' (s_lineColor s)]);
          linePositionY = linePositionY + aliasPixel (line_width cs)
      in cs @ [MoveTo xStart linePositionY, LineTo (s_width s) linePositionY, Stroke, ClosePath,
                SetP ''lineWidth'' (s_lineWidth s), SetP ''strokeStyle'' (s_lineColor s), BeginPath,
                MoveTo (xStart - 5) linePositionY, LineTo xStart linePositionY, Stroke, ClosePath])"

definition draw_xLabel :: "scale \<Rightarrow> jsval \<Rightarrow> nat \<Rightarrow> cmd list \<Rightarrow> cmd list" where
  "draw_xLabel s label index cs =
     (let xPos = calculateX s (Fin (real index)) + aliasPixel (to_number (s_lineWidth s));
          linePos = calculateX s (Fin (real index) - (if s_offsetGridLines s then Fin (1 / 2) else 0))
                      + aliasPixel (to_number (s_lineWidth s));
          isRotated = (0 < s_xLabelRotation s)
      in cs @ [BeginPath]
         @ (if index > 0
            then [SetP ''lineWidth'' (s_gridLineWidth s), SetP ''strokeStyle'' (s_gridLineColor s)]
            else [SetP ''lineWidth'' (s_lineWidth s), SetP ''strokeStyle'' (s_lineColor s)])
         @ [MoveTo linePos (s_endPoint s), LineTo linePos (s_startPoint s - 3), Stroke, ClosePath,
            SetP ''lineWidth'' (s_lineWidth s), SetP ''strokeStyle'' (s_lineColor s),
            BeginPath, MoveTo linePos (s_endPoint s), LineTo linePos (s_endPoint s + 5), Stroke, ClosePath,
            Save,
            Translate xPos (if isRotated then s_endPoint s + 12 else s_endPoint s + 8),
            Rotate (toRadians (Fin (real (s_xLabelRotation s))) * - 1),
            SetP ''font'' (s_font s),
            SetP ''textAlign'' (JStr (if isRotated then ''right'' else ''center'')),
            SetP ''textBaseline'' (JStr (if isRotated then ''middle'' else ''top'')),
            FillText label 0 0,
            Restore])"

definition scale_draw :: "scale \<Rightarrow> cmd list \<Rightarrow> cmd list" where
  "scale_draw s cs =
     (if s_display s then
        (let cs = cs @ [SetP ''fillStyle'' (s_textColor s), SetP ''font'' (s_font s)];
             cs = each_arr (draw_yLabel s) (s_yLabels s) cs
         in each_arr (draw_xLabel s) (s_xLabels s) cs)
      else cs)"

subsection \<open>What the steps of fitting change\<close>

text \<open>Everything but what the rotation of the labels decides.\<close>

definition unrotated :: "scale \<Rightarrow> scale" where
  "unrotated s = s\<lparr>s_xLabelRotation := 0, s_xLabelWidth := 0, s_xScalePaddingLeft := 0, s_xScalePaddingRight := 0\<rparr>"

lemma unrotated_endPoint: "unrotated (s\<lparr>s_endPoint := x\<rparr>) = (unrotated s)\<lparr>s_endPoint := x\<rparr>"
  by (cases s) (simp add: unrotated_def)

lemma rotation_step_simps [scale_simps]:
  "unrotated (rotation_step ow f s) = unrotated s"
  "s_xLabelRotation (rotation_step ow f s) = Suc (s_xLabelRotation s)"
  by (simp_all add: unrotated_def rotation_step_def Let_def)

lemma rotation_loop_ends:
  "unrotated (rotation_loop g ow f s) = unrotated s \<and>
   (s_xLabelRotation s \<le> 91 \<longrightarrow> s_xLabelRotation (rotation_loop g ow f s) \<le> 91) \<and>
   (s_xLabelRotation (rotation_loop g ow f s) \<le> 90 \<longrightarrow> \<not> g < s_xLabelWidth (rotation_loop g ow f s))"
proof (induction g ow f s rule: rotation_loop.induct)
  case (1 g ow f s)
  show ?case
  proof (cases "g < s_xLabelWidth s \<and> s_xLabelRotation s \<le> 90")
    case True
    then have c: "(g < s_xLabelWidth s \<and> s_xLabelRotation s = 0) \<or>
        (g < s_xLabelWidth s \<and> s_xLabelRotation s \<le> 90 \<and> 0 < s_xLabelRotation s)" by auto
    then have "rotation_loop g ow f s = rotation_loop g ow f (rotation_step ow f s)"
      by (subst rotation_loop.simps) (rule if_P)
    with 1 [OF c] True show ?thesis by (simp add: scale_simps)
  next
    case False
    then have "rotation_loop g ow f s = s"
      by (subst rotation_loop.simps) auto
    with False show ?thesis by auto
  qed
qed

text \<open>What decides the labels and is never changed by \<open>fit\<close>.\<close>

definition label_cfg :: "scale \<Rightarrow> jsnum \<times> jsval \<times> bool \<times> bool \<times> bool \<times> bool \<times> bool \<times> jsval" where
  "label_cfg s = (s_fontSize s, s_font s, s_display s, s_showLabels s, s_override s, s_beginAtZero s,
     s_integersOnly s, s_template s)"

lemma unrotated_eqD:
  assumes "unrotated s = unrotated t"
  shows "s_endPoint s = s_endPoint t" "s_startPoint s = s_startPoint t" "label_cfg s = label_cfg t"
    "s_yLabelWidth s = s_yLabelWidth t" "s_display s = s_display t" "s_xLabels s = s_xLabels t"
    "s_yLabels s = s_yLabels t" "s_steps s = s_steps t" "s_min s = s_min t" "s_max s = s_max t"
    "s_stepValue s = s_stepValue t"
proof -
  have eq: "f (unrotated s) = f (unrotated t)" for f :: "scale \<Rightarrow> 'b" using assms by simp
  show "s_endPoint s = s_endPoint t" using eq [of s_endPoint] by (simp add: unrotated_def)
  show "s_startPoint s = s_startPoint t" using eq [of s_startPoint] by (simp add: unrotated_def)
  show "label_cfg s = label_cfg t" using eq [of label_cfg] by (simp add: unrotated_def label_cfg_def)
  show "s_yLabelWidth s = s_yLabelWidth t" using eq [of s_yLabelWidth] by (simp add: unrotated_def)
  show "s_display s = s_display t" using eq [of s_display] by (simp add: unrotated_def)
  show "s_xLabels s = s_xLabels t" using eq [of s_xLabels] by (simp add: unrotated_def)
  show "s_yLabels s = s_yLabels t" using eq [of s_yLabels] by (simp add: unrotated_def)
  show "s_steps s = s_steps t" using eq [of s_steps] by (simp add: unrotated_def)
  show "s_min s = s_min t" using eq [of s_min] by (simp add: unrotated_def)
  show "s_max s = s_max t" using eq [of s_max] by (simp add: unrotated_def)
  show "s_stepValue s = s_stepValue t" using eq [of s_stepValue] by (simp add: unrotated_def)
qed

text \<open>The behaviour of \<open>measureText\<close> that fitting relies on: a width is a number of pixels.\<close>

definition text_widths :: "env \<Rightarrow> bool" where
  "text_widths E = (\<forall>font text. \<exists>w. measureText E font text = Fin w \<and> 0 \<le> w)"

lemma longestText_nonneg:
  assumes "text_widths E"
  shows "\<exists>w. longestText E font ss = Fin w \<and> 0 \<le> w"
proof -
  obtain w where w: "\<And>t. measureText E font t = Fin (w t)" "\<And>t. 0 \<le> w t"
    using assms unfolding text_widths_def by metis
  have "longestText E font ss = Fin (Max (insert 0 (w ` set ss)))"
    by (rule longestText_Fin) (rule w)
  moreover have "0 \<le> Max (insert 0 (w ` set ss))" by (rule Max_ge) simp_all
  ultimately show ?thesis by blast
qed

lemma calculateXLabelRotation_effect:
  assumes "text_widths E" "s_endPoint s = Fin e" "t = calculateXLabelRotation E s"
  shows "\<exists>e'. s_endPoint t = Fin e' \<and> (e' = e \<or> e' \<le> e - 3) \<and>
    unrotated (t\<lparr>s_endPoint := 0\<rparr>) = unrotated (s\<lparr>s_endPoint := 0\<rparr>) \<and> s_xLabelRotation t \<le> 91"
proof (cases "s_display s")
  case False
  then have "t = s\<lparr>s_xScalePaddingRight := s_padding s, s_xScalePaddingLeft := s_padding s,
      s_xLabelRotation := 0, s_xLabelWidth := 0\<rparr>"
    using assms(3) by (simp add: calculateXLabelRotation_def rotation_start_def Let_def)
  with assms(2) show ?thesis by (simp add: unrotated_def)
next
  case True
  define ow where "ow = longestText E (s_font s) (s_xLabels s)"
  obtain w where w: "ow = Fin w" "0 \<le> w" using longestText_nonneg [OF assms(1)] ow_def by blast
  define s0 where "s0 = (rotation_start E s)\<lparr>s_xLabelWidth := ow\<rparr>"
  define g where "g = Math_floor (calculateX s0 1 - calculateX s0 0) - 6"
  define f where "f = measureText E (s_font s) (label_at (s_xLabels s) 0)"
  have s0: "unrotated s0 = unrotated s" "s_xLabelRotation s0 = 0"
    by (simp_all add: s0_def rotation_start_def unrotated_def Let_def)
  have same: "s_display (rotation_start E s) = s_display s" "s_font (rotation_start E s) = s_font s"
    "s_xLabels (rotation_start E s) = s_xLabels s"
    by (simp_all add: rotation_start_def Let_def)
  define u where "u = rotation_loop g ow f s0"
  have t: "t = (if 0 < s_xLabelRotation u
           then u\<lparr>s_endPoint := s_endPoint u - (Math_sin (toRadians (Fin (real (s_xLabelRotation u)))) * ow + 3)\<rparr>
           else u)"
    unfolding assms(3) calculateXLabelRotation_def Let_def same if_P [OF True]
    by (simp only: ow_def [symmetric] s0_def [symmetric] g_def [symmetric] f_def [symmetric] u_def [symmetric])
  have u: "unrotated u = unrotated s" "s_xLabelRotation u \<le> 91"
    using rotation_loop_ends [of g ow f s0] s0 unfolding u_def by auto
  let ?a = "real (s_xLabelRotation u) * (pi / 180)"
  have "real (s_xLabelRotation u) / 180 \<le> 1" using u(2) by simp
  from mult_right_mono [OF this, of pi] have "0 \<le> sin ?a"
    by (intro sin_ge_zero) simp_all
  then have d: "3 \<le> sin ?a * w + 3" using w(2) by simp
  have e: "s_endPoint u = Fin e" using unrotated_eqD(1) [OF u(1)] assms(2) by simp
  have shape: "unrotated (u\<lparr>s_endPoint := 0\<rparr>) = unrotated (s\<lparr>s_endPoint := 0\<rparr>)"
    by (simp only: unrotated_endPoint u(1))
  show ?thesis
  proof (cases "0 < s_xLabelRotation u")
    case True
    then have "t = u\<lparr>s_endPoint := Fin (e - (sin ?a * w + 3))\<rparr>"
      using t e w(1) by (simp add: toRadians_def)
    with d shape u(2) show ?thesis by (intro exI [of _ "e - (sin ?a * w + 3)"]) simp
  next
    case False
    then have "t = u" using t by simp
    with e shape u(2) show ?thesis by simp
  qed
qed

lemma shape_eqD:
  assumes "unrotated (s\<lparr>s_endPoint := 0\<rparr>) = unrotated (t\<lparr>s_endPoint := 0\<rparr>)"
  shows "s_startPoint s = s_startPoint t" "label_cfg s = label_cfg t" "s_yLabelWidth s = s_yLabelWidth t"
    "s_yLabels s = s_yLabels t" "s_steps s = s_steps t" "s_min s = s_min t" "s_max s = s_max t"
    "s_stepValue s = s_stepValue t"
  using unrotated_eqD [OF assms] by (simp_all add: label_cfg_def)

text \<open>A scale with a proper range and one label per step.\<close>

definition ranged :: "scale \<Rightarrow> bool" where
  "ranged s \<longleftrightarrow> (\<exists>n sv lo. 1 \<le> n \<and> 0 < sv \<and> s_steps s = Fin (of_int n) \<and> s_stepValue s = Fin sv \<and>
     s_min s = Fin lo \<and> s_max s = Fin (lo + of_int n * sv) \<and> length (s_yLabels s) = nat (n + 1))"

lemma ranged_cong:
  assumes "unrotated (s\<lparr>s_endPoint := 0\<rparr>) = unrotated (t\<lparr>s_endPoint := 0\<rparr>)"
  shows "ranged s = ranged t"
  unfolding ranged_def shape_eqD [OF assms] ..

text \<open>Range and labels at a given height, on finite data.\<close>

definition fitting_data :: "scale \<Rightarrow> real list \<Rightarrow> real \<Rightarrow> bool" where
  "fitting_data s vs ts \<longleftrightarrow> vs \<noteq> [] \<and> s_fontSize s = Fin ts \<and> 0 < ts \<and> \<not> s_override s \<and>
     (\<not> s_beginAtZero s \<or> (\<exists>v \<in> set vs. 0 < v))"

lemma fitting_data_cong: "label_cfg s = label_cfg t \<Longrightarrow> fitting_data s vs ts = fitting_data t vs ts"
  by (auto simp: fitting_data_def label_cfg_def)

definition small_width :: "env \<Rightarrow> scale \<Rightarrow> real list \<Rightarrow> jsnum" where
  "small_width E s vs =
     (let z = s_beginAtZero s; sv = (graph_max z vs - graph_min z vs) / 2
      in case getDecimalPlaces (num_str E) (Fin sv) of
           Inl _ \<Rightarrow> 0
         | Inr k \<Rightarrow>
             if s_display s \<and> s_showLabels s
             then longestText E (s_font s) (map (\<lambda>i. tmpl E (s_template s)
                    [(''value'', JStr (toFixed E (Fin (graph_min z vs) + Fin (real i) * Fin sv) k))]) [0..<3])
             else 0)"

lemma small_width_cong: "label_cfg s = label_cfg t \<Longrightarrow> small_width E s vs = small_width E t vs"
  unfolding small_width_def label_cfg_def Let_def by (auto split: sum.split)

lemma range_and_labels_returns:
  assumes "fitting_data s vs ts"
  shows "\<exists>r. range_and_labels E (jnums vs) (Fin h) s = Some r \<and>
    (\<forall>t. r = Inr t \<longrightarrow> label_cfg t = label_cfg s \<and> s_endPoint t = s_endPoint s \<and> s_startPoint t = s_startPoint s \<and>
       ranged t \<and> (max_steps h ts \<le> 2 \<longrightarrow> s_yLabelWidth t = small_width E s vs))"
proof -
  let ?z = "s_beginAtZero s"
  obtain n sv where o: "calculateScaleRange (jnums vs) (Fin h) (s_fontSize s) ?z (s_integersOnly s) =
      Some \<lparr>steps = Fin (of_int n), stepValue = Fin sv, range_min = Fin (graph_min ?z vs),
            range_max = Fin (graph_min ?z vs + of_int n * sv)\<rparr>"
    and pos: "0 < sv" "1 \<le> n"
    and small: "max_steps h ts \<le> 2 \<longrightarrow> n = 2 \<and> graph_min ?z vs + of_int n * sv = graph_max ?z vs"
    using calculateScaleRange_outcome [of vs ts ?z h "s_integersOnly s"] assms by (auto simp: fitting_data_def)
  define D where "D = (graph_max ?z vs - graph_min ?z vs) / 2"
  have sv: "n = 2 \<and> sv = D" if "max_steps h ts \<le> 2"
    using small that by (auto simp: D_def)
  define s1 where "s1 = s\<lparr>s_steps := Fin (of_int n), s_stepValue := Fin sv, s_min := Fin (graph_min ?z vs),
      s_max := Fin (graph_min ?z vs + of_int n * sv)\<rparr>"
  have "range_and_labels E (jnums vs) (Fin h) s = buildYLabels E s1"
    using assms o by (simp add: range_and_labels_def calculateYRange_def fitting_data_def s1_def)
  also have "\<dots> = Some (case getDecimalPlaces (num_str E) (Fin sv) of
      Inl err \<Rightarrow> Inl err
    | Inr k \<Rightarrow> (let labels = map (yLabel E s1 k) [0..<nat (n + 1)]
                in Inr (s1\<lparr>s_yLabels := labels,
                     s_yLabelWidth := (if s_display s1 \<and> s_showLabels s1 then longestText E (s_font s1) labels else 0)\<rparr>)))"
    by (simp add: buildYLabels_def s1_def label_count_def Let_def split: sum.splits)
  finally have eq: "range_and_labels E (jnums vs) (Fin h) s = \<dots>" .
  show ?thesis
  proof (cases "getDecimalPlaces (num_str E) (Fin sv)")
    case (Inr k)
    have "s_yLabelWidth t = small_width E s vs"
      if "range_and_labels E (jnums vs) (Fin h) s = Some (Inr t)" "max_steps h ts \<le> 2" for t
      using eq Inr sv [OF that(2)] that(1)
      by (auto simp: s1_def small_width_def D_def [symmetric] yLabel_def [abs_def] Let_def)
    with Inr eq pos show ?thesis by (auto simp: s1_def label_cfg_def ranged_def Let_def)
  qed (simp add: eq)
qed

subsection \<open>Fitting ends\<close>

lemma fit_while_done: "\<not> s_endPoint s - s_startPoint s < h \<Longrightarrow> fit_while E d h s = Some (Inr s)"
  by (subst fit_while.simps) simp

lemma rotated_scale:
  assumes "text_widths E" "s_endPoint t = Fin e" "label_cfg t = label_cfg s"
    and "u = (if b then calculateXLabelRotation E t else t)"
  shows "\<exists>e'. s_endPoint u = Fin e' \<and> (e' = e \<or> e' \<le> e - 3) \<and> s_startPoint u = s_startPoint t \<and>
    label_cfg u = label_cfg s \<and> s_yLabelWidth u = s_yLabelWidth t \<and>
    ranged u = ranged t \<and> (\<not> b \<longrightarrow> e' = e)"
proof (cases b)
  case True
  then have u: "u = calculateXLabelRotation E t" using assms(4) by simp
  from calculateXLabelRotation_effect [OF assms(1,2) u] obtain e'
    where e': "s_endPoint u = Fin e'" "e' = e \<or> e' \<le> e - 3"
    and sh: "unrotated (u\<lparr>s_endPoint := 0\<rparr>) = unrotated (t\<lparr>s_endPoint := 0\<rparr>)"
    by blast
  show ?thesis
    using e' shape_eqD(1-3) [OF sh] ranged_cong [OF sh] True assms(3) by (intro exI [of _ e']) simp
next
  case False
  then show ?thesis using assms(2-4) by (intro exI [of _ e]) simp
qed

lemma fit_while_step:
  assumes "text_widths E" "fitting_data s vs ts" "s_endPoint s = Fin e" "s_startPoint s = Fin a" "e - a < h"
  shows "(\<exists>err. fit_while E (jnums vs) (Fin h) s = Some (Inl err)) \<or>
    (\<exists>u e'. fit_while E (jnums vs) (Fin h) s = fit_while E (jnums vs) (Fin (e - a)) u \<and>
       label_cfg u = label_cfg s \<and> s_endPoint u = Fin e' \<and> s_startPoint u = Fin a \<and> \<not> (e' \<noteq> e \<and> e - 3 < e') \<and>
       ranged u \<and>
       (max_steps (e - a) ts \<le> 2 \<longrightarrow> s_yLabelWidth u = small_width E s vs \<and>
          (s_yLabelWidth s = small_width E s vs \<longrightarrow> e' = e)))"
proof -
  obtain r where r: "range_and_labels E (jnums vs) (Fin (e - a)) s = Some r"
    and t: "\<And>t. r = Inr t \<Longrightarrow> label_cfg t = label_cfg s \<and> s_endPoint t = s_endPoint s \<and>
      s_startPoint t = s_startPoint s \<and> ranged t \<and> (max_steps (e - a) ts \<le> 2 \<longrightarrow> s_yLabelWidth t = small_width E s vs)"
    using range_and_labels_returns [OF assms(2), of E "e - a"] by blast
  have unfold: "fit_while E (jnums vs) (Fin h) s = (case r of Inl err \<Rightarrow> Some (Inl err)
     | Inr t \<Rightarrow> fit_while E (jnums vs) (Fin (e - a))
         (if s_yLabelWidth s < s_yLabelWidth t then calculateXLabelRotation E t else t))"
    using r assms(3-5) by (subst fit_while.simps) (simp split: sum.split)
  show ?thesis
  proof (cases r)
    case (Inr t')
    let ?b = "s_yLabelWidth s < s_yLabelWidth t'"
    define u where "u = (if ?b then calculateXLabelRotation E t' else t')"
    have irrefl: "\<not> w < w" for w :: jsnum by (cases w) simp_all
    from t [OF Inr] assms(3,4) rotated_scale [OF assms(1) _ _ u_def, of e s] irrefl
    obtain e' where "s_endPoint u = Fin e'" "e' = e \<or> e' \<le> e - 3" "s_startPoint u = Fin a"
      "label_cfg u = label_cfg s" "s_yLabelWidth u = s_yLabelWidth t'" "\<not> ?b \<longrightarrow> e' = e"
      "ranged u"
      by auto
    moreover have "fit_while E (jnums vs) (Fin h) s = fit_while E (jnums vs) (Fin (e - a)) u"
      using unfold Inr by (simp add: u_def)
    ultimately show ?thesis using t [OF Inr] irrefl [of "small_width E s vs"]
      by (intro disjI2 exI [of _ u]) (rule exI [of _ e'], auto)
  qed (simp add: unfold)
qed

lemma max_steps_small: "0 < ts \<Longrightarrow> x < 9 / 2 * ts \<Longrightarrow> max_steps x ts \<le> 2"
proof -
  assume "0 < ts" "x < 9 / 2 * ts"
  then have "x / (ts * (3 / 2)) < 3" by (simp add: field_simps)
  then show ?thesis unfolding max_steps_def by linarith
qed

text \<open>The loop returns, and what it returns is ranged and no higher than the scale it started with.\<close>

definition fitted :: "scale \<Rightarrow> real \<Rightarrow> real \<Rightarrow> (jserr + scale) option \<Rightarrow> bool" where
  "fitted s e a r \<longleftrightarrow> (\<exists>x. r = Some x \<and> (\<forall>t. x = Inr t \<longrightarrow> ranged t \<and> label_cfg t = label_cfg s \<and>
     s_startPoint t = Fin a \<and> (\<exists>e'. s_endPoint t = Fin e' \<and> e' \<le> e)))"

lemma fitted_done:
  assumes "s_endPoint s = Fin e" "s_startPoint s = Fin a" "ranged s" "\<not> e - a < h"
  shows "fitted s e a (fit_while E d (Fin h) s)"
  using assms fit_while_done [of s "Fin h" E d] by (simp add: fitted_def)

lemma fitted_mono: "fitted u e' a r \<Longrightarrow> label_cfg u = label_cfg s \<Longrightarrow> e' \<le> e \<Longrightarrow> fitted s e a r"
  by (fastforce simp: fitted_def)

lemma fitted_err [simp]: "fitted s e a (Some (Inl err))"
  by (simp add: fitted_def)

lemma fit_while_small:
  assumes "text_widths E" "fitting_data s vs ts" "s_endPoint s = Fin e" "s_startPoint s = Fin a" "ranged s"
    and "e - a < 9 / 2 * ts"
  shows "fitted s e a (fit_while E (jnums vs) (Fin h) s)"
proof -
  have ts: "0 < ts" using assms(2) by (simp add: fitting_data_def)
  have small: "max_steps x ts \<le> 2" if "x \<le> e - a" for x
    using max_steps_small [OF ts] that assms(6) by simp
  have last: "fitted u e' a (fit_while E (jnums vs) (Fin g) u)"
    if "label_cfg u = label_cfg s" "s_endPoint u = Fin e'" "s_startPoint u = Fin a" "e' \<le> e"
      "s_yLabelWidth u = small_width E s vs" "ranged u" for g u e'
  proof (cases "e' - a < g")
    case True
    have fd: "fitting_data u vs ts" using fitting_data_cong [OF that(1)] assms(2) by simp
    have w: "s_yLabelWidth u = small_width E u vs" using small_width_cong [OF that(1)] that(5) by simp
    have m: "max_steps (e' - a) ts \<le> 2" using small that(4) by simp
    from fit_while_step [OF assms(1) fd that(2,3) True] show ?thesis
    proof (elim disjE exE conjE)
      fix v e''
      assume v: "fit_while E (jnums vs) (Fin g) u = fit_while E (jnums vs) (Fin (e' - a)) v"
        "label_cfg v = label_cfg u" "s_endPoint v = Fin e''" "s_startPoint v = Fin a" "ranged v"
        "max_steps (e' - a) ts \<le> 2 \<longrightarrow> s_yLabelWidth v = small_width E u vs \<and>
           (s_yLabelWidth u = small_width E u vs \<longrightarrow> e'' = e')"
      with m w have "e'' = e'" by simp
      then show "fitted u e' a (fit_while E (jnums vs) (Fin g) u)"
        using fitted_mono [OF fitted_done [OF v(3,4,5)] v(2)] v(1) by simp
    qed simp_all
  qed (use that in \<open>simp add: fitted_done\<close>)
  show ?thesis
  proof (cases "e - a < h")
    case True
    from fit_while_step [OF assms(1-4) True] show ?thesis
    proof (elim disjE exE conjE)
      fix u e'
      assume u: "fit_while E (jnums vs) (Fin h) s = fit_while E (jnums vs) (Fin (e - a)) u"
        "label_cfg u = label_cfg s" "s_endPoint u = Fin e'" "s_startPoint u = Fin a" "ranged u"
        "max_steps (e - a) ts \<le> 2 \<longrightarrow> s_yLabelWidth u = small_width E s vs \<and>
           (s_yLabelWidth s = small_width E s vs \<longrightarrow> e' = e)"
      assume "\<not> (e' \<noteq> e \<and> e - 3 < e')"
      then have "e' \<le> e" by auto
      moreover have "s_yLabelWidth u = small_width E s vs" using u(6) small by simp
      ultimately show ?thesis using fitted_mono [OF last [OF u(2-4)] u(2)] u(1,5) by simp
    qed simp_all
  qed (use assms in \<open>simp add: fitted_done\<close>)
qed

lemma fit_while_returns:
  assumes "text_widths E" "fitting_data s vs ts" "s_endPoint s = Fin e" "s_startPoint s = Fin a" "ranged s"
    and "e - a < 9 / 2 * ts + 3 * real n"
  shows "fitted s e a (fit_while E (jnums vs) (Fin h) s)"
  using assms(2-)
proof (induction n arbitrary: s e h)
  case 0
  then show ?case using fit_while_small [OF assms(1)] by simp
next
  case (Suc n)
  show ?case
  proof (cases "e - a < h")
    case True
    from fit_while_step [OF assms(1) Suc.prems(1-3) True] show ?thesis
    proof (elim disjE exE conjE)
      fix u e'
      assume u: "fit_while E (jnums vs) (Fin h) s = fit_while E (jnums vs) (Fin (e - a)) u"
        "label_cfg u = label_cfg s" "s_endPoint u = Fin e'" "s_startPoint u = Fin a" "ranged u"
      have fd: "fitting_data u vs ts" using fitting_data_cong [OF u(2)] Suc.prems(1) by simp
      assume "\<not> (e' \<noteq> e \<and> e - 3 < e')"
      then consider "e' = e" | "e' \<le> e - 3" by linarith
      then show ?thesis
      proof cases
        case 1
        then show ?thesis using fitted_mono [OF fitted_done [OF u(3,4,5)] u(2)] u(1) by simp
      next
        case 2
        then have "e' - a < 9 / 2 * ts + 3 * real n" using Suc.prems(5) by simp
        from fitted_mono [OF Suc.IH [OF fd u(3,4,5) this] u(2)] u(1) 2 show ?thesis by simp
      qed
    qed simp_all
  qed (use Suc.prems in \<open>simp add: fitted_done\<close>)
qed


text \<open>A scale for the examples: a chart of 400 by 300 pixels with two labels.\<close>

definition example_scale :: scale where
  "example_scale =
    \<lparr>s_width = Fin 400, s_height = Fin 300, s_fontSize = Fin 12, s_font = JStr ''12px'', s_padding = Fin 0,
     s_display = True, s_showLabels = True, s_offsetGridLines = False, s_beginAtZero = True,
     s_integersOnly = True, s_override = False, s_template = JStr ''<%=value%>'', s_textColor = JStr ''#666'',
     s_lineWidth = JNum 1, s_lineColor = JStr ''#ccc'', s_gridLineWidth = JNum 1, s_gridLineColor = JStr ''#eee'',
     s_valuesCount = 2, s_xLabels = [JStr ''May'', JStr ''June''], s_steps = Fin 2, s_stepValue = Fin 5,
     s_min = Fin 0, s_max = Fin 10, s_startPoint = Fin 12, s_endPoint = Fin 277,
     s_yLabels = [JStr ''0'', JStr ''5'', JStr ''10''], s_yLabelWidth = Fin 16, s_xLabelRotation = 0,
     s_xLabelWidth = Fin 32, s_xScalePaddingLeft = Fin 26, s_xScalePaddingRight = Fin 19\<rparr>"

lemma example_text_widths: "text_widths example_env"
  by (auto simp: text_widths_def example_env_def split: jsval.split)


subsection \<open>Positions of values\<close>

lemma calculateY_ranged:
  assumes "s_steps s = Fin (of_int n)" "s_stepValue s = Fin sv" "s_min s = Fin lo"
    and "s_max s = Fin (lo + of_int n * sv)" "1 \<le> n" "0 < sv" "s_startPoint s = Fin a" "s_endPoint s = Fin e"
  shows "calculateY s (Fin v) = Fin (e - (e - a) / (of_int n * sv) * (v - lo))"
proof -
  have "of_int n * sv \<noteq> 0" using assms(5,6) by simp
  moreover have "(a - e) / (lo - (lo + of_int n * sv)) = (e - a) / (of_int n * sv)"
    using \<open>of_int n * sv \<noteq> 0\<close> by (simp add: field_simps)
  ultimately show ?thesis
    using assms by (simp add: calculateY_def drawingArea_def)
qed

text \<open>
  On a fitted scale the vertical position of a value is affine and decreasing: the smallest
  value of the range lies at the lower end of the drawing area and the largest one at the upper
  end; and the \<open>i\<close>-th label is drawn exactly at the position of the value it names.
\<close>

theorem calculateY_axis:
  assumes "ranged s" "s_startPoint s = Fin a" "s_endPoint s = Fin e" "a < e"
  shows "calculateY s (s_min s) = Fin e \<and> calculateY s (s_max s) = Fin a \<and>
    (\<forall>v w. v < w \<longrightarrow> calculateY s (Fin w) < calculateY s (Fin v)) \<and>
    (\<forall>i label cs. s_showLabels s \<longrightarrow>
       FillText label (Math_round (s_xScalePaddingLeft s) - 10)
         (calculateY s (s_min s + Fin (real i) * s_stepValue s)) \<in> set (draw_yLabel s label i cs))"
proof -
  from assms(1) obtain n sv lo where r: "s_steps s = Fin (of_int n)" "s_stepValue s = Fin sv" "s_min s = Fin lo"
    "s_max s = Fin (lo + of_int n * sv)" "1 \<le> n" "0 < sv" by (auto simp: ranged_def)
  have N: "0 < (of_int n :: real)" using r(5) by simp
  note Y = calculateY_ranged [OF r assms(2,3)]
  have pos: "0 < (e - a) / (of_int n * sv)" using assms(4) N r(6) by simp
  have "calculateY s (Fin w) < calculateY s (Fin v)" if "v < w" for v w
    unfolding Y less_jsnum.simps using mult_strict_left_mono [OF _ pos, of "v - lo" "w - lo"] that by linarith
  moreover have "calculateY s (s_min s) = Fin e" "calculateY s (s_max s) = Fin a"
    using N r(6) by (simp_all add: r(3,4) Y)
  moreover have "calculateY s (s_min s + Fin (real i) * s_stepValue s) =
      s_endPoint s - ((s_endPoint s - s_startPoint s) / s_steps s * Fin (real i))" for i
    using N r(6) by (simp add: r(1-3) Y assms(2,3) field_simps)
  ultimately show ?thesis
    by (simp add: draw_yLabel_def Let_def del: math_fin)
qed

theorem calculateY_axis_witness:
  "calculateY example_scale (s_min example_scale) = Fin 277 \<and>
   calculateY example_scale (s_max example_scale) = Fin 12"
proof -
  have "ranged example_scale"
    by (auto simp: ranged_def example_scale_def intro!: exI [of _ "2 :: int"])
  then show ?thesis
    using calculateY_axis [of example_scale 12 277] by (simp add: example_scale_def)
qed

text \<open>
  The horizontal positions of the labels: with the labels between the grid lines (bar chart,
  at least one label) or on them (line chart, at least two), the positions grow with the index
  and stay between the two paddings; but a line chart with a single label has no position for
  it, because the width is divided by zero.
\<close>

theorem calculateX_grid:
  assumes "s_width s = Fin w" "s_xScalePaddingLeft s = Fin l" "s_xScalePaddingRight s = Fin r" "l + r \<le> w"
    and "s_valuesCount s = int n" "0 < n"
  shows "if n = 1 \<and> \<not> s_offsetGridLines s then calculateX s 0 = NaN
    else \<exists>f. mono f \<and> (\<forall>i. calculateX s (Fin (real i)) = Fin (of_int (f i))) \<and>
      (\<forall>i < n. \<lfloor>l + 1 / 2\<rfloor> \<le> f i \<and> f i \<le> \<lfloor>w - r + 1 / 2\<rfloor>)"
proof (cases "n = 1 \<and> \<not> s_offsetGridLines s")
  case True
  with assms show ?thesis by (simp add: calculateX_def Let_def)
next
  case False
  define m where "m = (if s_offsetGridLines s then real n else real n - 1)"
  define c where "c = (if s_offsetGridLines s then 1 / 2 else (0 :: real))"
  define inner_w where "inner_w = (w - (l + r)) / m"
  define g where "g i = inner_w * (real i + c) + l" for i :: nat
  have m: "0 < m" using False assms(6) by (auto simp: m_def)
  have eq: "calculateX s (Fin (real i)) = Fin (of_int \<lfloor>g i + 1 / 2\<rfloor>)" for i
  proof (cases "s_offsetGridLines s")
    case True
    with assms have "calculateX s (Fin (real i)) = Math_round (Fin (inner_w * real i + l + inner_w / 2))"
      by (simp add: calculateX_def inner_w_def m_def Let_def)
    with True show ?thesis by (simp add: g_def c_def distrib_left algebra_simps)
  next
    case nogrid: False
    with assms m have "calculateX s (Fin (real i)) = Math_round (Fin (inner_w * real i + l))"
      by (simp add: calculateX_def inner_w_def m_def Let_def)
    with nogrid show ?thesis by (simp add: g_def c_def)
  qed
  have inner: "0 \<le> inner_w" "inner_w * m = w - (l + r)" using assms(4) m by (simp_all add: inner_w_def)
  have "mono (\<lambda>i. \<lfloor>g i + 1 / 2\<rfloor>)"
    using inner(1) by (intro monoI floor_mono) (simp add: g_def mult_left_mono)
  moreover have "\<lfloor>l + 1 / 2\<rfloor> \<le> \<lfloor>g i + 1 / 2\<rfloor>" for i
    using inner(1) by (intro floor_mono) (simp add: g_def c_def)
  moreover have "\<lfloor>g i + 1 / 2\<rfloor> \<le> \<lfloor>w - r + 1 / 2\<rfloor>" if "i < n" for i
  proof (intro floor_mono)
    have "real i + c \<le> m" using that by (auto simp: m_def c_def)
    from mult_left_mono [OF this inner(1)] inner(2) show "g i + 1 / 2 \<le> w - r + 1 / 2" by (simp add: g_def)
  qed
  ultimately show ?thesis using False eq by (intro if_not_P [THEN iffD2]) auto
qed

theorem calculateX_grid_witness:
  "calculateX (example_scale\<lparr>s_valuesCount := 1\<rparr>) 0 = NaN \<and>
   (\<exists>f. \<forall>i. calculateX example_scale (Fin (real i)) = Fin (of_int (f i)))"
  using calculateX_grid [of "example_scale\<lparr>s_valuesCount := 1\<rparr>" 400 26 19 1]
    calculateX_grid [of example_scale 400 26 19 2]
  by (auto simp: example_scale_def)

text \<open>
  Rotating the labels ends after at most 91 steps: the labels then fit between the grid
  lines, or they are turned by more than ninety degrees; the drawing area shrinks by at least
  three pixels or, when nothing is rotated, not at all.
\<close>

theorem labels_fit_or_rotated:
  assumes "text_widths E" "s_endPoint s = Fin e" "s_display s" "t = calculateXLabelRotation E s"
    and "flat = (rotation_start E s)\<lparr>s_xLabelWidth := longestText E (s_font s) (s_xLabels s)\<rparr>"
  shows "s_xLabelRotation t \<le> 91 \<and>
    (s_xLabelRotation t \<le> 90 \<longrightarrow>
       \<not> Math_floor (calculateX flat 1 - calculateX flat 0) - 6 < s_xLabelWidth t) \<and>
    (\<exists>e'. s_endPoint t = Fin e' \<and> (if s_xLabelRotation t = 0 then e' = e else e' \<le> e - 3))"
proof -
  let ?g = "Math_floor (calculateX flat 1 - calculateX flat 0) - 6"
  define u where "u = rotation_loop ?g (longestText E (s_font s) (s_xLabels s))
      (measureText E (s_font s) (label_at (s_xLabels s) 0)) flat"
  have same: "s_display (rotation_start E s) = s_display s" "s_font (rotation_start E s) = s_font s"
    "s_xLabels (rotation_start E s) = s_xLabels s" "s_xLabelRotation flat = 0" "s_endPoint flat = Fin e"
    using assms(2,5) by (simp_all add: rotation_start_def Let_def)
  have t: "t = (if 0 < s_xLabelRotation u then u\<lparr>s_endPoint := s_endPoint u -
      (Math_sin (toRadians (Fin (real (s_xLabelRotation u)))) * longestText E (s_font s) (s_xLabels s) + 3)\<rparr> else u)"
    unfolding assms(4) calculateXLabelRotation_def Let_def same if_P [OF assms(3)] assms(5) [symmetric] u_def ..
  have eq: "s_xLabelRotation t = s_xLabelRotation u" "s_xLabelWidth t = s_xLabelWidth u"
    using t by (simp_all split: if_splits)
  have u: "s_xLabelRotation u \<le> 91" "s_xLabelRotation u \<le> 90 \<longrightarrow> \<not> ?g < s_xLabelWidth u" "s_endPoint u = Fin e"
    using rotation_loop_ends [of ?g _ _ flat] unrotated_eqD(1) [of u flat] same(4,5) unfolding u_def by auto
  obtain e' where e': "s_endPoint t = Fin e'" "e' = e \<or> e' \<le> e - 3"
    using calculateXLabelRotation_effect [OF assms(1,2,4)] by blast
  have "if s_xLabelRotation t = 0 then e' = e else e' \<le> e - 3"
  proof (cases "s_xLabelRotation u = 0")
    case True
    then have "t = u" using t by simp
    with True u(3) e'(1) show ?thesis by simp
  next
    case False
    obtain w where w: "longestText E (s_font s) (s_xLabels s) = Fin w" "0 \<le> w"
      using longestText_nonneg [OF assms(1)] by blast
    have "real (s_xLabelRotation u) / 180 \<le> 1" using u(1) by simp
    from mult_right_mono [OF this, of pi] have "0 \<le> sin (real (s_xLabelRotation u) * (pi / 180))"
      by (intro sin_ge_zero) simp_all
    with w(2) have "0 \<le> sin (real (s_xLabelRotation u) * (pi / 180)) * w" by simp
    moreover have "e' = e - (sin (real (s_xLabelRotation u) * (pi / 180)) * w + 3)"
      using False t u(3) w(1) e'(1) by (simp add: toRadians_def)
    ultimately have "e' \<le> e - 3" by linarith
    with False eq show ?thesis by simp
  qed
  with eq u e'(1) show ?thesis by auto
qed

theorem labels_fit_or_rotated_witness: "s_xLabelRotation (calculateXLabelRotation example_env example_scale) \<le> 91"
  using labels_fit_or_rotated [OF example_text_widths, of example_scale 277, OF _ _ refl refl]
  by (simp add: example_scale_def)

end
