(* ===== verification/Chart_Series.thy ===== *)
theory Chart_Series
  imports Chart_Element Chart_Scale
begin

section \<open>Charts with a linear scale\<close>

text \<open>
  What the bar and the line chart share: the options of the axes, the datasets with their elements
  (bars or points), and the scale built for them. The source has this code in both chart types. An
  element carries a flag that says whether it is in \<open>activeElements\<close>; properties that all elements of a
  chart inherit from its class are set on every element when they change. \<open>render\<close> is left to the
  animation, so the operations end where the source calls it.
\<close>

record axis_options =
  scaleLabel :: jsval
  scaleFontColor :: jsval
  scaleFontSize :: jsnum
  scaleFontStyle :: jsval
  scaleFontFamily :: jsval
  scaleBeginAtZero :: bool
  scaleIntegersOnly :: bool
  scaleLineWidth :: jsval
  scaleLineColor :: jsval
  scaleShowGridLines :: bool
  scaleGridLineWidth :: jsval
  scaleGridLineColor :: jsval
  showScale :: bool
  scaleShowLabels :: bool
  scaleOverride :: bool
  scaleSteps :: jsnum
  scaleStepWidth :: jsnum
  scaleStartValue :: jsnum

text \<open>A dataset as the caller gives it, and as the chart keeps it.\<close>

record indata =
  in_label :: jsval
  in_fillColor :: jsval
  in_strokeColor :: jsval
  in_pointColor :: jsval
  in_pointStrokeColor :: jsval
  in_highlightFill :: jsval
  in_highlightStroke :: jsval
  in_data :: "jsval list"

record dataset =
  ds_label :: jsval
  ds_fillColor :: jsval
  ds_strokeColor :: jsval
  ds_pointColor :: jsval
  ds_pointStrokeColor :: jsval
  ds_items :: "(element \<times> bool) list"

record series =
  sr_width :: jsnum
  sr_height :: jsnum
  sr_axis :: axis_options
  sr_class :: props
  datasets :: "dataset list"
  sr_scale :: scale

subsection \<open>Walking over the elements\<close>

definition map_items :: "(nat \<Rightarrow> nat \<Rightarrow> element \<times> bool \<Rightarrow> element \<times> bool) \<Rightarrow> dataset list \<Rightarrow> dataset list" where
  "map_items f ds = map (\<lambda>(j, d). d\<lparr>ds_items := map (\<lambda>(i, x). f j i x) (enumerate 0 (ds_items d))\<rparr>) (enumerate 0 ds)"

definition dataTotal :: "dataset list \<Rightarrow> jsval list" where
  "dataTotal ds = concat (map (\<lambda>d. map (\<lambda>(e, _). eget e ''value'') (ds_items d)) ds)"

definition with_class :: "props \<Rightarrow> dataset list \<Rightarrow> dataset list" where
  "with_class cls ds = map_items (\<lambda>_ _ (e, active). (e\<lparr>el_proto := cls\<rparr>, active)) ds"

definition item :: "dataset list \<Rightarrow> nat \<Rightarrow> nat \<Rightarrow> element" where
  "item ds j i = fst (ds_items (ds ! j) ! i)"

subsection \<open>The scale\<close>

text \<open>The fields that the scale computes itself are not numbers until it is fitted.\<close>

definition scale_options :: "env \<Rightarrow> axis_options \<Rightarrow> jsnum \<Rightarrow> jsnum \<Rightarrow> jsnum \<Rightarrow> bool \<Rightarrow> jsval list \<Rightarrow> scale" where
  "scale_options E ax width height pad offsetLines labels =
    \<lparr>s_width = width, s_height = height, s_fontSize = scaleFontSize ax,
     s_font = fontString E (JNum (scaleFontSize ax)) (scaleFontStyle ax) (scaleFontFamily ax), s_padding = pad,
     s_display = showScale ax, s_showLabels = scaleShowLabels ax, s_offsetGridLines = offsetLines,
     s_beginAtZero = scaleBeginAtZero ax, s_integersOnly = scaleIntegersOnly ax, s_override = scaleOverride ax,
     s_template = scaleLabel ax, s_textColor = scaleFontColor ax,
     s_lineWidth = scaleLineWidth ax, s_lineColor = scaleLineColor ax,
     s_gridLineWidth = (if scaleShowGridLines ax then scaleGridLineWidth ax else JNum 0),
     s_gridLineColor = (if scaleShowGridLines ax then scaleGridLineColor ax else JStr ''rgba(0,0,0,0)''),
     s_valuesCount = int (length labels), s_xLabels = labels,
     s_steps = (if scaleOverride ax then scaleSteps ax else NaN),
     s_stepValue = (if scaleOverride ax then scaleStepWidth ax else NaN),
     s_min = (if scaleOverride ax then scaleStartValue ax else NaN),
     s_max = (if scaleOverride ax then scaleStartValue ax + (scaleSteps ax * scaleStepWidth ax) else NaN),
     s_startPoint = NaN, s_endPoint = NaN, s_yLabels = [], s_yLabelWidth = NaN, s_xLabelRotation = 0,
     s_xLabelWidth = NaN, s_xScalePaddingLeft = NaN, s_xScalePaddingRight = NaN\<rparr>"

text \<open>Continuing with the fitted scale, where fitting returns one.\<close>

definition fitting :: "(jserr + 'b) option \<Rightarrow> ('b \<Rightarrow> 'a) \<Rightarrow> (jserr + 'a) option" where
  "fitting r f = map_option (map_sum id f) r"

lemma fitting_Some [simp]: "fitting r f = Some (Inr x) \<longleftrightarrow> (\<exists>s. r = Some (Inr s) \<and> x = f s)"
  by (cases r; cases "the r") (auto simp: fitting_def)

lemma item_map_items:
  "j < length ds \<Longrightarrow> i < length (ds_items (ds ! j)) \<Longrightarrow> item (map_items f ds) j i = fst (f j i (ds_items (ds ! j) ! i))"
  by (simp add: item_def map_items_def nth_enumerate_eq)

lemma map_items_shape [simp]:
  "length (map_items f ds) = length ds"
  "j < length ds \<Longrightarrow> length (ds_items (map_items f ds ! j)) = length (ds_items (ds ! j))"
  "j < length ds \<Longrightarrow> i < length (ds_items (ds ! j)) \<Longrightarrow> ds_items (map_items f ds ! j) ! i = f j i (ds_items (ds ! j) ! i)"
  by (simp_all add: map_items_def nth_enumerate_eq)

lemma pget_missing: "\<not> has_own ps k \<Longrightarrow> pget ps k = JUndef"
  by (simp add: pget_def has_own_def)

subsection \<open>What fitting keeps\<close>

definition grid :: "scale \<Rightarrow> jsnum \<times> bool \<times> int \<times> jsval list" where
  "grid s = (s_width s, s_offsetGridLines s, s_valuesCount s, s_xLabels s)"

lemma rotation_loop_grid: "grid (rotation_loop g ow f s) = grid s"
proof (induction g ow f s rule: rotation_loop.induct)
  case (1 g ow f s)
  have "grid (rotation_step ow f s) = grid s" by (simp add: grid_def rotation_step_def Let_def)
  then show ?case using 1 by (subst rotation_loop.simps) simp
qed

lemma calculateXLabelRotation_grid: "grid (calculateXLabelRotation E s) = grid s"
proof -
  have start: "grid ((rotation_start E s)\<lparr>s_xLabelWidth := x\<rparr>) = grid s" "grid (rotation_start E s) = grid s" for x
    by (simp_all add: grid_def rotation_start_def Let_def)
  have upd: "grid (t\<lparr>s_endPoint := x\<rparr>) = grid t" "grid (t\<lparr>s_xLabelWidth := x, s_xScalePaddingRight := y, s_xScalePaddingLeft := z\<rparr>) = grid t" for t x y z
    by (simp_all add: grid_def)
  show ?thesis unfolding calculateXLabelRotation_def Let_def by (auto simp: upd rotation_loop_grid start)
qed

lemma range_and_labels_grid: "range_and_labels E data h s = Some (Inr t) \<Longrightarrow> grid t = grid s"
  by (auto simp: range_and_labels_def calculateYRange_def buildYLabels_def grid_def Let_def
      split: option.splits sum.splits if_splits)

lemma fit_while_grid: "fit_while E data h s = Some r \<Longrightarrow> (\<forall>t. r = Inr t \<longrightarrow> grid t = grid s)"
proof (rule fit_while.raw_induct [where P = "\<lambda>E data h s r. \<forall>t. r = Inr t \<longrightarrow> grid t = grid s"])
  fix f E data h s r
  assume IH: "\<And>E data h s r. f E data h s = Some r \<Longrightarrow> \<forall>t. r = Inr t \<longrightarrow> grid t = grid s"
    and "(if s_endPoint s - s_startPoint s < h
       then case range_and_labels E data (s_endPoint s - s_startPoint s) s of None \<Rightarrow> None | Some (Inl err) \<Rightarrow> Some (Inl err)
         | Some (Inr s') \<Rightarrow> f E data (s_endPoint s - s_startPoint s) (if s_yLabelWidth s < s_yLabelWidth s' then calculateXLabelRotation E s' else s')
       else Some (Inr s)) = Some r"
  then show "\<forall>t. r = Inr t \<longrightarrow> grid t = grid s"
    by (auto split: if_splits option.splits sum.splits simp: calculateXLabelRotation_grid dest!: range_and_labels_grid IH)
qed

lemma fit_grid: "fit E data s = Some (Inr t) \<Longrightarrow> grid t = grid s"
proof -
  assume f: "fit E data s = Some (Inr t)"
  have i: "grid (init_points s) = grid s" by (simp add: grid_def init_points_def)
  obtain u h where u: "range_and_labels E data h (init_points s) = Some (Inr u)" "fit_while E data h (calculateXLabelRotation E u) = Some (Inr t)"
    using f by (auto simp: fit_def Let_def split: option.splits sum.splits)
  show "grid t = grid s"
    using fit_while_grid [OF u(2)] range_and_labels_grid [OF u(1)] i by (simp add: calculateXLabelRotation_grid)
qed

subsection \<open>An example\<close>

text \<open>Axes that are not shown, with a given range from 0 to 10, on a canvas of 400 by 300 pixels.\<close>

definition example_axis :: axis_options where
  "example_axis = \<lparr>scaleLabel = JStr ''<%=value%>'', scaleFontColor = JStr ''#666'', scaleFontSize = Fin 12, scaleFontStyle = JStr ''normal'',
     scaleFontFamily = JStr ''Arial'', scaleBeginAtZero = True, scaleIntegersOnly = True, scaleLineWidth = JNum 1, scaleLineColor = JStr ''#ccc'',
     scaleShowGridLines = True, scaleGridLineWidth = JNum 1, scaleGridLineColor = JStr ''#eee'', showScale = False, scaleShowLabels = True,
     scaleOverride = True, scaleSteps = Fin 2, scaleStepWidth = Fin 5, scaleStartValue = Fin 0\<rparr>"

lemma example_fit:
  "\<exists>s. fit example_env data (scale_options example_env example_axis (Fin 400) (Fin 300) (Fin p) offset labels) = Some (Inr s)
     \<and> s_xScalePaddingLeft s = Fin p \<and> s_xScalePaddingRight s = Fin p \<and> s_startPoint s = Fin p \<and> s_endPoint s = Fin (300 - p)
     \<and> s_min s = Fin 0 \<and> s_max s = Fin 10"
proof -
  have fw: "fit_while E d (Fin h) t = Some (Inr t)" if "s_endPoint t = Fin e" "s_startPoint t = Fin a" "\<not> e - a < h" for E d h t e a
    using that by (intro fit_while_done) simp
  show ?thesis
    by (simp add: fit_def Let_def init_points_def range_and_labels_def calculateYRange_def buildYLabels_def scale_options_def example_axis_def
        label_count_def getDecimalPlaces_def second_piece_def calculateXLabelRotation_def rotation_start_def fw example_env_def)
qed

end
