(* ===== verification/Chart_Bar.thy ===== *)
theory Chart_Bar
  imports Chart_Series
begin

section \<open>Bar charts\<close>

text \<open>
  The chart type \<open>Bar\<close>: the scale with the positions and widths of the bars, building the datasets,
  adding and removing data, drawing, the bars at a mouse position and the handler that highlights them.
  \<open>bars_inside\<close> says how the bars share the width of the chart; \<open>bars_at_mouse\<close> that after the drawing a
  position on a bar gives the bars of its label.
\<close>

record bar_chart = series +
  barShowStroke :: bool
  barStrokeWidth :: jsnum
  barValueSpacing :: jsnum
  barDatasetSpacing :: jsnum

subsection \<open>Positions of the bars\<close>

definition calculateBaseWidth :: "bar_chart \<Rightarrow> scale \<Rightarrow> jsnum" where
  "calculateBaseWidth c s = (calculateX s 1 - calculateX s 0) - (2 * barValueSpacing c)"

definition calculateBarWidth :: "bar_chart \<Rightarrow> scale \<Rightarrow> nat \<Rightarrow> jsnum" where
  "calculateBarWidth c s datasetCount =
     (let baseWidth = calculateBaseWidth c s - ((Fin (real datasetCount) - 1) * barDatasetSpacing c)
      in baseWidth / Fin (real datasetCount))"

definition calculateBarX :: "bar_chart \<Rightarrow> scale \<Rightarrow> nat \<Rightarrow> nat \<Rightarrow> int \<Rightarrow> jsnum" where
  "calculateBarX c s datasetCount datasetIndex barIndex =
     (let xWidth = calculateBaseWidth c s;
          xAbsolute = calculateX s (Fin (of_int barIndex)) - (xWidth / 2);
          barWidth = calculateBarWidth c s datasetCount
      in xAbsolute + (barWidth * Fin (real datasetIndex)) + (Fin (real datasetIndex) * barDatasetSpacing c) + barWidth / 2)"

subsection \<open>Operations\<close>

definition bar_class :: "bar_chart \<Rightarrow> props" where
  "bar_class c = [(''strokeWidth'', JNum (barStrokeWidth c)), (''showStroke'', JBool (barShowStroke c))]"

definition bar_padding :: "bar_chart \<Rightarrow> jsnum" where
  "bar_padding c = (if showScale (sr_axis c) then 0 else if barShowStroke c then barStrokeWidth c else 0)"

definition buildScale :: "env \<Rightarrow> jsval list \<Rightarrow> bar_chart \<Rightarrow> (jserr + scale) option" where
  "buildScale E labels c =
     fit E (dataTotal (datasets c)) (scale_options E (sr_axis c) (sr_width c) (sr_height c) (bar_padding c) True labels)"

definition new_bar :: "bar_chart \<Rightarrow> jsval list \<Rightarrow> indata \<Rightarrow> nat \<Rightarrow> jsval \<Rightarrow> element" where
  "new_bar c labels d index dataPoint = new_element (sr_class c)
     [(''value'', dataPoint), (''label'', label_at labels index), (''datasetLabel'', in_label d),
      (''strokeColor'', in_strokeColor d), (''fillColor'', in_fillColor d),
      (''highlightFill'', js_or (in_highlightFill d) (in_fillColor d)),
      (''highlightStroke'', js_or (in_highlightStroke d) (in_strokeColor d))]"

definition bar_dataset :: "bar_chart \<Rightarrow> jsval list \<Rightarrow> indata \<Rightarrow> dataset" where
  "bar_dataset c labels d =
    \<lparr>ds_label = js_or (in_label d) JNull, ds_fillColor = in_fillColor d, ds_strokeColor = in_strokeColor d,
     ds_pointColor = JUndef, ds_pointStrokeColor = JUndef,
     ds_items = map (\<lambda>(i, v). (new_bar c labels d i v, False)) (enumerate 0 (in_data d))\<rparr>"

text \<open>The bars at their labels, without height.\<close>

definition place_bars :: "bar_chart \<Rightarrow> bar_chart" where
  "place_bars c =
     (let s = sr_scale c; m = length (datasets c)
      in c\<lparr>datasets := map_items (\<lambda>j i (e, active).
             (save (e\<lparr>el_own := put_all [(''width'', JNum (calculateBarWidth c s m)),
                (''x'', JNum (calculateBarX c s m j (int i))), (''y'', JNum (s_endPoint s))] (el_own e)\<rparr>), active)) (datasets c)\<rparr>)"

definition set_class :: "props \<Rightarrow> bar_chart \<Rightarrow> bar_chart" where
  "set_class ps c = (let cls = put_all ps (sr_class c) in c\<lparr>sr_class := cls, datasets := with_class cls (datasets c)\<rparr>)"

definition initialize :: "env \<Rightarrow> indata list \<Rightarrow> jsval list \<Rightarrow> bar_chart \<Rightarrow> (jserr + bar_chart) option" where
  "initialize E data labels c =
     (let c = c\<lparr>sr_class := bar_class c\<rparr>;
          c = c\<lparr>datasets := map (bar_dataset c labels) data\<rparr>
      in fitting (buildScale E labels c)
           (\<lambda>s. place_bars (set_class [(''base'', JNum (s_endPoint s))] (c\<lparr>sr_scale := s\<rparr>))))"

definition update_bars :: "env \<Rightarrow> bar_chart \<Rightarrow> (jserr + bar_chart) option" where
  "update_bars E c =
     fitting (fit E (dataTotal (datasets c)) (sr_scale c))
       (\<lambda>s. c\<lparr>sr_scale := s, datasets := map_items (\<lambda>_ _ (e, active).
          (save (if active then restore_keys [''fillColor'', ''strokeColor''] e else e), active)) (datasets c)\<rparr>)"

definition added_bar :: "bar_chart \<Rightarrow> jsval \<Rightarrow> nat \<Rightarrow> jsval \<Rightarrow> element" where
  "added_bar c label j value =
     (let s = sr_scale c; m = length (datasets c)
      in new_element (sr_class c)
        [(''value'', value), (''label'', label), (''x'', JNum (calculateBarX c s m j (s_valuesCount s + 1))),
         (''y'', JNum (s_endPoint s)), (''width'', JNum (calculateBarWidth c s m)), (''base'', JNum (s_endPoint s)),
         (''strokeColor'', ds_strokeColor (datasets c ! j)), (''fillColor'', ds_fillColor (datasets c ! j))])"

text \<open>A value without a dataset makes the callback read \<open>bars\<close> of \<open>undefined\<close>.\<close>

definition addData :: "env \<Rightarrow> jsval list \<Rightarrow> jsval \<Rightarrow> bar_chart \<Rightarrow> (jserr + bar_chart) option" where
  "addData E values label c =
     (if length (datasets c) < length values then Some (Inl TypeError)
      else
        (let ds = map (\<lambda>(j, d). if j < length values
                  then d\<lparr>ds_items := ds_items d @ [(added_bar c label j (values ! j), False)]\<rparr> else d) (enumerate 0 (datasets c))
         in case addXLabel E (dataTotal ds) label (sr_scale c) of
              None \<Rightarrow> None
            | Some (Inl err) \<Rightarrow> Some (Inl err)
            | Some (Inr s) \<Rightarrow> update_bars E (c\<lparr>datasets := ds, sr_scale := s\<rparr>)))"

definition removeData :: "env \<Rightarrow> bar_chart \<Rightarrow> (jserr + bar_chart) option" where
  "removeData E c =
     (case removeXLabel E (dataTotal (datasets c)) (sr_scale c) of
        None \<Rightarrow> None
      | Some (Inl err) \<Rightarrow> Some (Inl err)
      | Some (Inr s) \<Rightarrow> update_bars E (c\<lparr>datasets := map (\<lambda>d. d\<lparr>ds_items := js_shift (ds_items d)\<rparr>) (datasets c), sr_scale := s\<rparr>))"

definition reflow :: "env \<Rightarrow> bar_chart \<Rightarrow> (jserr + bar_chart) option" where
  "reflow E c =
     (let e = JNum (s_endPoint (sr_scale c)); c = set_class [(''y'', e), (''base'', e)] c
      in fitting (scale_update E (dataTotal (datasets c)) (sr_height c) (sr_width c) (sr_scale c)) (\<lambda>s. c\<lparr>sr_scale := s\<rparr>))"

definition draw_bar :: "bar_chart \<Rightarrow> jsnum \<Rightarrow> nat \<Rightarrow> nat \<Rightarrow> element \<Rightarrow> element" where
  "draw_bar c ease j i bar =
     (if hasValue bar then
        (let s = sr_scale c; m = length (datasets c)
         in transition [(''x'', JNum (calculateBarX c s m j (int i))), (''y'', JNum (calculateY s (enum bar ''value''))),
              (''width'', JNum (calculateBarWidth c s m))] ease (eset ''base'' (JNum (s_endPoint s)) bar))
      else bar)"

definition draw :: "jsnum \<Rightarrow> bar_chart \<Rightarrow> cmd list \<times> bar_chart" where
  "draw ease c =
     (let easingDecimal = (if num_truthy ease then ease else 1);
          ds = map_items (\<lambda>j i (e, active). (draw_bar c easingDecimal j i e, active)) (datasets c)
      in (scale_draw (sr_scale c) (clear_chart (sr_width c) (sr_height c))
            @ concat (map (\<lambda>d. concat (map (\<lambda>(e, _). if hasValue e then rect_draw e else []) (ds_items d))) ds),
          c\<lparr>datasets := ds\<rparr>))"

subsection \<open>Bars under the mouse\<close>

text \<open>The first bar in range, dataset by dataset, decides the index.\<close>

definition first_hit :: "bar_chart \<Rightarrow> jsnum \<Rightarrow> jsnum \<Rightarrow> nat option" where
  "first_hit c x y =
     (case filter (\<lambda>(i, e, _). rect_inRange e x y) (concat (map (enumerate 0 \<circ> ds_items) (datasets c))) of
        [] \<Rightarrow> None
      | (i, _) # _ \<Rightarrow> Some i)"

definition getBarsAtEvent :: "bar_chart \<Rightarrow> jsnum \<Rightarrow> jsnum \<Rightarrow> element option list" where
  "getBarsAtEvent c x y =
     (case first_hit c x y of None \<Rightarrow> [] | Some i \<Rightarrow> map (\<lambda>d. map_option fst (idx (ds_items d) i)) (datasets c))"

text \<open>
  The handler of the tooltip events up to the call of \<open>showTooltip\<close>, which makes the bars found the
  active ones; \<open>None\<close> is a \<open>mouseout\<close> event. A dataset without a bar at the index contributes
  \<open>undefined\<close>, and setting its colour throws.
\<close>

definition hover :: "(jsnum \<times> jsnum) option \<Rightarrow> bar_chart \<Rightarrow> jserr + bar_chart" where
  "hover pos c =
     (let hit = (case pos of None \<Rightarrow> None | Some (x, y) \<Rightarrow> first_hit c x y)
      in if (case hit of None \<Rightarrow> False | Some i \<Rightarrow> list_ex (\<lambda>d. length (ds_items d) \<le> i) (datasets c)) then Inl TypeError
         else Inr (c\<lparr>datasets := map_items (\<lambda>_ i (e, _).
           (let e = restore_keys [''fillColor'', ''strokeColor''] e
            in if hit = Some i
               then eset ''strokeColor'' (eget e ''highlightStroke'') (eset ''fillColor'' (eget e ''highlightFill'') e)
               else e, hit = Some i)) (datasets c)\<rparr>))"

subsection \<open>How the bars share the width\<close>

text \<open>A bar scale with finite measures: width, paddings and number of labels.\<close>

definition bar_grid :: "scale \<Rightarrow> real \<Rightarrow> real \<Rightarrow> real \<Rightarrow> nat \<Rightarrow> bool" where
  "bar_grid s w l r n = (s_width s = Fin w \<and> s_xScalePaddingLeft s = Fin l \<and> s_xScalePaddingRight s = Fin r \<and> l + r \<le> w
     \<and> s_valuesCount s = int n \<and> 0 < n \<and> s_offsetGridLines s)"

text \<open>The middle of a label on the canvas, rounded to a pixel.\<close>

definition label_x :: "real \<Rightarrow> real \<Rightarrow> real \<Rightarrow> nat \<Rightarrow> int \<Rightarrow> int" where
  "label_x w l r n i = \<lfloor>(w - (l + r)) / real n * (of_int i + 1 / 2) + l + 1 / 2\<rfloor>"

definition base_width :: "real \<Rightarrow> real \<Rightarrow> real \<Rightarrow> nat \<Rightarrow> real \<Rightarrow> real" where
  "base_width w l r n vs = of_int (label_x w l r n 1 - label_x w l r n 0) - 2 * vs"

definition bar_width :: "real \<Rightarrow> nat \<Rightarrow> real \<Rightarrow> real" where
  "bar_width base m ds = (base - (real m - 1) * ds) / real m"

lemma calculateX_label:
  assumes "bar_grid s w l r n"
  shows "calculateX s (Fin (of_int i)) = Fin (of_int (label_x w l r n i))"
proof -
  define v where "v = (w - (l + r)) / real n"
  have "calculateX s (Fin (of_int i)) = Math_round (Fin (v * of_int i + l + v / 2))"
    using assms by (simp add: bar_grid_def calculateX_def Let_def v_def)
  also have "v * of_int i + l + v / 2 = v * (of_int i + 1 / 2) + l" by (simp add: algebra_simps)
  finally show ?thesis by (simp add: label_x_def v_def)
qed

lemma bar_measures:
  assumes "bar_grid s w l r n" "barValueSpacing c = Fin vs" "barDatasetSpacing c = Fin ds" "0 < m"
  shows "calculateBarWidth c s m = Fin (bar_width (base_width w l r n vs) m ds)"
    and "calculateBarX c s m j i = Fin (of_int (label_x w l r n i) - base_width w l r n vs / 2
      + real j * (bar_width (base_width w l r n vs) m ds + ds) + bar_width (base_width w l r n vs) m ds / 2)"
proof -
  have "calculateBaseWidth c s = Fin (base_width w l r n vs)"
    using calculateX_label [OF assms(1), of 0] calculateX_label [OF assms(1), of 1] assms(2)
    by (simp add: calculateBaseWidth_def base_width_def)
  moreover from this show "calculateBarWidth c s m = Fin (bar_width (base_width w l r n vs) m ds)"
    using assms(3,4) by (simp add: calculateBarWidth_def bar_width_def Let_def)
  ultimately show "calculateBarX c s m j i = Fin (of_int (label_x w l r n i) - base_width w l r n vs / 2
      + real j * (bar_width (base_width w l r n vs) m ds + ds) + bar_width (base_width w l r n vs) m ds / 2)"
    using assms(3) calculateX_label [OF assms(1), of i] by (simp add: calculateBarX_def Let_def algebra_simps)
qed

text \<open>The bars of a label fill its part of the width.\<close>

lemma bars_fill: "0 < m \<Longrightarrow> real m * (bar_width base m ds + ds) = base + ds"
  by (simp add: bar_width_def field_simps)

lemma label_x_bounds:
  fixes w l r :: real and n :: nat
  defines "v \<equiv> (w - (l + r)) / real n"
  shows "v * (of_int i + 1 / 2) + l - 1 / 2 < of_int (label_x w l r n i)" "of_int (label_x w l r n i) \<le> v * (of_int i + 1 / 2) + l + 1 / 2"
  unfolding label_x_def v_def by linarith+

lemma label_distance:
  fixes w l r :: real and n :: nat
  defines "v \<equiv> (w - (l + r)) / real n"
  shows "of_int (label_x w l r n (i + 1) - label_x w l r n i) < v + 1" "v - 1 < of_int (label_x w l r n (i + 1) - label_x w l r n i)"
    "label_x w l r n 1 - label_x w l r n 0 - 1 \<le> label_x w l r n (i + 1) - label_x w l r n i"
proof -
  have d: "of_int (label_x w l r n (k + 1) - label_x w l r n k) < v + 1 \<and> v - 1 < of_int (label_x w l r n (k + 1) - label_x w l r n k)" for k
    using label_x_bounds [of w l r n k] label_x_bounds [of w l r n "k + 1"] unfolding v_def [symmetric]
    by (simp add: algebra_simps)
  then show "of_int (label_x w l r n (i + 1) - label_x w l r n i) < v + 1" "v - 1 < of_int (label_x w l r n (i + 1) - label_x w l r n i)" by blast+
  from d [of i] d [of 0] have "of_int (label_x w l r n 1 - label_x w l r n 0) < (of_int (label_x w l r n (i + 1) - label_x w l r n i) + 2 :: real)"
    by simp
  then show "label_x w l r n 1 - label_x w l r n 0 - 1 \<le> label_x w l r n (i + 1) - label_x w l r n i" by linarith
qed


subsection \<open>From the data to the bar under the mouse\<close>

lemma label_x_mono: "l + r \<le> w \<Longrightarrow> i \<le> k \<Longrightarrow> label_x w l r n i \<le> label_x w l r n k"
  unfolding label_x_def by (intro floor_mono add_right_mono mult_left_mono) auto

text \<open>Bars of different labels do not touch.\<close>

lemma bars_apart:
  assumes "bar_grid s w l r n" "barValueSpacing c = Fin vs" "barDatasetSpacing c = Fin ds" "0 \<le> ds" "1 / 2 < vs"
    and "calculateBarWidth c s m = Fin bw" "0 \<le> bw" "j < m" "j' < m" "i < i'"
    and "calculateBarX c s m j i = Fin a" "calculateBarX c s m j' i' = Fin b"
  shows "a + bw / 2 < b - bw / 2"
proof -
  have m: "0 < m" using assms(8) by simp
  let ?B = "base_width w l r n vs" and ?X = "\<lambda>i. of_int (label_x w l r n i) :: real"
  have bw: "bw = bar_width ?B m ds" using bar_measures(1) [OF assms(1-3) m] assms(6) by simp
  have a: "a = ?X i - ?B / 2 + real j * (bw + ds) + bw / 2" "b = ?X i' - ?B / 2 + real j' * (bw + ds) + bw / 2"
    using bar_measures(2) [OF assms(1-3) m] assms(11,12) by (simp_all add: bw)
  have "real m * (bw + ds) = ?B + ds" using bars_fill [OF m] by (simp add: bw)
  then have last: "real (m - 1) * (bw + ds) + bw = ?B" using m by (simp add: of_nat_diff algebra_simps)
  have "real j * (bw + ds) \<le> real (m - 1) * (bw + ds)" "0 \<le> real j' * (bw + ds)"
    using assms(4,7,8) by (auto intro!: mult_right_mono)
  moreover have "?X (i + 1) \<le> ?X i'" using assms(1,10) label_x_mono [of l r w "i + 1" i' n] by (simp add: bar_grid_def)
  moreover have "of_int (label_x w l r n 1 - label_x w l r n 0 - 1) \<le> (of_int (label_x w l r n (i + 1) - label_x w l r n i) :: real)"
    by (intro of_int_le_iff [THEN iffD2] label_distance)
  ultimately show ?thesis using last assms(5) by (simp add: a base_width_def)
qed

text \<open>A bar with a number to draw and finite snapshots.\<close>

definition bar_ok :: "element \<Rightarrow> bool" where
  "bar_ok e = (hasValue e \<and> is_fin (nget (el_saved e) ''x'') \<and> is_fin (nget (el_saved e) ''width''))"

definition bars_ok :: "nat list \<Rightarrow> bar_chart \<Rightarrow> bool" where
  "bars_ok ns c = (map (length \<circ> ds_items) (datasets c) = ns \<and> (\<forall>j < length ns. \<forall>i < ns ! j. bar_ok (item (datasets c) j i)))"

lemma bars_ok_shape:
  assumes "bars_ok ns c"
  shows "length (datasets c) = length ns" "j < length ns \<Longrightarrow> length (ds_items (datasets c ! j)) = ns ! j"
  using assms by (auto simp: bars_ok_def)

lemma bar_item_draw:
  assumes "bars_ok ns c" "j < length ns" "i < ns ! j"
  shows "item (datasets (snd (draw ease c))) j i = draw_bar c (if num_truthy ease then ease else 1) j i (item (datasets c) j i)"
  using bars_ok_shape [OF assms(1)] assms(2,3) by (simp add: draw_def Let_def item_map_items) (simp add: item_def case_prod_beta)

lemma draw_bar_keeps: "bar_ok e \<Longrightarrow> bar_ok (draw_bar c ease j i e)"
  by (simp add: bar_ok_def draw_bar_def Let_def hasValue_def)

lemma bar_draw_keeps:
  assumes "bars_ok ns c"
  shows "bars_ok ns (snd (draw ease c))"
proof -
  have "map (length \<circ> ds_items) (datasets (snd (draw ease c))) = ns"
    using bars_ok_shape [OF assms] by (auto simp: draw_def Let_def intro!: nth_equalityI)
  then show ?thesis using assms bar_item_draw [OF assms] by (simp add: bars_ok_def draw_bar_keeps)
qed

definition frames :: "jsnum list \<Rightarrow> bar_chart \<Rightarrow> bar_chart" where
  "frames eases c = fold (\<lambda>ease c. snd (draw ease c)) eases c"

lemma bar_frames_keep:
  "bars_ok ns c \<Longrightarrow> bars_ok ns (frames eases c) \<and> sr_scale (frames eases c) = sr_scale c
     \<and> barValueSpacing (frames eases c) = barValueSpacing c \<and> barDatasetSpacing (frames eases c) = barDatasetSpacing c"
  unfolding frames_def
proof (induction eases arbitrary: c)
  case (Cons ease eases)
  have "sr_scale (snd (draw ease c)) = sr_scale c \<and> barValueSpacing (snd (draw ease c)) = barValueSpacing c
      \<and> barDatasetSpacing (snd (draw ease c)) = barDatasetSpacing c" by (simp add: draw_def Let_def)
  then show ?case using Cons.IH [OF bar_draw_keeps [OF Cons.prems]] by simp
qed simp

lemma drawn_bar:
  assumes "bar_ok e" "calculateBarX c (sr_scale c) (length (datasets c)) j (int i) = Fin x"
    and "calculateBarWidth c (sr_scale c) (length (datasets c)) = Fin bw"
  shows "enum (draw_bar c 1 j i e) ''x'' = Fin x" "enum (draw_bar c 1 j i e) ''width'' = Fin bw"
  using assms transition_end by (simp_all add: bar_ok_def draw_bar_def Let_def)

lemma first_hit_index:
  assumes "j < length (datasets c)" "i < length (ds_items (datasets c ! j))" "rect_inRange (item (datasets c) j i) x y"
    and unique: "\<And>k h. k < length (datasets c) \<Longrightarrow> h < length (ds_items (datasets c ! k)) \<Longrightarrow> rect_inRange (item (datasets c) k h) x y \<Longrightarrow> h = i"
  shows "first_hit c x y = Some i"
proof -
  let ?all = "concat (map (enumerate 0 \<circ> ds_items) (datasets c))" and ?P = "\<lambda>(i, e, _). rect_inRange e x y"
  have "enumerate 0 (ds_items (datasets c ! j)) ! i \<in> set ?all"
    using assms(1,2) by (auto simp del: nth_enumerate_eq intro!: bexI [of _ "datasets c ! j"] nth_mem)
  then have "(i, ds_items (datasets c ! j) ! i) \<in> set (filter ?P ?all)"
    using assms(2,3) by (simp add: nth_enumerate_eq item_def case_prod_beta)
  then obtain h e b zs where z: "filter ?P ?all = (h, e, b) # zs" by (cases "filter ?P ?all") auto
  then have "(h, e, b) \<in> set (filter ?P ?all)" by simp
  then obtain d where "d \<in> set (datasets c)" "(h, e, b) \<in> set (enumerate 0 (ds_items d))" "rect_inRange e x y" by auto
  then obtain k where "k < length (datasets c)" "h < length (ds_items (datasets c ! k))" "ds_items (datasets c ! k) ! h = (e, b)" "rect_inRange e x y"
    by (auto simp: in_set_conv_nth nth_enumerate_eq)
  then have "h = i" using unique [of k h] by (simp add: item_def)
  then show ?thesis using z by (simp add: first_hit_def)
qed

lemma drawn_hit:
  assumes "bars_ok ns c" "bar_grid (sr_scale c) w l r n" "barValueSpacing c = Fin vs" "barDatasetSpacing c = Fin ds" "0 \<le> ds" "1 / 2 < vs"
    and "calculateBarWidth c (sr_scale c) (length ns) = Fin bw" "0 \<le> bw" "j < length ns" "i < ns ! j"
    and "D = snd (draw 1 c)" "rect_inRange (item (datasets D) j i) (Fin mx) (Fin my)"
  shows "getBarsAtEvent D (Fin mx) (Fin my) = map (\<lambda>k. if i < ns ! k then Some (item (datasets D) k i) else None) [0..<length ns]"
proof -
  note shape = bars_ok_shape [OF assms(1)]
  have D: "bars_ok ns D" using bar_draw_keeps [OF assms(1)] by (simp add: assms(11))
  note shapeD = bars_ok_shape [OF D]
  have m: "0 < length ns" using assms(9) by (cases ns) auto
  have pos: "\<exists>a. calculateBarX c (sr_scale c) (length ns) k (int h) = Fin a \<and> a - bw / 2 \<le> mx \<and> mx \<le> a + bw / 2"
    if k: "k < length ns" "h < ns ! k" "rect_inRange (item (datasets D) k h) (Fin mx) (Fin my)" for k h
  proof -
    obtain a where a: "calculateBarX c (sr_scale c) (length ns) k (int h) = Fin a" using bar_measures(2) [OF assms(2-4) m] by blast
    have ok: "bar_ok (item (datasets c) k h)" using assms(1) k by (simp add: bars_ok_def)
    have "item (datasets D) k h = draw_bar c 1 k h (item (datasets c) k h)" using bar_item_draw [OF assms(1) k(1,2)] by (simp add: assms(11))
    then show ?thesis using drawn_bar [OF ok, of c k h a bw] a assms(7) shape(1) k(3) by (simp add: rect_inRange_def)
  qed
  have uniq: "h = i" if k: "k < length ns" "h < ns ! k" "rect_inRange (item (datasets D) k h) (Fin mx) (Fin my)" for k h
  proof -
    obtain a b where ab: "calculateBarX c (sr_scale c) (length ns) k (int h) = Fin a" "a - bw / 2 \<le> mx" "mx \<le> a + bw / 2"
      "calculateBarX c (sr_scale c) (length ns) j (int i) = Fin b" "b - bw / 2 \<le> mx" "mx \<le> b + bw / 2"
      using pos [OF k] pos [OF assms(9,10,12)] by blast
    note apart = bars_apart [OF assms(2-8)]
    have "\<not> int h < int i" "\<not> int i < int h" using apart [OF k(1) assms(9) _ ab(1,4)] apart [OF assms(9) k(1) _ ab(4,1)] ab by linarith+
    then show ?thesis by simp
  qed
  have "first_hit D (Fin mx) (Fin my) = Some i"
  proof (rule first_hit_index)
    show "j < length (datasets D)" "i < length (ds_items (datasets D ! j))" "rect_inRange (item (datasets D) j i) (Fin mx) (Fin my)"
      using assms(9,10,12) shapeD by simp_all
    show "h = i" if "k < length (datasets D)" "h < length (ds_items (datasets D ! k))" "rect_inRange (item (datasets D) k h) (Fin mx) (Fin my)" for k h
      using that uniq [of k h] shapeD by simp
  qed
  then have "getBarsAtEvent D (Fin mx) (Fin my) = map (\<lambda>d. map_option fst (idx (ds_items d) i)) (datasets D)" by (simp add: getBarsAtEvent_def)
  also have "\<dots> = map (\<lambda>k. if i < ns ! k then Some (item (datasets D) k i) else None) [0..<length ns]"
    using shapeD by (intro nth_equalityI) (simp_all add: idx_def item_def)
  finally show ?thesis .
qed

text \<open>What \<open>initialize\<close> leaves behind.\<close>

lemma bar_initialize_effect:
  assumes "initialize E data labels c = Some (Inr b)"
  shows "grid (sr_scale b) = (sr_width c, True, int (length labels), labels)" "barValueSpacing b = barValueSpacing c"
    "barDatasetSpacing b = barDatasetSpacing c" "map (length \<circ> ds_items) (datasets b) = map (length \<circ> in_data) data"
    "j < length data \<Longrightarrow> i < length (in_data (data ! j)) \<Longrightarrow>
       eget (item (datasets b) j i) ''value'' = in_data (data ! j) ! i
       \<and> nget (el_saved (item (datasets b) j i)) ''x'' = calculateBarX c (sr_scale b) (length data) j (int i)
       \<and> nget (el_saved (item (datasets b) j i)) ''width'' = calculateBarWidth c (sr_scale b) (length data)
       \<and> nget (el_saved (item (datasets b) j i)) ''y'' = s_endPoint (sr_scale b)"
proof -
  define c1 where "c1 = c\<lparr>sr_class := bar_class c\<rparr>"
  define c2 where "c2 = c1\<lparr>datasets := map (bar_dataset c1 labels) data\<rparr>"
  obtain s where s: "buildScale E labels c2 = Some (Inr s)" "b = place_bars (set_class [(''base'', JNum (s_endPoint s))] (c2\<lparr>sr_scale := s\<rparr>))"
    using assms by (auto simp: initialize_def Let_def c1_def c2_def)
  have b: "sr_scale b = s" by (simp add: s(2) place_bars_def set_class_def Let_def)
  show "grid (sr_scale b) = (sr_width c, True, int (length labels), labels)"
    using fit_grid [OF s(1) [unfolded buildScale_def]] by (simp add: b grid_def scale_options_def c1_def c2_def)
  show "barValueSpacing b = barValueSpacing c" "barDatasetSpacing b = barDatasetSpacing c"
    by (simp_all add: s(2) place_bars_def set_class_def Let_def c1_def c2_def)
  show "map (length \<circ> ds_items) (datasets b) = map (length \<circ> in_data) data"
    by (intro nth_equalityI) (simp_all add: s(2) place_bars_def set_class_def with_class_def Let_def c2_def bar_dataset_def)
  have pos: "calculateBarX (c2\<lparr>sr_scale := s, sr_class := k, datasets := ds\<rparr>) = calculateBarX c"
    "calculateBarWidth (c2\<lparr>sr_scale := s, sr_class := k, datasets := ds\<rparr>) = calculateBarWidth c" for k ds
    by (simp_all add: fun_eq_iff calculateBarX_def calculateBarWidth_def calculateBaseWidth_def Let_def c1_def c2_def)
  assume ji: "j < length data" "i < length (in_data (data ! j))"
  let ?ds = "with_class (put_all [(''base'', JNum (s_endPoint s))] (sr_class c2)) (datasets c2)"
  have len: "length ?ds = length data" "length (ds_items (?ds ! j)) = length (in_data (data ! j))"
    using ji by (simp_all add: with_class_def c2_def bar_dataset_def)
  have it: "item (datasets b) j i = save (item ?ds j i\<lparr>el_own := put_all [(''width'', JNum (calculateBarWidth c s (length data))),
      (''x'', JNum (calculateBarX c s (length data) j (int i))), (''y'', JNum (s_endPoint s))] (el_own (item ?ds j i))\<rparr>)"
    using ji len by (simp add: s(2) place_bars_def Let_def pos item_map_items set_class_def) (simp add: item_def case_prod_beta)
  have old: "has_own (el_own (item ?ds j i)) ''value''" "pget (el_own (item ?ds j i)) ''value'' = in_data (data ! j) ! i"
    using ji by (simp_all add: item_def with_class_def c2_def bar_dataset_def nth_enumerate_eq new_bar_def new_element_def)
  show "eget (item (datasets b) j i) ''value'' = in_data (data ! j) ! i
       \<and> nget (el_saved (item (datasets b) j i)) ''x'' = calculateBarX c (sr_scale b) (length data) j (int i)
       \<and> nget (el_saved (item (datasets b) j i)) ''width'' = calculateBarWidth c (sr_scale b) (length data)
       \<and> nget (el_saved (item (datasets b) j i)) ''y'' = s_endPoint (sr_scale b)"
    using old by (simp add: it b eget_def)
qed

text \<open>
  C30. A bar chart made from numbers (no more of them in a dataset than there are labels), with value
  spacing above half a pixel and bars whose width is not negative, after any frames of its animation
  and the last one: a mouse position on any bar gives, for every dataset, its bar of the same label;
  where a dataset has no value for the label, it gives \<open>undefined\<close>.
\<close>

theorem bars_at_mouse:
  assumes "initialize E data labels c = Some (Inr b)" "list_all (\<lambda>d. list_all isNumber (in_data d)) data"
    and "sr_width c = Fin w" "s_xScalePaddingLeft (sr_scale b) = Fin l" "s_xScalePaddingRight (sr_scale b) = Fin r" "l + r \<le> w"
    and "barValueSpacing c = Fin vs" "1 / 2 < vs" "barDatasetSpacing c = Fin ds" "0 \<le> ds"
    and "calculateBarWidth c (sr_scale b) (length data) = Fin bw" "0 \<le> bw" "labels \<noteq> []"
    and "D = snd (draw 1 (frames eases b))" "j < length data" "i < length (in_data (data ! j))"
    and "rect_inRange (item (datasets D) j i) (Fin mx) (Fin my)"
  shows "getBarsAtEvent D (Fin mx) (Fin my) =
    map (\<lambda>k. if i < length (in_data (data ! k)) then Some (item (datasets D) k i) else None) [0..<length data]"
proof -
  note init = bar_initialize_effect [OF assms(1)]
  let ?ns = "map (length \<circ> in_data) data"
  have grid: "bar_grid (sr_scale b) w l r (length labels)"
    using init(1) assms(3-6,13) by (simp add: bar_grid_def grid_def)
  have m: "0 < length data" using assms(15) by (cases data) auto
  have "bar_ok (item (datasets b) k h)" if "k < length data" "h < length (in_data (data ! k))" for k h
  proof -
    have "isNumber (in_data (data ! k) ! h)" using assms(2) that by (simp add: list_all_length)
    then show ?thesis
      using init(5) [OF that] bar_measures(2) [OF grid assms(7,9) m, of k "int h"] assms(11) by (simp add: bar_ok_def hasValue_def)
  qed
  then have "bars_ok ?ns b" using init(4) by (simp add: bars_ok_def)
  note f = bar_frames_keep [OF this, of eases]
  have bw: "calculateBarWidth (frames eases b) (sr_scale (frames eases b)) (length ?ns) = Fin bw"
    using f init(2,3) assms(11) by (simp add: calculateBarWidth_def calculateBaseWidth_def Let_def)
  have F: "bars_ok ?ns (frames eases b)" "bar_grid (sr_scale (frames eases b)) w l r (length labels)" "barValueSpacing (frames eases b) = Fin vs"
    "barDatasetSpacing (frames eases b) = Fin ds" using f grid init(2,3) assms(7,9) by simp_all
  have "getBarsAtEvent D (Fin mx) (Fin my) = map (\<lambda>k. if i < ?ns ! k then Some (item (datasets D) k i) else None) [0..<length ?ns]"
    by (rule drawn_hit [OF F assms(10,8) bw assms(12) _ _ assms(14,17)]) (use assms(15,16) in simp_all)
  then show ?thesis by (simp cong: map_cong)
qed

subsection \<open>Highlighting\<close>

text \<open>
  A bar that \<open>addData\<close> made has no highlight colours: with the mouse on it its colours become
  \<open>undefined\<close>.
\<close>

lemma added_bar_highlight:
  assumes "wf_props (sr_class c)" "\<not> has_own (sr_class c) ''highlightFill''"
  shows "eget (added_bar c label j value) ''highlightFill'' = JUndef"
  using assms by (simp add: added_bar_def Let_def pget_missing)

text \<open>Datasets of different lengths: the handler throws where one has no bar at the index.\<close>

lemma hover_short_dataset:
  assumes "first_hit c x y = Some i" "d \<in> set (datasets c)" "length (ds_items d) \<le> i"
  shows "hover (Some (x, y)) c = Inl TypeError"
  using assms by (auto simp: hover_def list_ex_iff Let_def)

text \<open>Leaving the chart gives all bars the colours they were saved with.\<close>

lemma mouseout_restores:
  assumes "hover None c = Inr c'" "j < length (datasets c)" "i < length (ds_items (datasets c ! j))" "k \<in> {''fillColor'', ''strokeColor''}"
  shows "eget (item (datasets c') j i) k = pget (el_saved (item (datasets c) j i)) k"
  using assms by (auto simp: hover_def Let_def item_map_items item_def case_prod_beta)

subsection \<open>Examples\<close>

definition example_bars :: bar_chart where
  "example_bars = \<lparr>sr_width = Fin 400, sr_height = Fin 300, sr_axis = example_axis, sr_class = [], datasets = [], sr_scale = example_scale,
     barShowStroke = False, barStrokeWidth = 0, barValueSpacing = Fin 5, barDatasetSpacing = 1\<rparr>"

definition example_series :: "real list \<Rightarrow> indata" where
  "example_series vs = \<lparr>in_label = JStr ''a'', in_fillColor = JStr ''red'', in_strokeColor = JStr ''red'', in_pointColor = JStr ''red'',
     in_pointStrokeColor = JStr ''red'', in_highlightFill = JUndef, in_highlightStroke = JUndef, in_data = map (\<lambda>v. JNum (Fin v)) vs\<rparr>"

lemma bar_example_initialize:
  "\<exists>b. initialize example_env [example_series [3, 7], example_series [4]] [JStr ''May'', JStr ''June''] example_bars = Some (Inr b)
     \<and> s_xScalePaddingLeft (sr_scale b) = Fin 0 \<and> s_xScalePaddingRight (sr_scale b) = Fin 0 \<and> s_startPoint (sr_scale b) = Fin 0
     \<and> s_endPoint (sr_scale b) = Fin 300 \<and> s_min (sr_scale b) = Fin 0 \<and> s_max (sr_scale b) = Fin 10"
  using example_fit [where p = 0 and offset = True and labels = "[JStr ''May'', JStr ''June'']"]
  by (fastforce simp: initialize_def buildScale_def Let_def bar_padding_def example_bars_def example_axis_def place_bars_def set_class_def)

lemma example_grid:
  assumes "s_xScalePaddingLeft s = Fin 0" "s_xScalePaddingRight s = Fin 0" "grid s = (Fin 400, True, 2, ls)"
  shows "bar_grid s 400 0 0 2" "calculateBarWidth example_bars s 2 = Fin (189 / 2)" "calculateBarX example_bars s 2 0 0 = Fin (209 / 4)"
proof -
  show g: "bar_grid s 400 0 0 2" using assms by (simp add: bar_grid_def grid_def)
  have "base_width 400 0 0 2 5 = 190" "label_x 400 0 0 2 0 = 100" by (simp_all add: base_width_def label_x_def)
  then show "calculateBarWidth example_bars s 2 = Fin (189 / 2)" "calculateBarX example_bars s 2 0 0 = Fin (209 / 4)"
    using bar_measures(1) [OF g, of example_bars 5 1 2] bar_measures(2) [OF g, of example_bars 5 1 2 0 0] by (simp_all add: example_bars_def bar_width_def)
qed


theorem bars_at_mouse_witness:
  "\<exists>b e f. initialize example_env [example_series [3, 7], example_series [4]] [JStr ''May'', JStr ''June''] example_bars = Some (Inr b)
     \<and> getBarsAtEvent (snd (draw 1 (frames [] b))) (Fin 52) (Fin 250) = [Some e, Some f]"
proof -
  let ?data = "[example_series [3, 7], example_series [4]]"
  obtain b where b: "initialize example_env ?data [JStr ''May'', JStr ''June''] example_bars = Some (Inr b)"
    "s_xScalePaddingLeft (sr_scale b) = Fin 0" "s_xScalePaddingRight (sr_scale b) = Fin 0" "s_startPoint (sr_scale b) = Fin 0"
    "s_endPoint (sr_scale b) = Fin 300" "s_min (sr_scale b) = Fin 0" "s_max (sr_scale b) = Fin 10" using bar_example_initialize by blast
  note init = bar_initialize_effect [OF b(1)]
  have g: "grid (sr_scale b) = (Fin 400, True, 2, [JStr ''May'', JStr ''June''])" using init(1) by (simp add: example_bars_def)
  note ex = example_grid [OF b(2,3) g]
  let ?D = "snd (draw 1 (frames [] b))"
  have pos: "calculateBarX b (sr_scale b) 2 0 0 = Fin (209 / 4)" "calculateBarWidth b (sr_scale b) 2 = Fin (189 / 2)"
    using ex init(2,3) by (simp_all add: calculateBarX_def calculateBarWidth_def calculateBaseWidth_def Let_def)
  have len: "length (datasets b) = 2" "length (ds_items (datasets b ! 0)) = 2"
    using init(4) by (auto simp: example_series_def)
  have it: "item (datasets ?D) 0 0 = draw_bar b 1 0 0 (item (datasets b) 0 0)"
    using len by (simp add: draw_def Let_def frames_def item_map_items) (simp add: item_def case_prod_beta)
  have v: "eget (item (datasets b) 0 0) ''value'' = JNum (Fin 3)" "nget (el_saved (item (datasets b) 0 0)) ''x'' = Fin (209 / 4)"
    "nget (el_saved (item (datasets b) 0 0)) ''width'' = Fin (189 / 2)" "nget (el_saved (item (datasets b) 0 0)) ''y'' = Fin 300"
    using init(5) [of 0 0] ex b(5) by (simp_all add: example_series_def numeral_2_eq_2)
  have "rect_inRange (item (datasets ?D) 0 0) (Fin 52) (Fin 250)"
    unfolding it using pos len v b(4-7) by (simp add: draw_bar_def hasValue_def rect_inRange_def calculateY_def drawingArea_def Let_def)
  then have "getBarsAtEvent ?D (Fin 52) (Fin 250) =
      map (\<lambda>k. if 0 < length (in_data (?data ! k)) then Some (item (datasets ?D) k 0) else None) [0..<length ?data]"
    using ex(2) by (intro bars_at_mouse [OF b(1) _ _ b(2,3), where w = 400 and vs = 5 and ds = 1 and bw = "189 / 2" and j = 0])
      (simp_all add: example_bars_def example_series_def numeral_2_eq_2)
  then show ?thesis using b(1) by (simp add: example_series_def)
qed

end
