(* ===== verification/Chart_Line.thy ===== *)
theory Chart_Line
  imports Chart_Series
begin

section \<open>Line charts\<close>

text \<open>
  The chart type \<open>Line\<close>: building the datasets, adding and removing data, the path of a dataset with its
  control points, drawing, and the points at a mouse position. The control points of a drawing are
  used only in it and are not kept with the points. \<open>line_inside\<close> says that the lines stay inside the
  drawing area.
\<close>

record line_chart = series +
  pointDot :: bool
  pointDotRadius :: jsnum
  pointDotStrokeWidth :: jsnum
  pointHitDetectionRadius :: jsnum
  bezierCurve :: bool
  bezierCurveTension :: jsnum
  datasetStrokeWidth :: jsval
  datasetFill :: bool

subsection \<open>Operations\<close>

definition point_class :: "line_chart \<Rightarrow> props" where
  "point_class c = [(''strokeWidth'', JNum (pointDotStrokeWidth c)), (''radius'', JNum (pointDotRadius c)),
     (''display'', JBool (pointDot c)), (''hitDetectionRadius'', JNum (pointHitDetectionRadius c))]"

text \<open>The hit test of the class, which looks at the horizontal position only.\<close>

definition inRange :: "element \<Rightarrow> jsnum \<Rightarrow> bool" where
  "inRange e mouseX = (Math_pow (mouseX - enum e ''x'') 2 < Math_pow (enum e ''radius'' + enum e ''hitDetectionRadius'') 2)"

definition line_padding :: "line_chart \<Rightarrow> jsnum" where
  "line_padding c = (if showScale (sr_axis c) then 0 else pointDotRadius c + pointDotStrokeWidth c)"

definition buildScale :: "env \<Rightarrow> jsval list \<Rightarrow> line_chart \<Rightarrow> (jserr + scale) option" where
  "buildScale E labels c =
     fit E (dataTotal (datasets c)) (scale_options E (sr_axis c) (sr_width c) (sr_height c) (line_padding c) False labels)"

definition new_point :: "line_chart \<Rightarrow> jsval list \<Rightarrow> indata \<Rightarrow> nat \<Rightarrow> jsval \<Rightarrow> element" where
  "new_point c labels d index dataPoint = new_element (point_class c)
     [(''value'', dataPoint), (''label'', label_at labels index), (''datasetLabel'', in_label d),
      (''strokeColor'', in_pointStrokeColor d), (''fillColor'', in_pointColor d),
      (''highlightFill'', js_or (in_highlightFill d) (in_pointColor d)),
      (''highlightStroke'', js_or (in_highlightStroke d) (in_pointStrokeColor d))]"

definition line_dataset :: "line_chart \<Rightarrow> jsval list \<Rightarrow> indata \<Rightarrow> dataset" where
  "line_dataset c labels d =
    \<lparr>ds_label = js_or (in_label d) JNull, ds_fillColor = in_fillColor d, ds_strokeColor = in_strokeColor d,
     ds_pointColor = in_pointColor d, ds_pointStrokeColor = in_pointStrokeColor d,
     ds_items = map (\<lambda>(i, v). (new_point c labels d i v, False)) (enumerate 0 (in_data d))\<rparr>"

definition place_points :: "line_chart \<Rightarrow> line_chart" where
  "place_points c =
     (let s = sr_scale c
      in c\<lparr>datasets := map_items (\<lambda>_ i (e, active).
             (save (e\<lparr>el_own := put_all [(''x'', JNum (calculateX s (Fin (real i)))), (''y'', JNum (s_endPoint s))] (el_own e)\<rparr>), active)) (datasets c)\<rparr>)"

text \<open>
  The scale is built again for every dataset, from the datasets so far. Without a dataset there is
  no scale, and the first drawing throws.
\<close>

fun add_datasets :: "env \<Rightarrow> jsval list \<Rightarrow> indata list \<Rightarrow> line_chart \<Rightarrow> (jserr + line_chart) option" where
  "add_datasets E labels [] c = Some (Inr c)"
| "add_datasets E labels (d # data) c =
     (let c = c\<lparr>datasets := datasets c @ [line_dataset c labels d]\<rparr>
      in case buildScale E labels c of
           None \<Rightarrow> None
         | Some (Inl err) \<Rightarrow> Some (Inl err)
         | Some (Inr s) \<Rightarrow> add_datasets E labels data (place_points (c\<lparr>sr_scale := s\<rparr>)))"

definition initialize :: "env \<Rightarrow> indata list \<Rightarrow> jsval list \<Rightarrow> line_chart \<Rightarrow> (jserr + line_chart) option" where
  "initialize E data labels c =
     (if data = [] then Some (Inl TypeError)
      else add_datasets E labels data (c\<lparr>sr_class := point_class c, datasets := []\<rparr>))"

definition update_points :: "env \<Rightarrow> line_chart \<Rightarrow> (jserr + line_chart) option" where
  "update_points E c =
     fitting (fit E (dataTotal (datasets c)) (sr_scale c))
       (\<lambda>s. c\<lparr>sr_scale := s, datasets := map_items (\<lambda>_ _ (e, active).
          (save (if active then restore_keys [''fillColor'', ''strokeColor''] e else e), active)) (datasets c)\<rparr>)"

definition added_point :: "line_chart \<Rightarrow> jsval \<Rightarrow> nat \<Rightarrow> jsval \<Rightarrow> element" where
  "added_point c label j value =
     (let s = sr_scale c
      in new_element (point_class c)
        [(''value'', value), (''label'', label), (''x'', JNum (calculateX s (Fin (of_int (s_valuesCount s + 1))))),
         (''y'', JNum (s_endPoint s)),
         (''strokeColor'', ds_pointStrokeColor (datasets c ! j)), (''fillColor'', ds_pointColor (datasets c ! j))])"

definition addData :: "env \<Rightarrow> jsval list \<Rightarrow> jsval \<Rightarrow> line_chart \<Rightarrow> (jserr + line_chart) option" where
  "addData E values label c =
     (if length (datasets c) < length values then Some (Inl TypeError)
      else
        (let ds = map (\<lambda>(j, d). if j < length values
                  then d\<lparr>ds_items := ds_items d @ [(added_point c label j (values ! j), False)]\<rparr> else d) (enumerate 0 (datasets c))
         in case addXLabel E (dataTotal ds) label (sr_scale c) of
              None \<Rightarrow> None
            | Some (Inl err) \<Rightarrow> Some (Inl err)
            | Some (Inr s) \<Rightarrow> update_points E (c\<lparr>datasets := ds, sr_scale := s\<rparr>)))"

definition removeData :: "env \<Rightarrow> line_chart \<Rightarrow> (jserr + line_chart) option" where
  "removeData E c =
     (case removeXLabel E (dataTotal (datasets c)) (sr_scale c) of
        None \<Rightarrow> None
      | Some (Inl err) \<Rightarrow> Some (Inl err)
      | Some (Inr s) \<Rightarrow> update_points E (c\<lparr>datasets := map (\<lambda>d. d\<lparr>ds_items := js_shift (ds_items d)\<rparr>) (datasets c), sr_scale := s\<rparr>))"

definition reflow :: "env \<Rightarrow> line_chart \<Rightarrow> (jserr + line_chart) option" where
  "reflow E c =
     fitting (scale_update E (dataTotal (datasets c)) (sr_height c) (sr_width c) (sr_scale c)) (\<lambda>s. c\<lparr>sr_scale := s\<rparr>)"

subsection \<open>The path of a dataset\<close>

definition notNull :: "element \<Rightarrow> bool" where
  "notNull e = (eget e ''value'' \<noteq> JNull)"

definition nextPoint :: "element \<Rightarrow> element list \<Rightarrow> nat \<Rightarrow> element" where
  "nextPoint point collection index = (case findNextWhere collection (on_item notNull) (Some index) of None \<Rightarrow> point | Some q \<Rightarrow> q)"

definition previousPoint :: "element \<Rightarrow> element list \<Rightarrow> nat \<Rightarrow> element" where
  "previousPoint point collection index = (case findPreviousWhere collection (on_item notNull) (Some index) of None \<Rightarrow> point | Some q \<Rightarrow> q)"

definition position :: "element \<Rightarrow> pt" where
  "position e = \<lparr>px = enum e ''x'', py = enum e ''y''\<rparr>"

definition capped :: "scale \<Rightarrow> pt \<Rightarrow> pt" where
  "capped s p = (if s_endPoint s < py p then p\<lparr>py := s_endPoint s\<rparr>
     else if py p < s_startPoint s then p\<lparr>py := s_startPoint s\<rparr> else p)"

definition control_of :: "line_chart \<Rightarrow> element list \<Rightarrow> nat \<Rightarrow> element \<Rightarrow> control_points" where
  "control_of c pw index point =
     (let tension = (if 0 < index \<and> index < length pw - 1 then bezierCurveTension c else 0);
          cp = splineCurve (position (previousPoint point pw index)) (position point) (position (nextPoint point pw index)) tension
      in \<lparr>cp_inner = capped (sr_scale c) (cp_inner cp), cp_outer = capped (sr_scale c) (cp_outer cp)\<rparr>)"

text \<open>The points of a dataset with their control points, which only a curve reads.\<close>

definition with_controls :: "line_chart \<Rightarrow> element list \<Rightarrow> (element \<times> control_points) list" where
  "with_controls c pw = map (\<lambda>(i, p). (p, control_of c pw i p)) (enumerate 0 pw)"

definition previous_control :: "(element \<times> control_points) \<Rightarrow> (element \<times> control_points) list \<Rightarrow> nat \<Rightarrow> control_points" where
  "previous_control q pcs index =
     snd (case findPreviousWhere pcs (on_item (notNull \<circ> fst)) (Some index) of None \<Rightarrow> q | Some q' \<Rightarrow> q')"

definition path_cmd :: "line_chart \<Rightarrow> (element \<times> control_points) list \<Rightarrow> nat \<Rightarrow> element \<times> control_points \<Rightarrow> cmd" where
  "path_cmd c pcs index q =
     (let (point, cp) = q
      in if index = 0 then MoveTo (enum point ''x'') (enum point ''y'')
         else if bezierCurve c then
           (let prev = previous_control q pcs index
            in BezierCurveTo (px (cp_outer prev)) (py (cp_outer prev)) (px (cp_inner cp)) (py (cp_inner cp))
                 (enum point ''x'') (enum point ''y''))
         else LineTo (enum point ''x'') (enum point ''y''))"

definition line_path :: "line_chart \<Rightarrow> dataset \<Rightarrow> cmd list" where
  "line_path c d =
     (let pw = where_arr (map fst (ds_items d)) notNull;
          pcs = with_controls c pw
      in [SetP ''lineWidth'' (datasetStrokeWidth c), SetP ''strokeStyle'' (ds_strokeColor d), BeginPath]
         @ map (\<lambda>(i, q). path_cmd c pcs i q) (enumerate 0 pcs)
         @ [Stroke]
         @ (if datasetFill c \<and> pw \<noteq> []
            then [LineTo (enum (last pw) ''x'') (s_endPoint (sr_scale c)), LineTo (enum (hd pw) ''x'') (s_endPoint (sr_scale c)),
                  SetP ''fillStyle'' (ds_fillColor d), ClosePath, Fill]
            else []))"

definition move_point :: "line_chart \<Rightarrow> jsnum \<Rightarrow> nat \<Rightarrow> element \<Rightarrow> element" where
  "move_point c ease i point =
     (if hasValue point
      then transition [(''y'', JNum (calculateY (sr_scale c) (enum point ''value''))),
             (''x'', JNum (calculateX (sr_scale c) (Fin (real i))))] ease point
      else point)"

definition draw :: "jsnum \<Rightarrow> line_chart \<Rightarrow> cmd list \<times> line_chart" where
  "draw ease c =
     (let easingDecimal = (if num_truthy ease then ease else 1);
          ds = map_items (\<lambda>j i (e, active). (move_point c easingDecimal i e, active)) (datasets c)
      in (scale_draw (sr_scale c) (clear_chart (sr_width c) (sr_height c))
            @ concat (map (\<lambda>d. line_path c d @ concat (map point_draw (where_arr (map fst (ds_items d)) notNull))) ds),
          c\<lparr>datasets := ds\<rparr>))"

subsection \<open>Points under the mouse\<close>

definition getPointsAtEvent :: "line_chart \<Rightarrow> jsnum \<Rightarrow> element list" where
  "getPointsAtEvent c x = filter (\<lambda>e. inRange e x) (concat (map (map fst \<circ> ds_items) (datasets c)))"

text \<open>The handler of the tooltip events up to the call of \<open>showTooltip\<close>; \<open>None\<close> is a \<open>mouseout\<close> event.\<close>

definition hover :: "jsnum option \<Rightarrow> line_chart \<Rightarrow> line_chart" where
  "hover pos c =
     (let hit = (\<lambda>e. case pos of None \<Rightarrow> False | Some x \<Rightarrow> inRange e x)
      in c\<lparr>datasets := map_items (\<lambda>_ _ (e, _).
           (let e' = restore_keys [''fillColor'', ''strokeColor''] e
            in if hit e then eset ''strokeColor'' (eget e' ''highlightStroke'') (eset ''fillColor'' (eget e' ''highlightFill'') e')
               else e', hit e)) (datasets c)\<rparr>)"

subsection \<open>Control points\<close>

fun in_span :: "real \<Rightarrow> real \<Rightarrow> jsnum \<Rightarrow> bool" where
  "in_span a e (Fin y) = (a \<le> y \<and> y \<le> e)"
| "in_span a e _ = False"

text \<open>The vertical positions of a path command lie between \<open>a\<close> and \<open>e\<close>.\<close>

fun inside :: "real \<Rightarrow> real \<Rightarrow> cmd \<Rightarrow> bool" where
  "inside a e (MoveTo x y) = in_span a e y"
| "inside a e (LineTo x y) = in_span a e y"
| "inside a e (BezierCurveTo x1 y1 x2 y2 x y) = (in_span a e y1 \<and> in_span a e y2 \<and> in_span a e y)"
| "inside a e _ = True"

text \<open>A Bezier curve lies between bounds of its end points and control points.\<close>

definition bezier :: "real \<Rightarrow> real \<Rightarrow> real \<Rightarrow> real \<Rightarrow> real \<Rightarrow> real" where
  "bezier p q r u t = (1 - t) ^ 3 * p + 3 * (1 - t)\<^sup>2 * t * q + 3 * (1 - t) * t\<^sup>2 * r + t ^ 3 * u"

lemma bezier_upper:
  assumes "p \<le> e" "q \<le> e" "r \<le> e" "u \<le> e" "0 \<le> t" "t \<le> 1"
  shows "bezier p q r u t \<le> e"
proof -
  have "bezier p q r u t \<le> (1 - t) ^ 3 * e + 3 * (1 - t)\<^sup>2 * t * e + 3 * (1 - t) * t\<^sup>2 * e + t ^ 3 * e"
    unfolding bezier_def using assms by (intro add_mono mult_left_mono) auto
  also have "\<dots> = e" by (simp add: power2_eq_square power3_eq_cube algebra_simps)
  finally show ?thesis .
qed

lemma bezier_between:
  assumes "list_all (\<lambda>y. a \<le> y \<and> y \<le> e) [p, q, r, u]" "0 \<le> t" "t \<le> 1"
  shows "a \<le> bezier p q r u t \<and> bezier p q r u t \<le> e"
  using assms bezier_upper [of p e q r u t] bezier_upper [of "- p" "- a" "- q" "- r" "- u" t] by (simp add: bezier_def)

lemma find_all: "xs \<noteq> [] \<Longrightarrow> list_all p xs \<Longrightarrow> List.find p xs = Some (hd xs)"
  by (cases xs) auto

lemma find_previous:
  assumes "list_all p xs" "i < length xs"
  shows "findPreviousWhere xs (on_item p) (Some i) = Some (xs ! (if i = 0 then length xs - 1 else i - 1))"
proof -
  let ?ys = "rev (if i = 0 then xs else take i xs)"
  have "?ys \<noteq> []" "list_all p ?ys" using assms by (auto simp: list_all_iff dest: in_set_takeD)
  moreover have "hd ?ys = xs ! (if i = 0 then length xs - 1 else i - 1)"
    using assms(2) by (cases i) (auto simp: hd_rev last_conv_nth take_Suc_conv_app_nth)
  ultimately show ?thesis using find_where_spec [of i xs p] assms(2) find_all [of ?ys p] by simp
qed

lemma find_next:
  assumes "list_all p xs" "i < length xs"
  shows "findNextWhere xs (on_item p) (Some i) = (if i = 0 then Some (xs ! 0) else if Suc i < length xs then Some (xs ! Suc i) else None)"
proof -
  let ?ys = "if i = 0 then xs else drop (Suc i) xs"
  have "list_all p ?ys" using assms by (auto simp: list_all_iff dest: in_set_dropD)
  then show ?thesis using find_where_spec [of i xs p] assms(2) find_all [of ?ys p]
    by (auto simp: hd_conv_nth hd_drop_conv_nth)
qed

lemma capped_within:
  assumes "py p = Fin y" "s_startPoint s = Fin a" "s_endPoint s = Fin e" "a \<le> e"
  shows "in_span a e (py (capped s p))"
  using assms by (auto simp: capped_def)

text \<open>Points on the canvas from left to right.\<close>

definition on_canvas :: "real \<Rightarrow> real \<Rightarrow> element list \<Rightarrow> bool" where
  "on_canvas a e pw = (list_all (\<lambda>p. notNull p \<and> (\<exists>x y. enum p ''x'' = Fin x \<and> enum p ''y'' = Fin y \<and> a \<le> y \<and> y \<le> e)) pw
     \<and> sorted_wrt (\<lambda>p q. enum p ''x'' < enum q ''x'') pw)"

lemma on_canvasD:
  assumes "on_canvas a e pw" "i < length pw"
  shows "notNull (pw ! i)" "\<exists>x y. enum (pw ! i) ''x'' = Fin x \<and> enum (pw ! i) ''y'' = Fin y \<and> a \<le> y \<and> y \<le> e"
  using assms by (auto simp: on_canvas_def list_all_length)

lemma on_canvas_notNull: "on_canvas a e pw \<Longrightarrow> list_all notNull pw"
  by (auto simp: on_canvas_def list_all_iff)

lemma control_within:
  assumes "on_canvas a e pw" "i < length pw" "2 \<le> length pw" "s_startPoint (sr_scale c) = Fin a" "s_endPoint (sr_scale c) = Fin e"
    and "bezierCurveTension c = Fin t" "0 \<le> t"
  shows "in_span a e (py (cp_inner (control_of c pw i (pw ! i)))) \<and> in_span a e (py (cp_outer (control_of c pw i (pw ! i))))"
proof -
  define k where "k = (if i = 0 then length pw - 1 else i - 1)"
  have k: "k < length pw" "k \<noteq> i" using assms(2,3) by (auto simp: k_def)
  have prev: "previousPoint (pw ! i) pw i = pw ! k"
    using find_previous [OF on_canvas_notNull [OF assms(1)] assms(2)] by (simp add: previousPoint_def k_def)
  obtain n where next': "n < length pw" "nextPoint (pw ! i) pw i = pw ! n"
    using find_next [OF on_canvas_notNull [OF assms(1)] assms(2)] assms(2) by (auto simp: nextPoint_def split: if_splits)
  obtain mx my where m: "enum (pw ! i) ''x'' = Fin mx" "enum (pw ! i) ''y'' = Fin my" "a \<le> my" "my \<le> e" using on_canvasD(2) [OF assms(1,2)] by blast
  obtain fx fy where f: "enum (pw ! k) ''x'' = Fin fx" "enum (pw ! k) ''y'' = Fin fy" using on_canvasD(2) [OF assms(1) k(1)] by blast
  obtain ax ay where n: "enum (pw ! n) ''x'' = Fin ax" "enum (pw ! n) ''y'' = Fin ay" using on_canvasD(2) [OF assms(1) next'(1)] by blast
  have sorted: "enum (pw ! g) ''x'' < enum (pw ! h) ''x''" if "g < h" "h < length pw" for g h
    using assms(1) that by (auto simp: on_canvas_def sorted_wrt_iff_nth_less)
  have "mx \<noteq> fx" using sorted [of i k] sorted [of k i] k assms(2) m(1) f(1) by (cases "i < k") auto
  define t' where "t' = (if 0 < i \<and> i < length pw - 1 then t else 0)"
  have "0 \<le> t'" using assms(7) by (simp add: t'_def)
  with \<open>mx \<noteq> fx\<close> obtain fa fb where "splineCurve \<lparr>px = Fin fx, py = Fin fy\<rparr> \<lparr>px = Fin mx, py = Fin my\<rparr> \<lparr>px = Fin ax, py = Fin ay\<rparr> (Fin t') =
       \<lparr>cp_inner = \<lparr>px = Fin (mx - fa * (ax - fx)), py = Fin (my - fa * (ay - fy))\<rparr>,
        cp_outer = \<lparr>px = Fin (mx + fb * (ax - fx)), py = Fin (my + fb * (ay - fy))\<rparr>\<rparr>"
    using splineCurve_chord [of mx my fx fy ax ay t'] by blast
  moreover have "(if 0 < i \<and> i < length pw - 1 then bezierCurveTension c else 0) = Fin t'" using assms(6) by (simp add: t'_def)
  ultimately show ?thesis
    using capped_within [OF _ assms(4,5)] m(3,4) unfolding control_of_def Let_def prev next'(2) position_def m f n by (auto simp: m f n)
qed

lemma path_inside:
  assumes "on_canvas a e pw" "s_startPoint (sr_scale c) = Fin a" "s_endPoint (sr_scale c) = Fin e"
    and "bezierCurveTension c = Fin t" "0 \<le> t" "i < length pw"
  shows "inside a e (path_cmd c (with_controls c pw) i (pw ! i, control_of c pw i (pw ! i)))"
proof (cases "i = 0 \<or> \<not> bezierCurve c")
  case True
  then show ?thesis using on_canvasD(2) [OF assms(1,6)] by (auto simp: path_cmd_def Let_def)
next
  case False
  let ?pcs = "with_controls c pw"
  have len: "length ?pcs = length pw" "\<And>k. k < length pw \<Longrightarrow> ?pcs ! k = (pw ! k, control_of c pw k (pw ! k))"
    by (simp_all add: with_controls_def nth_enumerate_eq)
  have "list_all (notNull \<circ> fst) ?pcs" using on_canvas_notNull [OF assms(1)] by (simp add: list_all_length len)
  from find_previous [OF this, of i] have prev: "previous_control (pw ! i, cp) ?pcs i = control_of c pw (i - 1) (pw ! (i - 1))" for cp
    using False assms(6) len by (simp add: previous_control_def)
  note cw = control_within [OF assms(1) _ _ assms(2-5)]
  have "2 \<le> length pw" "i - 1 < length pw" using False assms(6) by auto
  then show ?thesis using False cw [OF assms(6)] cw [of "i - 1"] on_canvasD(2) [OF assms(1,6)] by (auto simp: path_cmd_def prev Let_def)
qed

lemma line_path_inside:
  assumes "on_canvas a e (filter notNull (map fst (ds_items d)))" "s_startPoint (sr_scale c) = Fin a" "s_endPoint (sr_scale c) = Fin e"
    and "bezierCurveTension c = Fin t" "0 \<le> t" "a \<le> e"
  shows "list_all (inside a e) (line_path c d)"
proof -
  let ?pw = "filter notNull (map fst (ds_items d))"
  let ?path = "map (\<lambda>(i, q). path_cmd c (with_controls c ?pw) i q) (enumerate 0 (with_controls c ?pw))"
  have "?path ! i = path_cmd c (with_controls c ?pw) i (?pw ! i, control_of c ?pw i (?pw ! i))" if "i < length ?pw" for i
    using that by (simp add: with_controls_def nth_enumerate_eq del: filter_map)
  then have "list_all (inside a e) ?path"
    using path_inside [OF assms(1-5)] by (simp add: list_all_length with_controls_def)
  then show ?thesis using assms(3,6) by (simp add: line_path_def where_arr_filter Let_def)
qed

subsection \<open>From the data to the path\<close>

text \<open>A line scale with finite measures and at least a pixel between two labels.\<close>

definition line_grid :: "scale \<Rightarrow> real \<Rightarrow> real \<Rightarrow> real \<Rightarrow> nat \<Rightarrow> bool" where
  "line_grid s w l r n = (s_width s = Fin w \<and> s_xScalePaddingLeft s = Fin l \<and> s_xScalePaddingRight s = Fin r \<and> real n - 1 \<le> w - (l + r)
     \<and> s_valuesCount s = int n \<and> 1 < n \<and> \<not> s_offsetGridLines s)"

lemma calculateX_line:
  assumes "line_grid s w l r n"
  shows "\<exists>f. strict_mono f \<and> (\<forall>i. calculateX s (Fin (real i)) = Fin (of_int (f i)))"
proof -
  define v where "v = (w - (l + r)) / (real n - 1)"
  define f where "f i = \<lfloor>v * real i + l + 1 / 2\<rfloor>" for i :: nat
  have v: "1 \<le> v" using assms by (simp add: v_def line_grid_def)
  have "strict_mono f"
  proof (unfold strict_mono_Suc_iff, rule allI)
    fix i
    have "v * real i + l + 1 / 2 + 1 \<le> v * real (Suc i) + l + 1 / 2" using v by (simp add: algebra_simps)
    then show "f i < f (Suc i)" unfolding f_def by linarith
  qed
  moreover have "calculateX s (Fin (real i)) = Fin (of_int (f i))" for i
    using assms by (simp add: calculateX_def line_grid_def f_def v_def Let_def)
  ultimately show ?thesis by blast
qed

lemma calculateY_within:
  assumes "s_startPoint s = Fin a" "s_endPoint s = Fin e" "s_min s = Fin lo" "s_max s = Fin hi" "a \<le> e" "lo < hi" "lo \<le> v" "v \<le> hi"
  shows "\<exists>y. calculateY s (Fin v) = Fin y \<and> a \<le> y \<and> y \<le> e"
proof -
  define q where "q = (v - lo) / (hi - lo)"
  have q: "0 \<le> q" "q \<le> 1" using assms(6-8) by (simp_all add: q_def)
  have "calculateY s (Fin v) = Fin (e - (e - a) * q)"
    using assms by (simp add: calculateY_def drawingArea_def Let_def q_def) (simp add: divide_simps, simp add: algebra_simps)
  moreover have "0 \<le> (e - a) * q" "(e - a) * q \<le> (e - a) * 1" using q assms(5) by (simp, intro mult_left_mono) simp_all
  ultimately show ?thesis by (intro exI [of _ "e - (e - a) * q"]) simp
qed

text \<open>A point without a value, or with one in the range of the scale and finite snapshots.\<close>

definition point_ok :: "real \<Rightarrow> real \<Rightarrow> element \<Rightarrow> bool" where
  "point_ok lo hi p = (eget p ''value'' = JNull \<or> ((\<exists>v. eget p ''value'' = JNum (Fin v) \<and> lo \<le> v \<and> v \<le> hi)
     \<and> is_fin (nget (el_saved p) ''x'') \<and> is_fin (nget (el_saved p) ''y'')))"

definition points_ok :: "real \<Rightarrow> real \<Rightarrow> line_chart \<Rightarrow> bool" where
  "points_ok lo hi c = list_all (\<lambda>d. list_all (\<lambda>(p, _). point_ok lo hi p) (ds_items d)) (datasets c)"

lemma move_point_keeps: "point_ok lo hi p \<Longrightarrow> point_ok lo hi (move_point c ease i p)"
  by (auto simp: point_ok_def move_point_def)

lemma line_draw_keeps:
  assumes "points_ok lo hi c"
  shows "points_ok lo hi (snd (draw ease c))"
  using assms by (auto simp: points_ok_def draw_def Let_def list_all_length case_prod_beta move_point_keeps)

definition frames :: "jsnum list \<Rightarrow> line_chart \<Rightarrow> line_chart" where
  "frames eases c = fold (\<lambda>ease c. snd (draw ease c)) eases c"

definition setting :: "line_chart \<Rightarrow> scale \<times> bool \<times> jsnum \<times> bool" where
  "setting c = (sr_scale c, bezierCurve c, bezierCurveTension c, datasetFill c)"

lemma line_frames_keep: "points_ok lo hi c \<Longrightarrow> points_ok lo hi (frames eases c) \<and> setting (frames eases c) = setting c \<and> length (datasets (frames eases c)) = length (datasets c)"
  unfolding frames_def
proof (induction eases arbitrary: c)
  case (Cons ease eases)
  have "setting (snd (draw ease c)) = setting c" "length (datasets (snd (draw ease c))) = length (datasets c)" by (simp_all add: draw_def Let_def setting_def)
  then show ?case using Cons.IH [OF line_draw_keeps [OF Cons.prems]] by simp
qed simp

lemma line_moved_point:
  assumes "point_ok lo hi p" "notNull p" "s_startPoint (sr_scale c) = Fin a" "s_endPoint (sr_scale c) = Fin e"
    and "s_min (sr_scale c) = Fin lo" "s_max (sr_scale c) = Fin hi" "a \<le> e" "lo < hi" "calculateX (sr_scale c) (Fin (real i)) = Fin x"
  shows "notNull (move_point c 1 i p)" "enum (move_point c 1 i p) ''x'' = Fin x" "\<exists>y. enum (move_point c 1 i p) ''y'' = Fin y \<and> a \<le> y \<and> y \<le> e"
proof -
  obtain v where v: "eget p ''value'' = JNum (Fin v)" "lo \<le> v" "v \<le> hi" "is_fin (nget (el_saved p) ''x'')" "is_fin (nget (el_saved p) ''y'')"
    using assms(1,2) by (auto simp: point_ok_def notNull_def)
  obtain y where y: "calculateY (sr_scale c) (Fin v) = Fin y" "a \<le> y" "y \<le> e" using calculateY_within [OF assms(3-8) v(2,3)] by blast
  show "notNull (move_point c 1 i p)" "enum (move_point c 1 i p) ''x'' = Fin x" "\<exists>y. enum (move_point c 1 i p) ''y'' = Fin y \<and> a \<le> y \<and> y \<le> e"
    using v y assms(9) transition_end [OF v(4), of x] transition_end [OF v(5), of y] by (simp_all add: move_point_def hasValue_def notNull_def)
qed

lemma drawn_on_canvas:
  assumes "points_ok lo hi c" "s_startPoint (sr_scale c) = Fin a" "s_endPoint (sr_scale c) = Fin e"
    and "s_min (sr_scale c) = Fin lo" "s_max (sr_scale c) = Fin hi" "a \<le> e" "lo < hi" "line_grid (sr_scale c) w l r n" "j < length (datasets c)"
  shows "on_canvas a e (filter notNull (map fst (ds_items (datasets (snd (draw 1 c)) ! j))))"
proof -
  obtain f where f: "strict_mono f" "\<And>i. calculateX (sr_scale c) (Fin (real i)) = Fin (of_int (f i))" using calculateX_line [OF assms(8)] by blast
  let ?old = "ds_items (datasets c ! j)" and ?es = "map fst (ds_items (datasets (snd (draw 1 c)) ! j))"
  have es: "length ?es = length ?old" "\<And>i. i < length ?old \<Longrightarrow> ?es ! i = move_point c 1 i (fst (?old ! i))"
    using assms(9) by (simp_all add: draw_def Let_def case_prod_beta)
  have old: "point_ok lo hi (fst (?old ! i))" if "i < length ?old" for i
    using assms(1,9) that by (simp add: points_ok_def list_all_length case_prod_beta)
  have nn: "notNull (fst (?old ! i))" if "i < length ?old" "notNull (?es ! i)" for i
    using that es(2) by (auto simp: notNull_def move_point_def split: if_splits)
  note moved = line_moved_point [OF old nn assms(2-7) f(2)]
  have x: "enum (?es ! i) ''x'' = Fin (of_int (f i))" "\<exists>y. enum (?es ! i) ''y'' = Fin y \<and> a \<le> y \<and> y \<le> e"
    if "i < length ?old" "notNull (?es ! i)" for i
    using moved(2,3) [OF that(1,1,2), of i] es(2) [OF that(1)] by simp_all
  have "sorted_wrt (\<lambda>p q. notNull p \<and> notNull q \<longrightarrow> enum p ''x'' < enum q ''x'') ?es"
    unfolding sorted_wrt_iff_nth_less using x(1) es(1) f(1) by (auto simp: strict_mono_def)
  then have "sorted_wrt (\<lambda>p q. enum p ''x'' < enum q ''x'') (filter notNull ?es)"
    by (intro sorted_wrt_mono_rel [OF _ sorted_wrt_filter]) auto
  moreover have "\<exists>x y. enum p ''x'' = Fin x \<and> enum p ''y'' = Fin y \<and> a \<le> y \<and> y \<le> e" if p: "p \<in> set ?es" "notNull p" for p
  proof -
    obtain i where i: "i < length ?old" "p = ?es ! i" using p(1) es(1) by (metis in_set_conv_nth)
    then show ?thesis using x(1) [OF i(1)] x(2) [OF i(1)] p(2) by blast
  qed
  ultimately show ?thesis by (auto simp: on_canvas_def list_all_iff)
qed

text \<open>What \<open>initialize\<close> leaves behind.\<close>

definition values_of :: "dataset list \<Rightarrow> jsval list list" where
  "values_of ds = map (map (\<lambda>(p, _). eget p ''value'') \<circ> ds_items) ds"

definition placed :: "line_chart \<Rightarrow> bool" where
  "placed c = list_all (\<lambda>d. list_all (\<lambda>(i, p, _). nget (el_saved p) ''x'' = calculateX (sr_scale c) (Fin (real i))
     \<and> nget (el_saved p) ''y'' = s_endPoint (sr_scale c)) (enumerate 0 (ds_items d))) (datasets c)"

lemma place_points_placed: "placed (place_points c)"
  by (auto simp: placed_def place_points_def Let_def list_all_length nth_enumerate_eq case_prod_beta)

lemma place_points_values: "values_of (datasets (place_points c)) = values_of (datasets c)"
  by (auto simp: values_of_def place_points_def Let_def case_prod_beta eget_def save_def intro!: nth_equalityI)

lemma new_point_value: "map (\<lambda>(p, _). eget p ''value'') (ds_items (line_dataset c labels d)) = in_data d"
  by (auto simp: line_dataset_def new_point_def nth_enumerate_eq intro!: nth_equalityI)

lemma add_datasets_effect:
  assumes "add_datasets E labels data c = Some (Inr b)"
  shows "bezierCurveTension b = bezierCurveTension c \<and> values_of (datasets b) = values_of (datasets c) @ map in_data data \<and> sr_width b = sr_width c
    \<and> (data \<noteq> [] \<longrightarrow> placed b \<and> grid (sr_scale b) = (sr_width c, False, int (length labels), labels))"
  using assms
proof (induction E labels data c rule: add_datasets.induct)
  case (2 E labels d data c)
  define c1 where "c1 = c\<lparr>datasets := datasets c @ [line_dataset c labels d]\<rparr>"
  obtain s where s: "buildScale E labels c1 = Some (Inr s)" "add_datasets E labels data (place_points (c1\<lparr>sr_scale := s\<rparr>)) = Some (Inr b)"
    using "2.prems" by (auto simp: Let_def c1_def split: option.splits sum.splits)
  let ?c = "place_points (c1\<lparr>sr_scale := s\<rparr>)"
  have g: "grid s = (sr_width c, False, int (length labels), labels)"
    using fit_grid [OF s(1) [unfolded buildScale_def]] by (simp add: grid_def scale_options_def c1_def)
  have c: "bezierCurveTension ?c = bezierCurveTension c" "sr_width ?c = sr_width c" "sr_scale ?c = s"
    by (simp_all add: place_points_def Let_def c1_def)
  have "values_of (datasets (c1\<lparr>sr_scale := s\<rparr>)) = values_of (datasets c) @ [in_data d]"
    using new_point_value by (simp add: values_of_def c1_def)
  then have v: "values_of (datasets ?c) = values_of (datasets c) @ [in_data d]" by (simp add: place_points_values)
  note IH = "2.IH" [OF c1_def s(1) [unfolded c1_def [symmetric]] refl s(2)]
  show ?case
  proof (cases "data = []")
    case True
    then have "b = ?c" using s(2) by simp
    then show ?thesis using True c v g place_points_placed [of "c1\<lparr>sr_scale := s\<rparr>"] by simp
  next
    case False
    then show ?thesis using IH c v by simp
  qed
qed simp

lemma placed_ok:
  assumes "values_of (datasets b) = map in_data data" "placed b" "line_grid (sr_scale b) w l r n" "s_endPoint (sr_scale b) = Fin e"
    and "list_all (\<lambda>d. list_all (\<lambda>v. v = JNull \<or> (\<exists>x. v = JNum (Fin x) \<and> lo \<le> x \<and> x \<le> hi)) (in_data d)) data"
  shows "points_ok lo hi b"
proof -
  have len: "length (datasets b) = length data" using arg_cong [OF assms(1), of length] by (simp add: values_of_def)
  have "point_ok lo hi (fst (ds_items (datasets b ! j) ! i))" if ji: "j < length data" "i < length (ds_items (datasets b ! j))" for j i
  proof -
    let ?p = "fst (ds_items (datasets b ! j) ! i)"
    have d: "map (\<lambda>(p, _). eget p ''value'') (ds_items (datasets b ! j)) = in_data (data ! j)"
      using arg_cong [OF assms(1), of "\<lambda>xs. xs ! j"] ji(1) len by (simp add: values_of_def)
    then have "eget ?p ''value'' = in_data (data ! j) ! i" "i < length (in_data (data ! j))"
      using ji(2) by (auto simp: d [symmetric] case_prod_beta)
    moreover have "nget (el_saved ?p) ''x'' = calculateX (sr_scale b) (Fin (real i))" "nget (el_saved ?p) ''y'' = s_endPoint (sr_scale b)"
      using assms(2) ji len by (auto simp: placed_def list_all_length nth_enumerate_eq case_prod_beta)
    moreover obtain f where "calculateX (sr_scale b) (Fin (real i)) = Fin f" using calculateX_line [OF assms(3)] by blast
    ultimately show ?thesis using assms(4,5) ji(1) by (auto simp: point_ok_def list_all_length)
  qed
  then show ?thesis by (simp add: points_ok_def list_all_length len case_prod_beta)
qed


subsection \<open>Examples\<close>

definition example_line :: line_chart where
  "example_line = \<lparr>sr_width = Fin 400, sr_height = Fin 300, sr_axis = example_axis, sr_class = [], datasets = [], sr_scale = example_scale,
     pointDot = True, pointDotRadius = Fin 4, pointDotStrokeWidth = Fin 1, pointHitDetectionRadius = Fin 20, bezierCurve = True,
     bezierCurveTension = Fin (2 / 5), datasetStrokeWidth = JNum 2, datasetFill = True\<rparr>"

definition example_values :: indata where
  "example_values = \<lparr>in_label = JStr ''a'', in_fillColor = JStr ''red'', in_strokeColor = JStr ''red'', in_pointColor = JStr ''red'',
     in_pointStrokeColor = JStr ''red'', in_highlightFill = JUndef, in_highlightStroke = JUndef,
     in_data = [JNum (Fin 10), JNull, JNum (Fin 0), JNum (Fin 9)]\<rparr>"

lemma line_example_initialize:
  "\<exists>b. initialize example_env [example_values] (replicate 4 (JStr ''May'')) example_line = Some (Inr b)
     \<and> s_xScalePaddingLeft (sr_scale b) = Fin 5 \<and> s_xScalePaddingRight (sr_scale b) = Fin 5 \<and> s_startPoint (sr_scale b) = Fin 5
     \<and> s_endPoint (sr_scale b) = Fin 295 \<and> s_min (sr_scale b) = Fin 0 \<and> s_max (sr_scale b) = Fin 10"
proof -
  define c1 where "c1 = example_line\<lparr>sr_class := point_class example_line, datasets := [line_dataset (example_line\<lparr>sr_class := point_class example_line, datasets := []\<rparr>) (replicate 4 (JStr ''May'')) example_values]\<rparr>"
  have c: "sr_axis c1 = example_axis" "sr_width c1 = Fin 400" "sr_height c1 = Fin 300" "line_padding c1 = Fin 5"
    by (simp_all add: c1_def example_line_def line_padding_def example_axis_def)
  obtain s where s: "buildScale example_env (replicate 4 (JStr ''May'')) c1 = Some (Inr s)" "s_xScalePaddingLeft s = Fin 5" "s_xScalePaddingRight s = Fin 5"
    "s_startPoint s = Fin 5" "s_endPoint s = Fin 295" "s_min s = Fin 0" "s_max s = Fin 10"
    using example_fit [of "dataTotal (datasets c1)" 5 False "replicate 4 (JStr ''May'')"] by (auto simp: buildScale_def c)
  have "initialize example_env [example_values] (replicate 4 (JStr ''May'')) example_line = Some (Inr (place_points (c1\<lparr>sr_scale := s\<rparr>)))"
    using s(1) by (simp add: initialize_def c1_def)
  then show ?thesis using s by (simp add: place_points_def Let_def)
qed


end
