(* ===== verification/Radial_Scale.thy ===== *)
theory Radial_Scale
  imports Chart_Series
begin

section \<open>The radial scale\<close>

text \<open>
  \<open>Chart.RadialScale\<close>: the axes of the polar area and radar charts. The state is a record with the
  configuration that the charts pass and the fields that the class computes. Building the labels
  returns \<open>None\<close> when it does not return in the source and \<open>Some (Inl err)\<close> when it throws. Numbers
  are exact, so the sine of a half turn is zero here, where it is a tiny number in floating point.
\<close>

record rscale =
  r_display :: bool
  r_fontStyle :: jsval
  r_fontSize :: jsnum
  r_fontFamily :: jsval
  r_fontColor :: jsval
  r_showLabels :: bool
  r_showLabelBackdrop :: bool
  r_backdropColor :: jsval
  r_backdropPaddingY :: jsnum
  r_backdropPaddingX :: jsnum
  r_lineWidth :: jsnum
  r_lineColor :: jsval
  r_lineArc :: bool
  r_angleLineColor :: jsval
  r_angleLineWidth :: jsnum
  r_pointLabelFontColor :: jsval
  r_pointLabelFontSize :: jsnum
  r_pointLabelFontFamily :: jsval
  r_pointLabelFontStyle :: jsval
  r_width :: jsnum
  r_height :: jsnum
  r_xCenter :: jsnum
  r_yCenter :: jsnum
  r_template :: jsval
  r_labels :: "jsval list"
  r_valuesCount :: int
  r_size :: jsnum
  r_drawingArea :: jsnum
  r_steps :: jsnum
  r_stepValue :: jsnum
  r_min :: jsnum
  r_max :: jsnum
  r_yLabels :: "jsval list"

text \<open>The options of the charts that have such a scale.\<close>

record radial_options = axis_options +
  scaleShowLabelBackdrop :: bool
  scaleBackdropColor :: jsval
  scaleBackdropPaddingY :: jsnum
  scaleBackdropPaddingX :: jsnum
  scaleShowLine :: bool

subsection \<open>Positions\<close>

definition radial_area :: "rscale \<Rightarrow> jsnum" where
  "radial_area r = (if r_display r then (r_size r / 2) - (r_fontSize r / 2 + r_backdropPaddingY r) else r_size r / 2)"

definition radial_initialize :: "rscale \<Rightarrow> rscale" where
  "radial_initialize r =
     (let r = r\<lparr>r_size := js_min [JNum (r_height r), JNum (r_width r)]\<rparr> in r\<lparr>r_drawingArea := radial_area r\<rparr>)"

definition calculateCenterOffset :: "rscale \<Rightarrow> jsnum \<Rightarrow> jsnum" where
  "calculateCenterOffset r value =
     (let scalingFactor = r_drawingArea r / (r_max r - r_min r) in (value - r_min r) * scalingFactor)"

definition getCircumference :: "rscale \<Rightarrow> jsnum" where
  "getCircumference r = (Math_PI * 2) / Fin (of_int (r_valuesCount r))"

definition getIndexAngle :: "rscale \<Rightarrow> jsnum \<Rightarrow> jsnum" where
  "getIndexAngle r index =
     (let angleMultiplier = (Math_PI * 2) / Fin (of_int (r_valuesCount r)) in index * angleMultiplier - (Math_PI / 2))"

definition getPointPosition :: "rscale \<Rightarrow> jsnum \<Rightarrow> jsnum \<Rightarrow> pt" where
  "getPointPosition r index distanceFromCenter =
     (let thisAngle = getIndexAngle r index
      in \<lparr>px = (Math_cos thisAngle * distanceFromCenter) + r_xCenter r,
          py = (Math_sin thisAngle * distanceFromCenter) + r_yCenter r\<rparr>)"

subsection \<open>Making room for the labels\<close>

definition setCenterPoint :: "jsnum \<Rightarrow> jsnum \<Rightarrow> rscale \<Rightarrow> rscale" where
  "setCenterPoint leftMovement rightMovement r =
     (let maxRight = r_width r - rightMovement - r_drawingArea r;
          maxLeft = leftMovement + r_drawingArea r
      in r\<lparr>r_xCenter := (maxLeft + maxRight) / 2, r_yCenter := r_height r / 2\<rparr>)"

text \<open>The outermost labels so far: how far they reach, and their indices.\<close>

record reach =
  furthestRight :: jsnum
  furthestRightIndex :: "nat option"
  furthestLeft :: jsnum
  furthestLeftIndex :: "nat option"

definition reach_right :: "jsnum \<Rightarrow> nat \<Rightarrow> reach \<Rightarrow> reach" where
  "reach_right x i p = (if furthestRight p < x then p\<lparr>furthestRight := x, furthestRightIndex := Some i\<rparr> else p)"

definition reach_left :: "jsnum \<Rightarrow> nat \<Rightarrow> reach \<Rightarrow> reach" where
  "reach_left x i p = (if x < furthestLeft p then p\<lparr>furthestLeft := x, furthestLeftIndex := Some i\<rparr> else p)"

definition reach_label :: "env \<Rightarrow> rscale \<Rightarrow> jsnum \<Rightarrow> nat \<Rightarrow> reach \<Rightarrow> reach" where
  "reach_label E r radius i p =
     (let x = px (getPointPosition r (Fin (real i)) radius);
          font = fontString E (JNum (r_pointLabelFontSize r)) (r_pointLabelFontStyle r) (r_pointLabelFontFamily r);
          label = (label_at (r_labels r) i);
          textWidth = measureText E font (tmpl E (r_template r) [(''value'', label)]) + 5;
          half = of_int (r_valuesCount r) / 2
      in if i = 0 \<or> real i = half then reach_left (x - textWidth / 2) i (reach_right (x + textWidth / 2) i p)
         else if real i < half then reach_right (x + textWidth) i p
         else reach_left (x - textWidth) i p)"

definition reach_all :: "env \<Rightarrow> rscale \<Rightarrow> jsnum \<Rightarrow> reach" where
  "reach_all E r radius =
     fold (reach_label E r radius) [0..<nat (r_valuesCount r)]
       \<lparr>furthestRight = r_width r, furthestRightIndex = None, furthestLeft = 0, furthestLeftIndex = None\<rparr>"

text \<open>The angle of an index that was never set is not a number, and neither is the reduction.\<close>

definition radius_reduction :: "rscale \<Rightarrow> jsnum \<Rightarrow> nat option \<Rightarrow> jsnum" where
  "radius_reduction r protrusion index =
     (let ang = getIndexAngle r (case index of None \<Rightarrow> NaN | Some i \<Rightarrow> Fin (real i));
          reduction = protrusion / Math_sin (ang + Math_PI / 2)
      in if isNumber (JNum reduction) then reduction else 0)"

definition largest_radius :: "rscale \<Rightarrow> jsnum" where
  "largest_radius r = js_min [JNum (r_height r / 2 - r_pointLabelFontSize r - 5), JNum (r_width r / 2)]"

definition setScaleSize :: "env \<Rightarrow> rscale \<Rightarrow> rscale" where
  "setScaleSize E r =
     (let largestPossibleRadius = largest_radius r;
          p = reach_all E r largestPossibleRadius;
          xProtrusionLeft = furthestLeft p;
          xProtrusionRight = Math_ceil (furthestRight p - r_width r);
          radiusReductionRight = radius_reduction r xProtrusionRight (furthestRightIndex p);
          radiusReductionLeft = radius_reduction r xProtrusionLeft (furthestLeftIndex p)
      in setCenterPoint radiusReductionLeft radiusReductionRight
           (r\<lparr>r_drawingArea := largestPossibleRadius - (radiusReductionLeft + radiusReductionRight) / 2\<rparr>))"

subsection \<open>Labels\<close>

definition radial_label :: "env \<Rightarrow> rscale \<Rightarrow> nat \<Rightarrow> nat \<Rightarrow> jsval" where
  "radial_label E r places i =
     tmpl E (r_template r) [(''value'', JStr (toFixed E (r_min r + (Fin (real i) * r_stepValue r)) places))]"

definition radial_buildYLabels :: "env \<Rightarrow> rscale \<Rightarrow> (jserr + rscale) option" where
  "radial_buildYLabels E r =
     (case getDecimalPlaces (num_str E) (r_stepValue r) of
        Inl err \<Rightarrow> Some (Inl err)
      | Inr places \<Rightarrow>
          (case label_count (r_steps r) of
             None \<Rightarrow> None
           | Some n \<Rightarrow> Some (Inr (r\<lparr>r_yLabels := map (radial_label E r places) [0..<n]\<rparr>))))"

definition radial_update :: "env \<Rightarrow> rscale \<Rightarrow> (jserr + rscale) option" where
  "radial_update E r =
     radial_buildYLabels E (if \<not> r_lineArc r then setScaleSize E r else r\<lparr>r_drawingArea := radial_area r\<rparr>)"

text \<open>
  The range of the scale, from the options or fitted to the values; both charts have this code in
  \<open>updateScaleRange\<close>.
\<close>

definition radial_range :: "radial_options \<Rightarrow> jsnum \<Rightarrow> jsnum \<Rightarrow> jsval list \<Rightarrow> rscale \<Rightarrow> rscale option" where
  "radial_range opt width height values r =
     (if scaleOverride opt
      then Some (r\<lparr>r_steps := scaleSteps opt, r_stepValue := scaleStepWidth opt, r_min := scaleStartValue opt,
             r_max := scaleStartValue opt + (scaleSteps opt * scaleStepWidth opt)\<rparr>)
      else map_option (\<lambda>q. r\<lparr>r_steps := steps q, r_stepValue := stepValue q, r_min := range_min q, r_max := range_max q\<rparr>)
        (calculateScaleRange values (js_min [JNum width, JNum height] / 2) (scaleFontSize opt) (scaleBeginAtZero opt) (scaleIntegersOnly opt)))"

subsection \<open>Drawing\<close>

definition polygon :: "rscale \<Rightarrow> jsnum \<Rightarrow> cmd list" where
  "polygon r offset =
     map (\<lambda>i. let p = getPointPosition r (Fin (real i)) offset in if i = 0 then MoveTo (px p) (py p) else LineTo (px p) (py p))
       [0..<nat (r_valuesCount r)]"

definition draw_ring :: "rscale \<Rightarrow> nat \<Rightarrow> cmd list" where
  "draw_ring r index =
     (if 0 < r_lineWidth r then
        [SetP ''strokeStyle'' (r_lineColor r), SetP ''lineWidth'' (JNum (r_lineWidth r)), BeginPath]
        @ (if r_lineArc r
           then [ArcC (r_xCenter r) (r_yCenter r) (Fin (real index) * (r_drawingArea r / r_steps r)) 0 (Math_PI * 2) False]
           else polygon r (calculateCenterOffset r (r_min r + (Fin (real index) * r_stepValue r))))
        @ [ClosePath, Stroke]
      else [])"

definition draw_ring_label :: "env \<Rightarrow> rscale \<Rightarrow> jsval \<Rightarrow> nat \<Rightarrow> cmd list" where
  "draw_ring_label E r label index =
     (let font = fontString E (JNum (r_fontSize r)) (r_fontStyle r) (r_fontFamily r);
          yHeight = r_yCenter r - Fin (real index) * (r_drawingArea r / r_steps r);
          labelWidth = measureText E font label
      in if r_showLabels r then
           [SetP ''font'' font]
           @ (if r_showLabelBackdrop r
              then [SetP ''fillStyle'' (r_backdropColor r),
                    FillRect (r_xCenter r - labelWidth / 2 - r_backdropPaddingX r) (yHeight - r_fontSize r / 2 - r_backdropPaddingY r)
                      (labelWidth + r_backdropPaddingX r * 2) (r_fontSize r + r_backdropPaddingY r * 2)]
              else [])
           @ [SetP ''textAlign'' (JStr ''center''), SetP ''textBaseline'' (JStr ''middle''), SetP ''fillStyle'' (r_fontColor r),
              FillText label (r_xCenter r) yHeight]
         else [])"

definition draw_angle_line :: "rscale \<Rightarrow> nat \<Rightarrow> cmd list" where
  "draw_angle_line r i =
     (let p = getPointPosition r (Fin (real i)) (calculateCenterOffset r (r_max r))
      in if 0 < r_angleLineWidth r
         then [BeginPath, MoveTo (r_xCenter r) (r_yCenter r), LineTo (px p) (py p), Stroke, ClosePath] else [])"

definition draw_point_label :: "env \<Rightarrow> rscale \<Rightarrow> nat \<Rightarrow> cmd list" where
  "draw_point_label E r i =
     (let p = getPointPosition r (Fin (real i)) (calculateCenterOffset r (r_max r) + 5);
          labelsCount = real (length (r_labels r));
          halfLabelsCount = labelsCount / 2;
          quarterLabelsCount = halfLabelsCount / 2;
          upperHalf = (real i < quarterLabelsCount \<or> labelsCount - quarterLabelsCount < real i);
          exactQuarter = (real i = quarterLabelsCount \<or> real i = labelsCount - quarterLabelsCount)
      in [SetP ''font'' (fontString E (JNum (r_pointLabelFontSize r)) (r_pointLabelFontStyle r) (r_pointLabelFontFamily r)),
          SetP ''fillStyle'' (r_pointLabelFontColor r),
          SetP ''textAlign'' (JStr (if i = 0 \<or> real i = halfLabelsCount then ''center'' else if real i < halfLabelsCount then ''left'' else ''right'')),
          SetP ''textBaseline'' (JStr (if exactQuarter then ''middle'' else if upperHalf then ''bottom'' else ''top'')),
          FillText (label_at (r_labels r) i) (px p) (py p)])"

definition radial_draw :: "env \<Rightarrow> rscale \<Rightarrow> cmd list" where
  "radial_draw E r =
     (if r_display r then
        concat (map (\<lambda>(index, label). if 0 < index then draw_ring r index @ draw_ring_label E r label index else []) (enumerate 0 (r_yLabels r)))
        @ (if \<not> r_lineArc r
           then [SetP ''lineWidth'' (JNum (r_angleLineWidth r)), SetP ''strokeStyle'' (r_angleLineColor r)]
                @ concat (map (\<lambda>i. draw_angle_line r i @ draw_point_label E r i) (rev [0..<nat (r_valuesCount r)]))
           else [])
      else [])"

subsection \<open>The room for the labels\<close>

text \<open>Who reaches furthest: only labels on the right half can, or on the left half.\<close>

definition reach_ok :: "real \<Rightarrow> nat \<Rightarrow> reach \<Rightarrow> bool" where
  "reach_ok w n p = (\<exists>a b. furthestRight p = Fin a \<and> w \<le> a \<and> furthestLeft p = Fin b \<and> b \<le> 0
     \<and> (case furthestRightIndex p of None \<Rightarrow> True | Some i \<Rightarrow> real i \<le> real n / 2)
     \<and> (case furthestLeftIndex p of None \<Rightarrow> True | Some i \<Rightarrow> i < n \<and> (i = 0 \<or> real n / 2 \<le> real i)))"

lemma reach_right_ok: "reach_ok w n p \<Longrightarrow> real i \<le> real n / 2 \<Longrightarrow> reach_ok w n (reach_right (Fin x) i p)"
  by (auto simp: reach_ok_def reach_right_def)

lemma reach_left_ok: "reach_ok w n p \<Longrightarrow> i < n \<Longrightarrow> i = 0 \<or> real n / 2 \<le> real i \<Longrightarrow> reach_ok w n (reach_left (Fin x) i p)"
  by (auto simp: reach_ok_def reach_left_def)

lemma reach_label_ok:
  assumes "reach_ok w n p" "i < n" "r_valuesCount r = int n" "px (getPointPosition r (Fin (real i)) radius) = Fin x" "text_widths E"
  shows "reach_ok w n (reach_label E r radius i p)"
proof -
  let ?font = "fontString E (JNum (r_pointLabelFontSize r)) (r_pointLabelFontStyle r) (r_pointLabelFontFamily r)"
  obtain t where "measureText E ?font (tmpl E (r_template r) [(''value'', label_at (r_labels r) i)]) = Fin t"
    using assms(5) by (auto simp: text_widths_def)
  then show ?thesis
    using assms(1-4) by (auto simp: reach_label_def Let_def intro!: reach_left_ok reach_right_ok)
qed

definition radial_measures :: "rscale \<Rightarrow> nat \<Rightarrow> real \<Rightarrow> real \<Rightarrow> real \<Rightarrow> bool" where
  "radial_measures r n w h fs = (r_valuesCount r = int n \<and> 0 < n \<and> r_width r = Fin w \<and> r_height r = Fin h \<and> r_pointLabelFontSize r = Fin fs
     \<and> is_fin (r_xCenter r) \<and> is_fin (r_yCenter r))"

lemma index_angle:
  assumes "r_valuesCount r = int n" "0 < n"
  shows "getIndexAngle r (Fin i) = Fin (i * (2 * pi / real n) - pi / 2)"
  using assms by (simp add: getIndexAngle_def Math_PI_def Let_def)

lemma point_position:
  assumes "r_valuesCount r = int n" "0 < n" "r_xCenter r = Fin x" "r_yCenter r = Fin y"
  shows "getPointPosition r (Fin i) (Fin d) =
    \<lparr>px = Fin (cos (i * (2 * pi / real n) - pi / 2) * d + x), py = Fin (sin (i * (2 * pi / real n) - pi / 2) * d + y)\<rparr>"
  using index_angle [OF assms(1,2), of i] assms(3,4) by (simp add: getPointPosition_def Let_def)

lemma reach_all_ok:
  assumes "radial_measures r n w h fs" "text_widths E"
  shows "reach_ok w n (reach_all E r (Fin d))"
proof -
  have n: "r_valuesCount r = int n" "0 < n" using assms(1) by (simp_all add: radial_measures_def)
  obtain x y where xy: "r_xCenter r = Fin x" "r_yCenter r = Fin y" using assms(1) by (auto simp: radial_measures_def elim!: is_finE)
  have "reach_ok w n p \<Longrightarrow> k \<le> n \<Longrightarrow> reach_ok w n (fold (reach_label E r (Fin d)) [0..<k] p)" for p k
  proof (induction k)
    case (Suc k)
    then show ?case
      using reach_label_ok [of w n "fold (reach_label E r (Fin d)) [0..<k] p" k r "Fin d", OF _ _ n(1) _ assms(2)] point_position [OF n xy, of "real k" d] by simp
  qed simp
  from this [of "\<lparr>furthestRight = r_width r, furthestRightIndex = None, furthestLeft = 0, furthestLeftIndex = None\<rparr>" n]
  show ?thesis using assms(1) by (simp add: reach_all_def reach_ok_def radial_measures_def)
qed

lemma reduction_right:
  assumes "r_valuesCount r = int n" "0 < n" "0 \<le> q" "case index of None \<Rightarrow> True | Some i \<Rightarrow> real i \<le> real n / 2"
  shows "\<exists>x. radius_reduction r (Fin q) index = Fin x \<and> 0 \<le> x"
proof (cases index)
  case None
  then show ?thesis by (simp add: radius_reduction_def getIndexAngle_def Let_def)
next
  case (Some i)
  let ?t = "real i * (2 * pi / real n)"
  have "?t \<le> real n / 2 * (2 * pi / real n)" using Some assms(4) by (intro mult_right_mono) simp_all
  then have "0 \<le> ?t" "?t \<le> pi" using assms(2) by simp_all
  then have "0 \<le> sin ?t" by (intro sin_ge_zero)
  then show ?thesis
    using Some assms(3) index_angle [OF assms(1,2), of "real i"] by (auto simp: radius_reduction_def Math_PI_def Let_def)
qed

lemma reduction_left:
  assumes "r_valuesCount r = int n" "0 < n" "q \<le> 0" "case index of None \<Rightarrow> True | Some i \<Rightarrow> i < n \<and> (i = 0 \<or> real n / 2 \<le> real i)"
  shows "\<exists>x. radius_reduction r (Fin q) index = Fin x \<and> 0 \<le> x"
proof (cases index)
  case None
  then show ?thesis by (simp add: radius_reduction_def getIndexAngle_def Let_def)
next
  case (Some i)
  let ?t = "real i * (2 * pi / real n)"
  have i: "i < n" "i = 0 \<or> real n / 2 \<le> real i" using Some assms(4) by simp_all
  have "sin ?t \<le> 0"
  proof (cases "i = 0")
    case False
    have "real n / 2 * (2 * pi / real n) \<le> ?t" using i(2) False by (intro mult_right_mono) simp_all
    moreover have "?t \<le> real n * (2 * pi / real n)" using i(1) by (intro mult_right_mono) simp_all
    ultimately have "pi \<le> ?t" "?t \<le> 2 * pi" using assms(2) by simp_all
    then show ?thesis using sin_ge_zero [of "?t - pi"] by simp
  qed simp
  then show ?thesis
    using Some assms(3) index_angle [OF assms(1,2), of "real i"] by (auto simp: radius_reduction_def Math_PI_def Let_def divide_nonpos_neg)
qed

text \<open>The new radius and centre; \<open>left\<close> and \<open>right\<close> are the two reductions.\<close>

lemma room_made:
  assumes "radial_measures r n w h fs" "text_widths E"
  shows "\<exists>left right A xc. 0 \<le> left \<and> 0 \<le> right
    \<and> setScaleSize E r = r\<lparr>r_drawingArea := Fin A, r_xCenter := Fin xc, r_yCenter := Fin (h / 2)\<rparr>
    \<and> A = min (h / 2 - fs - 5) (w / 2) - (left + right) / 2
    \<and> left \<le> xc - A \<and> xc + A \<le> w - right \<and> fs + 5 \<le> h / 2 - A"
proof -
  let ?d = "min (h / 2 - fs - 5) (w / 2)"
  have d: "largest_radius r = Fin ?d"
    using assms(1) by (simp add: largest_radius_def radial_measures_def js_min_def Math_min_def min2_def min_def)
  have n: "r_valuesCount r = int n" "0 < n" using assms(1) by (simp_all add: radial_measures_def)
  obtain a b where p: "furthestRight (reach_all E r (Fin ?d)) = Fin a" "w \<le> a" "furthestLeft (reach_all E r (Fin ?d)) = Fin b" "b \<le> 0"
    "case furthestRightIndex (reach_all E r (Fin ?d)) of None \<Rightarrow> True | Some i \<Rightarrow> real i \<le> real n / 2"
    "case furthestLeftIndex (reach_all E r (Fin ?d)) of None \<Rightarrow> True | Some i \<Rightarrow> i < n \<and> (i = 0 \<or> real n / 2 \<le> real i)"
    using reach_all_ok [OF assms, of ?d] by (auto simp: reach_ok_def)
  have "0 \<le> real_of_int \<lceil>a - w\<rceil>" using p(2) by simp
  then obtain right where right: "radius_reduction r (Fin (real_of_int \<lceil>a - w\<rceil>)) (furthestRightIndex (reach_all E r (Fin ?d))) = Fin right" "0 \<le> right"
    using reduction_right [OF n _ p(5)] by blast
  obtain left where left: "radius_reduction r (Fin b) (furthestLeftIndex (reach_all E r (Fin ?d))) = Fin left" "0 \<le> left"
    using reduction_left [OF n p(4,6)] by blast
  define m where "m = ?d"
  have m: "m \<le> h / 2 - fs - 5" "m \<le> w / 2" by (simp_all add: m_def min_def)
  define A where "A = m - (left + right) / 2"
  define xc where "xc = (left + A + (w - right - A)) / 2"
  have "setScaleSize E r = setCenterPoint (Fin left) (Fin right) (r\<lparr>r_drawingArea := Fin A\<rparr>)"
    using assms(1) p(1,3) left(1) right(1) by (simp add: setScaleSize_def d Let_def radial_measures_def A_def m_def)
  then have "setScaleSize E r = r\<lparr>r_drawingArea := Fin A, r_xCenter := Fin xc, r_yCenter := Fin (h / 2)\<rparr>"
    using assms(1) by (simp add: setCenterPoint_def Let_def radial_measures_def xc_def)
  moreover have "left \<le> xc - A" "xc + A \<le> w - right" using m(2) by (simp_all add: A_def xc_def field_simps)
  moreover have "0 \<le> (left + right) / 2" using left(2) right(2) by simp
  then have "fs + 5 \<le> h / 2 - A" using m(1) unfolding A_def by linarith
  ultimately show ?thesis using left(2) right(2) A_def m_def by blast
qed

lemma radial_room_size:
  assumes "radial_measures r n w h fs" "text_widths E"
  shows "\<exists>A xc. setScaleSize E r = r\<lparr>r_drawingArea := Fin A, r_xCenter := Fin xc, r_yCenter := Fin (h / 2)\<rparr>"
  using room_made [OF assms] by blast


subsection \<open>An example\<close>

text \<open>A radar of 400 by 300 pixels with three labels.\<close>

definition example_radial :: rscale where
  "example_radial = \<lparr>r_display = True, r_fontStyle = JStr ''normal'', r_fontSize = Fin 12, r_fontFamily = JStr ''Arial'', r_fontColor = JStr ''#666'',
     r_showLabels = True, r_showLabelBackdrop = True, r_backdropColor = JStr ''#fff'', r_backdropPaddingY = Fin 2, r_backdropPaddingX = Fin 2,
     r_lineWidth = Fin 1, r_lineColor = JStr ''#ccc'', r_lineArc = False, r_angleLineColor = JStr ''#ccc'', r_angleLineWidth = Fin 1,
     r_pointLabelFontColor = JStr ''#666'', r_pointLabelFontSize = Fin 10, r_pointLabelFontFamily = JStr ''Arial'', r_pointLabelFontStyle = JStr ''normal'',
     r_width = Fin 400, r_height = Fin 300, r_xCenter = Fin 200, r_yCenter = Fin 150, r_template = JStr ''<%=value%>'',
     r_labels = [JStr ''a'', JStr ''b'', JStr ''c''], r_valuesCount = 3, r_size = Fin 300, r_drawingArea = Fin 100, r_steps = Fin 2, r_stepValue = Fin 5,
     r_min = Fin 0, r_max = Fin 10, r_yLabels = []\<rparr>"


text \<open>Options with a given range from 0 to 10.\<close>

definition example_radial_options :: radial_options where
  "example_radial_options = \<lparr>scaleLabel = JStr ''<%=value%>'', scaleFontColor = JStr ''#666'', scaleFontSize = Fin 12, scaleFontStyle = JStr ''normal'',
     scaleFontFamily = JStr ''Arial'', scaleBeginAtZero = True, scaleIntegersOnly = True, scaleLineWidth = JNum 1, scaleLineColor = JStr ''#ccc'',
     scaleShowGridLines = True, scaleGridLineWidth = JNum 1, scaleGridLineColor = JStr ''#eee'', showScale = True, scaleShowLabels = True,
     scaleOverride = True, scaleSteps = Fin 2, scaleStepWidth = Fin 5, scaleStartValue = Fin 0,
     scaleShowLabelBackdrop = True, scaleBackdropColor = JStr ''#fff'', scaleBackdropPaddingY = Fin 2, scaleBackdropPaddingX = Fin 2, scaleShowLine = True\<rparr>"

lemma example_range:
  "radial_range example_radial_options w h vs r = Some (r\<lparr>r_steps := Fin 2, r_stepValue := Fin 5, r_min := Fin 0, r_max := Fin 10\<rparr>)"
  by (simp add: radial_range_def example_radial_options_def)

lemma example_labels:
  "r_steps r = Fin 2 \<Longrightarrow> r_stepValue r = Fin 5 \<Longrightarrow> \<exists>ls. radial_buildYLabels example_env r = Some (Inr (r\<lparr>r_yLabels := ls\<rparr>))"
  by (auto simp: radial_buildYLabels_def label_count_def getDecimalPlaces_def trunc_def)

end
