(* ===== verification/Chart_Radar.thy ===== *)
theory Chart_Radar
  imports Radial_Scale
begin

section \<open>Radar charts\<close>

text \<open>
  The chart type \<open>Radar\<close>: its scale, the datasets, adding and removing data, drawing, and the points at a
  mouse position. The datasets are those of the line chart. \<open>radar_points\<close> says where the points are
  drawn and which of them a mouse position gives.
\<close>

record radar_chart =
  rd_width :: jsnum
  rd_height :: jsnum
  rd_options :: radial_options
  angleLineColor :: jsval
  angleLineWidth :: jsnum
  angleShowLineOut :: bool
  pointLabelFontColor :: jsval
  pointLabelFontSize :: jsnum
  pointLabelFontFamily :: jsval
  pointLabelFontStyle :: jsval
  rd_pointDot :: bool
  rd_pointDotRadius :: jsnum
  rd_pointDotStrokeWidth :: jsnum
  rd_pointHitDetectionRadius :: jsnum
  rd_datasetStrokeWidth :: jsval
  rd_animation :: bool
  rd_datasets :: "dataset list"
  rd_scale :: rscale

subsection \<open>Operations\<close>

definition radar_class :: "radar_chart \<Rightarrow> props" where
  "radar_class c = [(''strokeWidth'', JNum (rd_pointDotStrokeWidth c)), (''radius'', JNum (rd_pointDotRadius c)),
     (''display'', JBool (rd_pointDot c)), (''hitDetectionRadius'', JNum (rd_pointHitDetectionRadius c))]"

definition radar_scale :: "radar_chart \<Rightarrow> jsval list \<Rightarrow> nat \<Rightarrow> rscale" where
  "radar_scale c labels count =
     (let opt = rd_options c
      in radial_initialize
         \<lparr>r_display = showScale opt, r_fontStyle = scaleFontStyle opt, r_fontSize = scaleFontSize opt, r_fontFamily = scaleFontFamily opt,
          r_fontColor = scaleFontColor opt, r_showLabels = scaleShowLabels opt, r_showLabelBackdrop = scaleShowLabelBackdrop opt,
          r_backdropColor = scaleBackdropColor opt, r_backdropPaddingY = scaleBackdropPaddingY opt, r_backdropPaddingX = scaleBackdropPaddingX opt,
          r_lineWidth = (if scaleShowLine opt then to_number (scaleLineWidth opt) else 0), r_lineColor = scaleLineColor opt, r_lineArc = False,
          r_angleLineColor = angleLineColor c, r_angleLineWidth = (if angleShowLineOut c then angleLineWidth c else 0),
          r_pointLabelFontColor = pointLabelFontColor c, r_pointLabelFontSize = pointLabelFontSize c,
          r_pointLabelFontFamily = pointLabelFontFamily c, r_pointLabelFontStyle = pointLabelFontStyle c,
          r_width = rd_width c, r_height = rd_height c, r_xCenter = rd_width c / 2, r_yCenter = rd_height c / 2,
          r_template = scaleLabel opt, r_labels = labels, r_valuesCount = int count,
          r_size = NaN, r_drawingArea = NaN, r_steps = NaN, r_stepValue = NaN, r_min = NaN, r_max = NaN, r_yLabels = []\<rparr>)"

text \<open>
  \<open>updateScaleRange\<close> followed by \<open>buildYLabels\<close>, on a scale of the right size; \<open>setScaleSize\<close> comes before the range
  in \<open>buildScale\<close> and after it in \<open>reflow\<close>.
\<close>

definition range_then :: "radar_chart \<Rightarrow> jsval list \<Rightarrow> rscale \<Rightarrow> (rscale \<Rightarrow> (jserr + rscale) option) \<Rightarrow> (jserr + rscale) option" where
  "range_then c values r f =
     (case radial_range (rd_options c) (rd_width c) (rd_height c) values r of None \<Rightarrow> None | Some r \<Rightarrow> f r)"

definition radar_buildScale :: "env \<Rightarrow> indata list \<Rightarrow> jsval list \<Rightarrow> radar_chart \<Rightarrow> (jserr + rscale) option" where
  "radar_buildScale E data labels c =
     (case data of
        [] \<Rightarrow> Some (Inl TypeError)
      | d # _ \<Rightarrow>
          range_then c (concat (map in_data data)) (setScaleSize E (radar_scale c labels (length (in_data d)))) (radial_buildYLabels E))"

definition radar_point :: "radar_chart \<Rightarrow> jsval list \<Rightarrow> indata \<Rightarrow> nat \<Rightarrow> jsval \<Rightarrow> element" where
  "radar_point c labels d index dataPoint =
     (let r = rd_scale c;
          pointPosition = getPointPosition r (Fin (real index)) (calculateCenterOffset r (to_number dataPoint))
      in new_element (radar_class c)
        [(''value'', dataPoint), (''label'', label_at labels index), (''datasetLabel'', in_label d),
         (''x'', JNum (if rd_animation c then r_xCenter r else px pointPosition)),
         (''y'', JNum (if rd_animation c then r_yCenter r else py pointPosition)),
         (''strokeColor'', in_pointStrokeColor d), (''fillColor'', in_pointColor d),
         (''highlightFill'', js_or (in_highlightFill d) (in_pointColor d)),
         (''highlightStroke'', js_or (in_highlightStroke d) (in_pointStrokeColor d))])"

definition radar_dataset :: "radar_chart \<Rightarrow> jsval list \<Rightarrow> indata \<Rightarrow> dataset" where
  "radar_dataset c labels d =
    \<lparr>ds_label = js_or (in_label d) JNull, ds_fillColor = in_fillColor d, ds_strokeColor = in_strokeColor d,
     ds_pointColor = in_pointColor d, ds_pointStrokeColor = in_pointStrokeColor d,
     ds_items = map (\<lambda>(i, v). (radar_point c labels d i v, False)) (enumerate 0 (in_data d))\<rparr>"

definition initialize :: "env \<Rightarrow> indata list \<Rightarrow> jsval list \<Rightarrow> radar_chart \<Rightarrow> (jserr + radar_chart) option" where
  "initialize E data labels c =
     fitting (radar_buildScale E data labels c)
       (\<lambda>r. let c = c\<lparr>rd_scale := r\<rparr> in c\<lparr>rd_datasets := map (radar_dataset c labels) data\<rparr>)"

definition reflow :: "env \<Rightarrow> radar_chart \<Rightarrow> (jserr + radar_chart) option" where
  "reflow E c =
     (let r = (rd_scale c)\<lparr>r_width := rd_width c, r_height := rd_height c,
                 r_size := js_min [JNum (rd_width c), JNum (rd_height c)], r_xCenter := rd_width c / 2, r_yCenter := rd_height c / 2\<rparr>
      in fitting (range_then c (dataTotal (rd_datasets c)) r (radial_buildYLabels E \<circ> setScaleSize E)) (\<lambda>r. c\<lparr>rd_scale := r\<rparr>))"

definition update_radar :: "env \<Rightarrow> radar_chart \<Rightarrow> (jserr + radar_chart) option" where
  "update_radar E c = reflow E (c\<lparr>rd_datasets := map_items (\<lambda>_ _ (e, active). (save e, active)) (rd_datasets c)\<rparr>)"

definition reflow_update :: "env \<Rightarrow> radar_chart \<Rightarrow> (jserr + radar_chart) option" where
  "reflow_update E c = (case reflow E c of None \<Rightarrow> None | Some (Inl err) \<Rightarrow> Some (Inl err) | Some (Inr c) \<Rightarrow> update_radar E c)"

definition added_radar_point :: "radar_chart \<Rightarrow> jsval \<Rightarrow> nat \<Rightarrow> jsval \<Rightarrow> element" where
  "added_radar_point c label j value =
     (let r = rd_scale c;
          pointPosition = getPointPosition r (Fin (of_int (r_valuesCount r))) (calculateCenterOffset r (to_number value))
      in new_element (radar_class c)
        [(''value'', value), (''label'', label), (''x'', JNum (px pointPosition)), (''y'', JNum (py pointPosition)),
         (''strokeColor'', ds_pointStrokeColor (rd_datasets c ! j)), (''fillColor'', ds_pointColor (rd_datasets c ! j))])"

definition addData :: "env \<Rightarrow> jsval list \<Rightarrow> jsval \<Rightarrow> radar_chart \<Rightarrow> (jserr + radar_chart) option" where
  "addData E values label c =
     (let c = c\<lparr>rd_scale := (rd_scale c)\<lparr>r_valuesCount := r_valuesCount (rd_scale c) + 1\<rparr>\<rparr>
      in if length (rd_datasets c) < length values then Some (Inl TypeError)
         else reflow_update E
           (c\<lparr>rd_datasets := map (\<lambda>(j, d). if j < length values
                then d\<lparr>ds_items := ds_items d @ [(added_radar_point c label j (values ! j), False)]\<rparr> else d) (enumerate 0 (rd_datasets c)),
              rd_scale := (rd_scale c)\<lparr>r_labels := r_labels (rd_scale c) @ [label]\<rparr>\<rparr>))"

definition removeData :: "env \<Rightarrow> radar_chart \<Rightarrow> (jserr + radar_chart) option" where
  "removeData E c =
     reflow_update E
       (c\<lparr>rd_scale := (rd_scale c)\<lparr>r_valuesCount := r_valuesCount (rd_scale c) - 1, r_labels := js_shift (r_labels (rd_scale c))\<rparr>,
          rd_datasets := map (\<lambda>d. d\<lparr>ds_items := js_shift (ds_items d)\<rparr>) (rd_datasets c)\<rparr>)"

definition move_radar_point :: "radar_chart \<Rightarrow> jsnum \<Rightarrow> nat \<Rightarrow> element \<Rightarrow> element" where
  "move_radar_point c ease i point =
     (if hasValue point
      then (let p = getPointPosition (rd_scale c) (Fin (real i)) (calculateCenterOffset (rd_scale c) (enum point ''value''))
            in transition [(''x'', JNum (px p)), (''y'', JNum (py p))] ease point)
      else point)"

definition radar_path :: "radar_chart \<Rightarrow> dataset \<Rightarrow> cmd list" where
  "radar_path c d =
     [SetP ''lineWidth'' (rd_datasetStrokeWidth c), SetP ''strokeStyle'' (ds_strokeColor d), BeginPath]
     @ map (\<lambda>(i, e, _). (if i = 0 then MoveTo else LineTo) (enum e ''x'') (enum e ''y'')) (enumerate 0 (ds_items d))
     @ [ClosePath, Stroke, SetP ''fillStyle'' (ds_fillColor d), Fill]
     @ concat (map (\<lambda>(e, _). if hasValue e then point_draw e else []) (ds_items d))"

definition draw :: "env \<Rightarrow> jsnum \<Rightarrow> radar_chart \<Rightarrow> cmd list \<times> radar_chart" where
  "draw E ease c =
     (let easeDecimal = (if num_truthy ease then ease else 1);
          ds = map_items (\<lambda>_ i (e, active). (move_radar_point c easeDecimal i e, active)) (rd_datasets c)
      in (clear_chart (rd_width c) (rd_height c) @ radial_draw E (rd_scale c) @ concat (map (radar_path c) ds), c\<lparr>rd_datasets := ds\<rparr>))"

subsection \<open>Points under the mouse\<close>

definition pointIndex :: "radar_chart \<Rightarrow> jsnum \<Rightarrow> jsnum" where
  "pointIndex c ang =
     (let n = Fin (of_int (r_valuesCount (rd_scale c)));
          anglePerIndex = (Math_PI * 2) / n;
          i = Math_round ((ang - Math_PI * Fin (3 / 2)) / anglePerIndex)
      in if n \<le> i \<or> i < 0 then 0 else i)"

text \<open>\<open>dataset.points[pointIndex]\<close>: \<open>undefined\<close> where the dataset has no such point.\<close>

definition point_at :: "dataset \<Rightarrow> jsnum \<Rightarrow> element option" where
  "point_at d i = (case i of Fin q \<Rightarrow> if q = of_int \<lfloor>q\<rfloor> \<and> 0 \<le> q then map_option fst (idx (ds_items d) (nat \<lfloor>q\<rfloor>)) else None | _ \<Rightarrow> None)"

definition getPointsAtEvent :: "radar_chart \<Rightarrow> jsnum \<Rightarrow> jsnum \<Rightarrow> element option list" where
  "getPointsAtEvent c x y =
     (let fromCenter = getAngleFromPoint \<lparr>px = r_xCenter (rd_scale c), py = r_yCenter (rd_scale c)\<rparr> \<lparr>px = x, py = y\<rparr>
      in if distance fromCenter \<le> r_drawingArea (rd_scale c)
         then map (\<lambda>d. point_at d (pointIndex c (angle fromCenter))) (rd_datasets c)
         else [])"

lemma round_near:
  assumes "- 1 / 2 < d" "d < 1 / 2"
  shows "Math_round (Fin (real k + d)) = Fin (real k)"
proof -
  have "\<lfloor>real k + d + 1 / 2\<rfloor> = int k" using assms by (intro floor_unique) simp_all
  then show ?thesis by simp
qed

lemma pointIndex_near:
  assumes "r_valuesCount (rd_scale c) = int n" "0 < n" "\<bar>t\<bar> < pi / real n"
  shows "k < n \<Longrightarrow> pointIndex c (Fin (3 * pi / 2 + real k * (2 * pi / real n) + t)) = Fin (real k)"
    and "pointIndex c (Fin (7 * pi / 2 + t)) = Fin 0"
proof -
  define d where "d = t / (2 * pi / real n)"
  have "\<bar>d\<bar> < 1 / 2" using assms(2,3) by (simp add: d_def abs_mult field_simps)
  then have d: "- 1 / 2 < d" "d < 1 / 2" by linarith+
  have q: "(3 * pi / 2 + real k * (2 * pi / real n) + t - pi * (3 / 2)) / (pi * 2 / real n) = real k + d" for k
    using assms(2) by (simp add: d_def field_simps)
  have i: "pointIndex c (Fin (3 * pi / 2 + real k * (2 * pi / real n) + t)) = (if n \<le> k then Fin 0 else Fin (real k))" for k
    using assms(1,2) round_near [OF d, of k] q [of k] by (simp add: pointIndex_def Math_PI_def Let_def)
  then show "k < n \<Longrightarrow> pointIndex c (Fin (3 * pi / 2 + real k * (2 * pi / real n) + t)) = Fin (real k)" by simp
  have "3 * pi / 2 + real n * (2 * pi / real n) + t = 7 * pi / 2 + t" using assms(2) by simp
  then show "pointIndex c (Fin (7 * pi / 2 + t)) = Fin 0" using i [of n] by simp
qed

text \<open>A mouse position in the sector about an axis.\<close>

lemma radar_hit:
  assumes "r_valuesCount (rd_scale c) = int n" "k < n" "\<bar>t\<bar> < pi / real n"
    and "r_xCenter (rd_scale c) = Fin x" "r_yCenter (rd_scale c) = Fin y" "r_drawingArea (rd_scale c) = Fin A" "0 < d"
  shows "getPointsAtEvent c (Fin (x + d * cos (real k * (2 * pi / real n) - pi / 2 + t))) (Fin (y + d * sin (real k * (2 * pi / real n) - pi / 2 + t)))
    = (if d \<le> A then map (\<lambda>e. map_option fst (idx (ds_items e) k)) (rd_datasets c) else [])"
proof -
  let ?a = "real k * (2 * pi / real n) - pi / 2 + t" and ?u = "2 * pi / real n"
  have n: "0 < n" using assms(2) by simp
  define b where "b = (if k = 0 \<and> t < 0 then 7 * pi / 2 + t else 3 * pi / 2 + real k * ?u + t)"
  have small: "pi / real n \<le> pi" "\<bar>t\<bar> < ?u / 2" using n assms(3) by (simp_all add: field_simps)
  have range: "3 * pi / 2 \<le> b \<and> b < 7 * pi / 2"
  proof (cases "k = 0")
    case True
    then show ?thesis using small assms(3) by (auto simp: b_def)
  next
    case False
    define u where "u = ?u"
    have u: "0 < u" "real n * u = 2 * pi" using n by (simp_all add: u_def)
    then have "1 * u \<le> real k * u" "(real k + 1) * u \<le> real n * u" using False assms(2) by (intro mult_right_mono; simp)+
    then have "u \<le> real k * u" "real k * u + u \<le> 2 * pi" using u(2) by (simp_all add: distrib_right)
    moreover have "- u / 2 < t" "t < u / 2" using small(2) by (auto simp: u_def abs_less_iff)
    ultimately have "0 \<le> real k * u + t" "real k * u + t < 2 * pi" using u(1) by linarith+
    then show ?thesis using False unfolding b_def u_def [symmetric] by simp
  qed
  have i: "pointIndex c (Fin b) = Fin (real k)"
    using pointIndex_near [OF assms(1) n assms(3)] assms(2) by (simp add: b_def)
  have "cos b = cos ?a" "sin b = sin ?a"
  proof -
    have "b = ?a + 2 * pi \<or> b = ?a + 2 * pi + 2 * pi" by (simp add: b_def)
    then show "cos b = cos ?a" "sin b = sin ?a" by (elim disjE; simp only: cos_periodic sin_periodic)+
  qed
  then have "getAngleFromPoint \<lparr>px = Fin x, py = Fin y\<rparr> \<lparr>px = Fin (x + d * cos ?a), py = Fin (y + d * sin ?a)\<rparr> = \<lparr>angle = Fin b, distance = Fin d\<rparr>"
    using getAngle_of_polar [OF assms(7), of b x y] range by simp
  then show ?thesis using i assms(4-6) by (simp add: getPointsAtEvent_def point_at_def Let_def)
qed

subsection \<open>From the data to the points\<close>

definition value_ok :: "element \<Rightarrow> bool" where
  "value_ok e = (hasValue e \<and> is_fin (nget (el_saved e) ''x'') \<and> is_fin (nget (el_saved e) ''y''))"

definition frames :: "env \<Rightarrow> jsnum list \<Rightarrow> radar_chart \<Rightarrow> radar_chart" where
  "frames E eases c = fold (\<lambda>ease c. snd (draw E ease c)) eases c"

definition values_ok :: "nat list \<Rightarrow> radar_chart \<Rightarrow> bool" where
  "values_ok ns c = (map (length \<circ> ds_items) (rd_datasets c) = ns \<and> (\<forall>j < length ns. \<forall>i < ns ! j. value_ok (item (rd_datasets c) j i)))"

lemma move_keeps: "value_ok e \<Longrightarrow> value_ok (move_radar_point c ease i e) \<and> eget (move_radar_point c ease i e) ''value'' = eget e ''value''"
  by (simp add: value_ok_def move_radar_point_def Let_def hasValue_def)

lemma radar_item_draw:
  assumes "values_ok ns c" "j < length ns" "i < ns ! j"
  shows "item (rd_datasets (snd (draw E ease c))) j i = move_radar_point c (if num_truthy ease then ease else 1) i (item (rd_datasets c) j i)"
proof -
  have "length (rd_datasets c) = length ns" "length (ds_items (rd_datasets c ! j)) = ns ! j" using assms by (auto simp: values_ok_def)
  then show ?thesis using assms(2,3) by (simp add: draw_def Let_def item_map_items) (simp add: item_def case_prod_beta)
qed

lemma radar_draw_keeps:
  assumes "values_ok ns c"
  shows "values_ok ns (snd (draw E ease c))"
proof -
  have "length (rd_datasets c) = length ns" "\<And>j. j < length ns \<Longrightarrow> length (ds_items (rd_datasets c ! j)) = ns ! j" using assms by (auto simp: values_ok_def)
  then have "map (length \<circ> ds_items) (rd_datasets (snd (draw E ease c))) = ns" by (auto simp: draw_def Let_def intro!: nth_equalityI)
  then show ?thesis using assms radar_item_draw [OF assms] by (simp add: values_ok_def move_keeps)
qed

lemma radar_frames_keep:
  assumes "values_ok ns c"
  shows "values_ok ns (frames E eases c) \<and> rd_scale (frames E eases c) = rd_scale c
    \<and> (\<forall>j < length ns. \<forall>i < ns ! j. eget (item (rd_datasets (frames E eases c)) j i) ''value'' = eget (item (rd_datasets c) j i) ''value'')"
  using assms unfolding frames_def
proof (induction eases arbitrary: c)
  case (Cons ease eases)
  have "rd_scale (snd (draw E ease c)) = rd_scale c" by (simp add: draw_def Let_def)
  moreover have "eget (item (rd_datasets (snd (draw E ease c))) j i) ''value'' = eget (item (rd_datasets c) j i) ''value''" if "j < length ns" "i < ns ! j" for j i
    using radar_item_draw [OF Cons.prems that] move_keeps Cons.prems that by (simp add: values_ok_def)
  ultimately show ?case using Cons.IH [OF radar_draw_keeps [OF Cons.prems]] by simp
qed simp

lemma radar_moved_point:
  assumes "value_ok e" "getPointPosition (rd_scale c) (Fin (real i)) (calculateCenterOffset (rd_scale c) (enum e ''value'')) = \<lparr>px = Fin x, py = Fin y\<rparr>"
  shows "enum (move_radar_point c 1 i e) ''x'' = Fin x" "enum (move_radar_point c 1 i e) ''y'' = Fin y"
  using assms transition_end by (simp_all add: value_ok_def move_radar_point_def Let_def)

text \<open>What \<open>initialize\<close> leaves behind.\<close>

lemma radial_range_effect:
  "radial_range opt w h vs r = Some q \<Longrightarrow> r_valuesCount q = r_valuesCount r \<and> r_xCenter q = r_xCenter r \<and> r_yCenter q = r_yCenter r \<and> r_drawingArea q = r_drawingArea r"
  by (auto simp: radial_range_def split: if_splits)

lemma buildYLabels_effect:
  "radial_buildYLabels E r = Some (Inr q) \<Longrightarrow> r_valuesCount q = r_valuesCount r \<and> r_xCenter q = r_xCenter r \<and> r_yCenter q = r_yCenter r \<and> r_drawingArea q = r_drawingArea r"
  by (auto simp: radial_buildYLabels_def split: sum.splits option.splits)

lemma buildScale_effect:
  assumes "radar_buildScale E data labels c = Some (Inr r)" "text_widths E" "rd_width c = Fin w" "rd_height c = Fin h" "pointLabelFontSize c = Fin fs"
    and "0 < length (in_data (hd data))"
  shows "\<exists>x A. r_valuesCount r = int (length (in_data (hd data))) \<and> r_xCenter r = Fin x \<and> r_yCenter r = Fin (h / 2) \<and> r_drawingArea r = Fin A"
proof -
  obtain d ds where data: "data = d # ds" using assms(1) by (cases data) (auto simp: radar_buildScale_def)
  let ?n = "length (in_data d)" and ?s = "radar_scale c labels (length (in_data d))"
  obtain q where q: "radial_range (rd_options c) (rd_width c) (rd_height c) (concat (map in_data data)) (setScaleSize E ?s) = Some q"
    "radial_buildYLabels E q = Some (Inr r)"
    using assms(1) by (auto simp: radar_buildScale_def data range_then_def split: option.splits)
  have "radial_measures ?s ?n w h fs"
    using assms(3-6) by (simp add: radial_measures_def radar_scale_def radial_initialize_def data Let_def)
  then obtain A x where "setScaleSize E ?s = ?s\<lparr>r_drawingArea := Fin A, r_xCenter := Fin x, r_yCenter := Fin (h / 2)\<rparr>"
    using radial_room_size [OF _ assms(2)] by blast
  then show ?thesis
    using radial_range_effect [OF q(1)] buildYLabels_effect [OF q(2)] by (simp add: data radar_scale_def radial_initialize_def Let_def)
qed

lemma offset_value:
  assumes "r_min r = Fin lo" "r_max r = Fin hi" "lo < hi" "r_drawingArea r = Fin A"
  shows "calculateCenterOffset r (Fin v) = Fin ((v - lo) / (hi - lo) * A)"
  using assms by (simp add: calculateCenterOffset_def Let_def)

lemma radar_initialize_effect:
  assumes "initialize E data labels c = Some (Inr b)" "list_all (\<lambda>d. list_all isNumber (in_data d)) data"
    and "r_valuesCount (rd_scale b) = int n" "0 < n" "r_xCenter (rd_scale b) = Fin x" "r_yCenter (rd_scale b) = Fin y" "r_drawingArea (rd_scale b) = Fin A"
    and "r_min (rd_scale b) = Fin lo" "r_max (rd_scale b) = Fin hi" "lo < hi"
  shows "values_ok (map (length \<circ> in_data) data) b"
    and "j < length data \<Longrightarrow> i < length (in_data (data ! j)) \<Longrightarrow> eget (item (rd_datasets b) j i) ''value'' = in_data (data ! j) ! i"
proof -
  define c1 where "c1 = c\<lparr>rd_scale := rd_scale b\<rparr>"
  have b: "rd_datasets b = map (radar_dataset c1 labels) data"
    using assms(1) by (auto simp: initialize_def Let_def c1_def)
  have it: "item (rd_datasets b) j i = radar_point c1 labels (data ! j) i (in_data (data ! j) ! i)" if "j < length data" "i < length (in_data (data ! j))" for j i
    using that by (simp add: b item_def radar_dataset_def nth_enumerate_eq)
  have ok: "value_ok (item (rd_datasets b) j i)" if ji: "j < length data" "i < length (in_data (data ! j))" for j i
  proof -
    let ?v = "in_data (data ! j) ! i"
    have v: "isNumber ?v" using assms(2) ji by (simp add: list_all_length)
    then obtain q where q: "to_number ?v = Fin q" using isNumber_fin by blast
    show ?thesis
      using v assms(5,6) point_position [OF assms(3-6), of "real i" "(q - lo) / (hi - lo) * A"] offset_value [OF assms(8-10,7), of q]
      unfolding it [OF ji] by (simp add: value_ok_def hasValue_def radar_point_def c1_def q Let_def)
  qed
  then show "values_ok (map (length \<circ> in_data) data) b"
    by (auto simp: values_ok_def) (simp add: b radar_dataset_def)
  show "j < length data \<Longrightarrow> i < length (in_data (data ! j)) \<Longrightarrow> eget (item (rd_datasets b) j i) ''value'' = in_data (data ! j) ! i"
    using it by (simp add: radar_point_def Let_def)
qed

text \<open>
  C32. A radar chart made from numbers, on a scale with a proper range, after any frames of its
  animation and the last one: every point lies on the axis of its index, at a distance from the
  centre that is proportional to its value; and a mouse position that is nearer to the \<open>k\<close>-th axis than to the
  others, inside the drawing area, gives the \<open>k\<close>-th point of every dataset, also where the
  angle wraps around at the top.
\<close>

theorem radar_points:
  assumes "initialize E data labels c = Some (Inr b)" "list_all (\<lambda>d. list_all isNumber (in_data d)) data" "text_widths E"
    and "rd_width c = Fin w" "rd_height c = Fin h" "pointLabelFontSize c = Fin fs" "n = length (in_data (hd data))" "0 < n"
    and "r_min (rd_scale b) = Fin lo" "r_max (rd_scale b) = Fin hi" "lo < hi" "D = snd (draw E 1 (frames E eases b))"
  shows "\<exists>x y A.
    (\<forall>j < length data. \<forall>i < length (in_data (data ! j)). \<exists>v. to_number (in_data (data ! j) ! i) = Fin v
       \<and> enum (item (rd_datasets D) j i) ''x'' = Fin (x + (v - lo) / (hi - lo) * A * cos (real i * (2 * pi / real n) - pi / 2))
       \<and> enum (item (rd_datasets D) j i) ''y'' = Fin (y + (v - lo) / (hi - lo) * A * sin (real i * (2 * pi / real n) - pi / 2)))
    \<and> (\<forall>k < n. \<forall>t d. \<bar>t\<bar> < pi / real n \<and> 0 < d \<longrightarrow>
       getPointsAtEvent D (Fin (x + d * cos (real k * (2 * pi / real n) - pi / 2 + t))) (Fin (y + d * sin (real k * (2 * pi / real n) - pi / 2 + t)))
         = (if d \<le> A then map (\<lambda>e. map_option fst (idx (ds_items e) k)) (rd_datasets D) else []))"
proof -
  have "radar_buildScale E data labels c = Some (Inr (rd_scale b))"
    using assms(1) by (auto simp: initialize_def Let_def)
  from buildScale_effect [OF this assms(3-6)] obtain x A where
    s: "r_valuesCount (rd_scale b) = int n" "r_xCenter (rd_scale b) = Fin x" "r_yCenter (rd_scale b) = Fin (h / 2)" "r_drawingArea (rd_scale b) = Fin A"
    using assms(7,8) by auto
  note init = radar_initialize_effect [OF assms(1,2) s(1) assms(8) s(2-4) assms(9-11)]
  note f = radar_frames_keep [OF init(1), of E eases]
  let ?f = "frames E eases b"
  have D: "rd_scale D = rd_scale b" using f by (simp add: assms(12) draw_def Let_def)
  have pos: "\<exists>v. to_number (in_data (data ! j) ! i) = Fin v
       \<and> enum (item (rd_datasets D) j i) ''x'' = Fin (x + (v - lo) / (hi - lo) * A * cos (real i * (2 * pi / real n) - pi / 2))
       \<and> enum (item (rd_datasets D) j i) ''y'' = Fin (h / 2 + (v - lo) / (hi - lo) * A * sin (real i * (2 * pi / real n) - pi / 2))"
    if ji: "j < length data" "i < length (in_data (data ! j))" for j i
  proof -
    have "isNumber (in_data (data ! j) ! i)" using assms(2) ji by (simp add: list_all_length)
    then obtain v where v: "to_number (in_data (data ! j) ! i) = Fin v" using isNumber_fin by blast
    have e: "value_ok (item (rd_datasets ?f) j i)" "enum (item (rd_datasets ?f) j i) ''value'' = Fin v"
      using f init(2) [OF ji] ji v by (simp_all add: values_ok_def)
    have it: "item (rd_datasets D) j i = move_radar_point ?f 1 i (item (rd_datasets ?f) j i)"
      using radar_item_draw [of "map (length \<circ> in_data) data" ?f j i E 1] f ji by (simp add: assms(12))
    have "getPointPosition (rd_scale ?f) (Fin (real i)) (calculateCenterOffset (rd_scale ?f) (enum (item (rd_datasets ?f) j i) ''value''))
        = \<lparr>px = Fin (cos (real i * (2 * pi / real n) - pi / 2) * ((v - lo) / (hi - lo) * A) + x),
           py = Fin (sin (real i * (2 * pi / real n) - pi / 2) * ((v - lo) / (hi - lo) * A) + h / 2)\<rparr>"
      unfolding e(2) using f offset_value [OF assms(9-11) s(4), of v] point_position [OF s(1) assms(8) s(2,3)] by simp
    from radar_moved_point [OF e(1) this] show ?thesis unfolding it using v by (simp add: mult.commute add.commute)
  qed
  have "getPointsAtEvent D (Fin (x + d * cos (real k * (2 * pi / real n) - pi / 2 + t))) (Fin (h / 2 + d * sin (real k * (2 * pi / real n) - pi / 2 + t)))
      = (if d \<le> A then map (\<lambda>e. map_option fst (idx (ds_items e) k)) (rd_datasets D) else [])" if "k < n" "\<bar>t\<bar> < pi / real n" "0 < d" for k t d
    by (rule radar_hit) (use D s that in simp_all)
  then show ?thesis using pos by (intro exI [of _ x] exI [of _ "h / 2"] exI [of _ A]) blast
qed

subsection \<open>Examples\<close>

definition example_radar :: radar_chart where
  "example_radar = \<lparr>rd_width = Fin 400, rd_height = Fin 300, rd_options = example_radial_options, angleLineColor = JStr ''#ccc'', angleLineWidth = Fin 1,
     angleShowLineOut = True, pointLabelFontColor = JStr ''#666'', pointLabelFontSize = Fin 10, pointLabelFontFamily = JStr ''Arial'',
     pointLabelFontStyle = JStr ''normal'', rd_pointDot = True, rd_pointDotRadius = Fin 3, rd_pointDotStrokeWidth = Fin 1, rd_pointHitDetectionRadius = Fin 20,
     rd_datasetStrokeWidth = JNum 2, rd_animation = True, rd_datasets = [], rd_scale = example_radial\<rparr>"

definition example_values :: indata where
  "example_values = \<lparr>in_label = JStr ''a'', in_fillColor = JStr ''red'', in_strokeColor = JStr ''red'', in_pointColor = JStr ''red'',
     in_pointStrokeColor = JStr ''red'', in_highlightFill = JUndef, in_highlightStroke = JUndef, in_data = [JNum (Fin 3), JNum (Fin 7), JNum (Fin 10)]\<rparr>"

lemma radar_example_initialize:
  "\<exists>b. initialize example_env [example_values] [JStr ''x'', JStr ''y'', JStr ''z''] example_radar = Some (Inr b)
     \<and> r_min (rd_scale b) = Fin 0 \<and> r_max (rd_scale b) = Fin 10"
proof -
  let ?s = "(setScaleSize example_env (radar_scale example_radar [JStr ''x'', JStr ''y'', JStr ''z''] 3))\<lparr>r_steps := Fin 2, r_stepValue := Fin 5, r_min := Fin 0, r_max := Fin 10\<rparr>"
  obtain ls where ls: "radial_buildYLabels example_env ?s = Some (Inr (?s\<lparr>r_yLabels := ls\<rparr>))" using example_labels [of ?s] by auto
  have "rd_options example_radar = example_radial_options" "length (in_data example_values) = 3" by (simp_all add: example_radar_def example_values_def)
  then show ?thesis using ls by (simp add: initialize_def radar_buildScale_def range_then_def example_range Let_def)
qed

theorem radar_points_witness:
  "\<exists>b x A. initialize example_env [example_values] [JStr ''x'', JStr ''y'', JStr ''z''] example_radar = Some (Inr b)
     \<and> enum (item (rd_datasets (snd (draw example_env 1 (frames example_env [Fin (1 / 2)] b)))) 0 0) ''x'' = Fin (x + 3 / 10 * A * cos (- pi / 2))"
proof -
  obtain b where b: "initialize example_env [example_values] [JStr ''x'', JStr ''y'', JStr ''z''] example_radar = Some (Inr b)"
    "r_min (rd_scale b) = Fin 0" "r_max (rd_scale b) = Fin 10" using radar_example_initialize by blast
  let ?D = "snd (draw example_env 1 (frames example_env [Fin (1 / 2)] b))"
  have "list_all (\<lambda>d. list_all isNumber (in_data d)) [example_values]" "rd_width example_radar = Fin 400" "rd_height example_radar = Fin 300"
    "pointLabelFontSize example_radar = Fin 10" "3 = length (in_data (hd [example_values]))"
    by (simp_all add: example_values_def example_radar_def)
  from radar_points [OF b(1) this(1) example_text_widths this(2-5) _ b(2,3) _ refl]
  obtain x A where "\<exists>v. to_number (in_data ([example_values] ! 0) ! 0) = Fin v
      \<and> enum (item (rd_datasets ?D) 0 0) ''x'' = Fin (x + (v - 0) / (10 - 0) * A * cos (real 0 * (2 * pi / real 3) - pi / 2))"
    by (fastforce simp: example_values_def)
  then have "enum (item (rd_datasets ?D) 0 0) ''x'' = Fin (x + 3 / 10 * A * cos (- pi / 2))" by (auto simp: example_values_def)
  then show ?thesis using b(1) by blast
qed

end
