(* ===== verification/Chart_Doughnut.thy ===== *)
theory Chart_Doughnut
  imports Chart_Element
begin

section \<open>Doughnut and pie charts\<close>

text \<open>
  The chart type \<open>Doughnut\<close> (and \<open>Pie\<close>, which only sets other defaults): a list of arcs that share the
  circle in proportion to their values. The state has the options, the segments with a flag for those
  in \<open>activeElements\<close>, the radius and the total. The properties that all segments inherit from
  \<open>SegmentArc.prototype\<close> are set on every segment when they change. The values of the data are
  numbers. Drawing returns the canvas commands and the new state; when and how often it runs is up
  to the animation.
\<close>

record doughnut =
  dn_width :: jsnum
  dn_height :: jsnum
  segmentStrokeWidth :: jsnum
  segmentStrokeColor :: jsval
  segmentShowStroke :: bool
  percentageInnerCutout :: jsnum
  animateScale :: bool
  animateRotate :: bool
  segments :: "(element \<times> bool) list"
  dn_outerRadius :: jsnum
  total :: jsnum

record datapoint =
  dp_value :: jsnum
  dp_color :: jsval
  dp_highlight :: jsval
  dp_label :: jsval

subsection \<open>Operations\<close>

definition outer_radius :: "doughnut \<Rightarrow> jsnum" where
  "outer_radius d = (js_min [JNum (dn_width d), JNum (dn_height d)] - segmentStrokeWidth d / 2) / 2"

definition inner_radius :: "doughnut \<Rightarrow> jsnum" where
  "inner_radius d = (dn_outerRadius d / 100) * percentageInnerCutout d"

definition arc_class :: "doughnut \<Rightarrow> props" where
  "arc_class d = [(''x'', JNum (dn_width d / 2)), (''y'', JNum (dn_height d / 2))]"

definition calculateCircumference :: "doughnut \<Rightarrow> jsnum \<Rightarrow> jsnum" where
  "calculateCircumference d value = (Math_PI * 2) * (value / total d)"

definition calculateTotal :: "jsnum list \<Rightarrow> doughnut \<Rightarrow> doughnut" where
  "calculateTotal values d = d\<lparr>total := foldl (+) 0 values\<rparr>"

definition new_segment :: "doughnut \<Rightarrow> datapoint \<Rightarrow> element" where
  "new_segment d p = new_element (arc_class d)
     [(''value'', JNum (dp_value p)),
      (''outerRadius'', JNum (if animateScale d then 0 else dn_outerRadius d)),
      (''innerRadius'', JNum (if animateScale d then 0 else inner_radius d)),
      (''fillColor'', dp_color p),
      (''highlightColor'', js_or (dp_highlight p) (dp_color p)),
      (''showStroke'', JBool (segmentShowStroke d)),
      (''strokeWidth'', JNum (segmentStrokeWidth d)),
      (''strokeColor'', segmentStrokeColor d),
      (''startAngle'', JNum (Math_PI * Fin (3 / 2))),
      (''circumference'', JNum (if animateRotate d then 0 else calculateCircumference d (dp_value p))),
      (''label'', dp_label p)]"

text \<open>\<open>atIndex || this.segments.length\<close>, and \<open>splice\<close> with an index past the end.\<close>

definition insert_segment :: "nat option \<Rightarrow> element \<Rightarrow> (element \<times> bool) list \<Rightarrow> (element \<times> bool) list" where
  "insert_segment atIndex s ss =
     (let i = (case atIndex of None \<Rightarrow> length ss | Some n \<Rightarrow> if n = 0 then length ss else n)
      in take i ss @ (s, False) # drop i ss)"

definition reflow :: "doughnut \<Rightarrow> doughnut" where
  "reflow d =
     (let d1 = d\<lparr>dn_outerRadius := outer_radius d\<rparr>
      in d1\<lparr>segments := map (\<lambda>(s, active). (Chart_Element.update [(''outerRadius'', JNum (dn_outerRadius d1)),
             (''innerRadius'', JNum (inner_radius d1))] (s\<lparr>el_proto := arc_class d\<rparr>), active)) (segments d)\<rparr>)"

definition update_doughnut :: "doughnut \<Rightarrow> doughnut" where
  "update_doughnut d =
     (let d1 = calculateTotal (map (\<lambda>(s, _). enum s ''value'') (segments d)) d
      in d1\<lparr>segments := map (\<lambda>(s, active). (save (if active then restore_keys [''fillColor''] s else s), active)) (segments d1)\<rparr>)"

definition addData :: "datapoint \<Rightarrow> nat option \<Rightarrow> bool \<Rightarrow> doughnut \<Rightarrow> doughnut" where
  "addData p atIndex silent d =
     (let d1 = d\<lparr>segments := insert_segment atIndex (new_segment d p) (segments d)\<rparr>
      in if silent then d1 else update_doughnut (reflow d1))"

text \<open>The index to delete is the last one where none is given; \<open>splice\<close> past the end deletes nothing.\<close>

definition removeData :: "nat option \<Rightarrow> doughnut \<Rightarrow> doughnut" where
  "removeData atIndex d =
     (let i = (case atIndex of Some n \<Rightarrow> n | None \<Rightarrow> length (segments d) - 1)
      in update_doughnut (reflow (d\<lparr>segments := take i (segments d) @ drop (Suc i) (segments d)\<rparr>)))"

definition initialize :: "datapoint list \<Rightarrow> doughnut \<Rightarrow> doughnut" where
  "initialize ps d =
     (let d1 = calculateTotal (map dp_value ps) (d\<lparr>segments := [], dn_outerRadius := outer_radius d\<rparr>)
      in fold (\<lambda>(i, p). addData p (Some i) True) (enumerate 0 ps) d1)"

text \<open>One round of the loop of \<open>draw\<close>; \<open>start\<close> is the start angle that the round before has set.\<close>

definition transition_props :: "doughnut \<Rightarrow> element \<Rightarrow> props" where
  "transition_props d s = [(''circumference'', JNum (calculateCircumference d (enum s ''value''))),
     (''outerRadius'', JNum (dn_outerRadius d)), (''innerRadius'', JNum (inner_radius d))]"

definition turn :: "doughnut \<Rightarrow> jsnum \<Rightarrow> jsval option \<Rightarrow> element \<Rightarrow> element" where
  "turn d ease start s =
     (let s0 = (case start of None \<Rightarrow> s | Some a \<Rightarrow> eset ''startAngle'' a s);
          s1 = transition (transition_props d s0) ease s0
      in eset ''endAngle'' (JNum (enum s1 ''startAngle'' + enum s1 ''circumference'')) s1)"

fun draw_segments :: "doughnut \<Rightarrow> jsnum \<Rightarrow> jsval option \<Rightarrow> (element \<times> bool) list \<Rightarrow> cmd list \<times> (element \<times> bool) list" where
  "draw_segments d ease start [] = ([], [])"
| "draw_segments d ease start ((s, active) # ss) =
     (let s1 = turn d ease start s;
          s2 = (if start = None then eset ''startAngle'' (JNum (Math_PI * Fin (3 / 2))) s1 else s1);
          (cs, ss') = draw_segments d ease (Some (eget s2 ''endAngle'')) ss
      in (arc_draw s1 @ cs, (s2, active) # ss'))"

definition draw :: "jsnum \<Rightarrow> doughnut \<Rightarrow> cmd list \<times> doughnut" where
  "draw easeDecimal d =
     (let ease = (if num_truthy easeDecimal then easeDecimal else 1);
          (cs, ss) = draw_segments d ease None (segments d)
      in (clear_chart (dn_width d) (dn_height d) @ cs, d\<lparr>segments := ss\<rparr>))"

definition getSegmentsAtEvent :: "doughnut \<Rightarrow> jsnum \<Rightarrow> jsnum \<Rightarrow> element list" where
  "getSegmentsAtEvent d x y = filter (\<lambda>s. arc_inRange s x y) (map fst (segments d))"

subsection \<open>The angles of the segments\<close>

lemma wf_transition_props [simp]: "wf_props (transition_props d s)"
  by (simp add: transition_props_def)

lemma turn_saved [simp]: "el_saved (turn d ease start s) = el_saved s"
  by (simp add: turn_def Let_def split: option.split)

lemma turn_angles:
  "eget (turn d ease start s) ''startAngle'' = (case start of None \<Rightarrow> eget s ''startAngle'' | Some a \<Rightarrow> a)"
  "eget (turn d ease start s) ''value'' = eget s ''value''"
  "eget (turn d ease start s) ''x'' = eget s ''x''" "eget (turn d ease start s) ''y'' = eget s ''y''"
  "eget (turn d ease start s) ''endAngle'' = JNum (enum (turn d ease start s) ''startAngle'' + enum (turn d ease start s) ''circumference'')"
  by (simp_all add: turn_def transition_props_def Let_def split: option.split)

lemma turn_animated:
  "eget (turn d ease start s) ''circumference'' =
     JNum (((calculateCircumference d (enum s ''value'') - nget (el_saved s) ''circumference'') * ease) + nget (el_saved s) ''circumference'')"
  "eget (turn d ease start s) ''outerRadius'' =
     JNum (((dn_outerRadius d - nget (el_saved s) ''outerRadius'') * ease) + nget (el_saved s) ''outerRadius'')"
  "eget (turn d ease start s) ''innerRadius'' =
     JNum (((inner_radius d - nget (el_saved s) ''innerRadius'') * ease) + nget (el_saved s) ''innerRadius'')"
  by (simp_all add: turn_def transition_props_def Let_def split: option.split)

text \<open>A segment with finite snapshots and a value.\<close>

definition seg_ok :: "real \<Rightarrow> element \<Rightarrow> bool" where
  "seg_ok v s = (eget s ''value'' = JNum (Fin v) \<and> is_fin (nget (el_saved s) ''circumference'')
     \<and> is_fin (nget (el_saved s) ''outerRadius'') \<and> is_fin (nget (el_saved s) ''innerRadius''))"

text \<open>Where the arcs of the values lie, from the angle \<open>a\<close> on.\<close>

fun arcs :: "real \<Rightarrow> real \<Rightarrow> real list \<Rightarrow> (real \<times> real) list" where
  "arcs T a [] = []"
| "arcs T a (v # vs) = (a, a + 2 * pi * v / T) # arcs T (a + 2 * pi * v / T) vs"

definition arc_of :: "element \<Rightarrow> jsval \<times> jsval" where
  "arc_of s = (eget s ''startAngle'', eget s ''endAngle'')"

definition jarc :: "real \<times> real \<Rightarrow> jsval \<times> jsval" where
  "jarc p = (JNum (Fin (fst p)), JNum (Fin (snd p)))"

lemma turn_arc:
  assumes "seg_ok v s" "total d = Fin T" "T \<noteq> 0" "(case start of None \<Rightarrow> eget s ''startAngle'' | Some a \<Rightarrow> a) = JNum (Fin a)"
  shows "arc_of (turn d 1 start s) = jarc (a, a + 2 * pi * v / T)"
proof -
  have "calculateCircumference d (Fin v) = Fin (2 * pi * v / T)"
    using assms(2,3) by (simp add: calculateCircumference_def Math_PI_def)
  then have "eget (turn d 1 start s) ''circumference'' = JNum (Fin (2 * pi * v / T))"
    using assms(1) transition_end unfolding turn_animated by (simp add: seg_ok_def)
  then show ?thesis using assms(4) by (simp add: arc_of_def jarc_def turn_angles)
qed

lemma turn_radii:
  assumes "seg_ok v s" "dn_outerRadius d = Fin u" "inner_radius d = Fin i"
  shows "eget (turn d 1 start s) ''outerRadius'' = JNum (Fin u)" "eget (turn d 1 start s) ''innerRadius'' = JNum (Fin i)"
  using assms transition_end unfolding turn_animated by (simp_all add: seg_ok_def)

text \<open>Drawing with the animation at its end: every segment gets its arc.\<close>

definition turned :: "doughnut \<Rightarrow> element \<times> bool \<Rightarrow> element \<times> bool \<Rightarrow> bool" where
  "turned d x y = (snd y = snd x \<and> (\<exists>start. fst y = turn d 1 start (fst x) \<or>
     fst y = eset ''startAngle'' (JNum (Fin (3 * pi / 2))) (turn d 1 start (fst x))))"

lemma three_halves: "Math_PI * Fin (3 / 2) = Fin (3 * pi / 2)"
  by (simp add: Math_PI_def)

lemma draw_arcs:
  assumes "list_all2 (\<lambda>v (s, _). seg_ok v s) vs ss" "total d = Fin T" "T \<noteq> 0"
  shows "map (arc_of \<circ> fst) (snd (draw_segments d 1 (Some (JNum (Fin a))) ss)) = map jarc (arcs T a vs)"
    and "list_all2 (turned d) ss (snd (draw_segments d 1 (Some (JNum (Fin a))) ss))"
proof -
  have "map (arc_of \<circ> fst) (snd (draw_segments d 1 (Some (JNum (Fin a))) ss)) = map jarc (arcs T a vs)
      \<and> list_all2 (turned d) ss (snd (draw_segments d 1 (Some (JNum (Fin a))) ss))"
    using assms(1)
  proof (induction vs ss arbitrary: a rule: list_all2_induct)
    case (Cons v vs x ss)
    obtain s active where x: "x = (s, active)" by (cases x)
    let ?s = "turn d 1 (Some (JNum (Fin a))) s"
    have arc: "arc_of ?s = jarc (a, a + 2 * pi * v / T)"
      using Cons(1) assms(2,3) by (intro turn_arc) (simp_all add: x)
    then have e: "eget ?s ''endAngle'' = JNum (Fin (a + 2 * pi * v / T))" by (simp add: arc_of_def jarc_def)
    have "turned d (s, active) (?s, active)" by (auto simp: turned_def)
    then show ?case using Cons(3) [of "a + 2 * pi * v / T"] arc e
      by (auto simp: x Let_def split: prod.split)
  qed simp
  then show "map (arc_of \<circ> fst) (snd (draw_segments d 1 (Some (JNum (Fin a))) ss)) = map jarc (arcs T a vs)"
    "list_all2 (turned d) ss (snd (draw_segments d 1 (Some (JNum (Fin a))) ss))" by blast+
qed

text \<open>From twelve o'clock, where the first segment starts.\<close>

definition drawn_ok :: "real list \<Rightarrow> real \<Rightarrow> doughnut \<Rightarrow> bool" where
  "drawn_ok vs T d = (list_all2 (\<lambda>v (s, _). seg_ok v s) vs (segments d) \<and> total d = Fin T \<and> T = sum_list vs \<and> 0 < T \<and>
     list_all (\<lambda>v. 0 \<le> v) vs \<and> eget (fst (hd (segments d))) ''startAngle'' = JNum (Fin (3 * pi / 2)))"

lemma draw_whole:
  assumes "drawn_ok vs T d"
  shows "map (arc_of \<circ> fst) (segments (snd (draw 1 d))) = map jarc (arcs T (3 * pi / 2) vs)"
    and "list_all2 (turned d) (segments d) (segments (snd (draw 1 d)))"
proof -
  obtain v vs' where vs: "vs = v # vs'" using assms by (cases vs) (auto simp: drawn_ok_def)
  then obtain s active ss where ss: "segments d = (s, active) # ss" and ok: "seg_ok v s" "list_all2 (\<lambda>v (s, _). seg_ok v s) vs' ss"
    using assms by (auto simp: drawn_ok_def list_all2_Cons1)
  have T: "total d = Fin T" "T \<noteq> 0" "eget s ''startAngle'' = JNum (Fin (3 * pi / 2))" using assms ss by (auto simp: drawn_ok_def)
  let ?s = "turn d 1 None s"
  have arc: "arc_of ?s = jarc (3 * pi / 2, 3 * pi / 2 + 2 * pi * v / T)"
    using ok(1) T by (intro turn_arc) simp_all
  then have e: "eget ?s ''startAngle'' = JNum (Fin (3 * pi / 2))" "eget ?s ''endAngle'' = JNum (Fin (3 * pi / 2 + 2 * pi * v / T))"
    by (simp_all add: arc_of_def jarc_def)
  let ?s' = "eset ''startAngle'' (JNum (Fin (3 * pi / 2))) ?s"
  have arc': "arc_of ?s' = jarc (3 * pi / 2, 3 * pi / 2 + 2 * pi * v / T)" using e by (simp add: arc_of_def jarc_def)
  have "segments (snd (draw 1 d)) = (?s', active) # snd (draw_segments d 1 (Some (JNum (Fin (3 * pi / 2 + 2 * pi * v / T)))) ss)"
    using e by (simp add: draw_def ss Let_def mult.commute split: prod.split)
  then show "map (arc_of \<circ> fst) (segments (snd (draw 1 d))) = map jarc (arcs T (3 * pi / 2) vs)"
    "list_all2 (turned d) (segments d) (segments (snd (draw 1 d)))"
    using draw_arcs [OF ok(2) T(1,2)] arc' by (auto simp: vs ss turned_def)
qed

subsection \<open>Every position of the ring belongs to one segment\<close>

fun in_arc :: "real \<Rightarrow> jsval \<times> jsval \<Rightarrow> bool" where
  "in_arc t (JNum (Fin a), JNum (Fin b)) = (a \<le> t \<and> t \<le> b)"
| "in_arc t _ = False"

lemma in_jarc [simp]: "in_arc t (jarc (a, b)) = (a \<le> t \<and> t \<le> b)"
  by (simp add: jarc_def)

lemma arcs_Nil [simp]: "arcs T a vs = [] \<longleftrightarrow> vs = []"
  by (cases vs) simp_all

lemma arcs_later: "t < a \<Longrightarrow> 0 < T \<Longrightarrow> list_all (\<lambda>v. 0 \<le> v) vs \<Longrightarrow> filter (\<lambda>p. in_arc t (jarc p)) (arcs T a vs) = []"
proof (induction vs arbitrary: a)
  case (Cons v vs)
  have "0 \<le> 2 * pi * v / T" using Cons.prems by simp
  then show ?case using Cons.prems Cons.IH [of "a + 2 * pi * v / T"] by simp
qed simp

lemma arcs_hit:
  assumes "0 < T" "list_all (\<lambda>v. 0 \<le> v) vs" "a \<le> t" "t < a + 2 * pi * sum_list vs / T" "t \<notin> snd ` set (arcs T a vs)"
  shows "length (filter (\<lambda>p. in_arc t (jarc p)) (arcs T a vs)) = 1"
  using assms(2-)
proof (induction vs arbitrary: a)
  case (Cons v vs)
  let ?b = "a + 2 * pi * v / T"
  have "t \<noteq> ?b" using Cons.prems by simp
  then consider "t < ?b" | "?b < t" by linarith
  then show ?case
  proof cases
    case 1
    then show ?thesis using Cons.prems arcs_later [of t ?b T vs] assms(1) by simp
  next
    case 2
    have "a + 2 * pi * sum_list (v # vs) / T = ?b + 2 * pi * sum_list vs / T" by (simp add: algebra_simps add_divide_distrib)
    then show ?thesis using Cons.prems 2 Cons.IH [of ?b] by simp
  qed
qed simp

lemma arcs_end: "vs \<noteq> [] \<Longrightarrow> snd (last (arcs T a vs)) = a + 2 * pi * sum_list vs / T"
proof (induction vs arbitrary: a)
  case (Cons v vs)
  have e: "a + 2 * pi * sum_list (v # vs) / T = a + 2 * pi * v / T + 2 * pi * sum_list vs / T" by (simp add: algebra_simps add_divide_distrib)
  show ?case unfolding e using Cons.IH [of "a + 2 * pi * v / T"] by (cases "vs = []") simp_all
qed simp

lemma drawn_tiles:
  assumes "drawn_ok vs T d" "dn_outerRadius d = Fin u" "inner_radius d = Fin i"
    and "list_all (\<lambda>(s, _). eget s ''x'' = JNum (Fin cx) \<and> eget s ''y'' = JNum (Fin cy)) (segments d)"
    and "0 < r" "i \<le> r" "r \<le> u" "3 * pi / 2 \<le> t" "t < 7 * pi / 2" "t \<notin> snd ` set (arcs T (3 * pi / 2) vs)"
  shows "map (arc_of \<circ> fst) (segments (snd (draw 1 d))) = map jarc (arcs T (3 * pi / 2) vs)
    \<and> snd (last (arcs T (3 * pi / 2) vs)) = 7 * pi / 2
    \<and> length (getSegmentsAtEvent (snd (draw 1 d)) (Fin (cx + r * cos t)) (Fin (cy + r * sin t))) = 1"
proof -
  let ?ss = "segments (snd (draw 1 d))" and ?x = "Fin (cx + r * cos t)" and ?y = "Fin (cy + r * sin t)"
  have vs: "vs \<noteq> []" "T = sum_list vs" "0 < T" "list_all (\<lambda>v. 0 \<le> v) vs" "list_all2 (\<lambda>v (s, _). seg_ok v s) vs (segments d)"
    using assms(1) by (auto simp: drawn_ok_def)
  note arcs = draw_whole(1) [OF assms(1)]
  have hit: "arc_inRange (fst y) ?x ?y = in_arc t (arc_of (fst y))" if y: "y \<in> set ?ss" for y
  proof -
    obtain k where k: "k < length ?ss" "y = ?ss ! k" using y by (auto simp: in_set_conv_nth)
    define z where "z = segments d ! k"
    have len: "length vs = length (segments d)" "length (segments d) = length ?ss"
      using vs(5) draw_whole(2) [OF assms(1)] by (auto dest: list_all2_lengthD)
    have z: "turned d z y" "z \<in> set (segments d)"
      using draw_whole(2) [OF assms(1)] k len by (simp_all add: z_def list_all2_conv_all_nth)
    have v: "seg_ok (vs ! k) (fst z)" using vs(5) k len by (simp add: z_def list_all2_conv_all_nth case_prod_beta)
    have c: "enum (fst y) ''x'' = Fin cx" "enum (fst y) ''y'' = Fin cy" "enum (fst y) ''outerRadius'' = Fin u" "enum (fst y) ''innerRadius'' = Fin i"
      using z assms(4) turn_radii [OF v assms(2,3)] by (auto simp: turned_def turn_angles list_all_iff)
    have "arc_of (fst y) \<in> jarc ` set (arcs T (3 * pi / 2) vs)"
      using arcs y by (metis (mono_tags, lifting) comp_apply image_eqI list.set_map)
    then obtain a b where ab: "arc_of (fst y) = jarc (a, b)" by auto
    then have "enum (fst y) ''startAngle'' = Fin a" "enum (fst y) ''endAngle'' = Fin b" by (simp_all add: arc_of_def jarc_def)
    then show ?thesis using arc_inRange_polar [OF c(1,2) _ _ c(4,3) assms(5,8,9)] assms(6,7) ab by (simp add: jarc_def)
  qed
  have "length (getSegmentsAtEvent (snd (draw 1 d)) ?x ?y) = length (filter (\<lambda>y. arc_inRange (fst y) ?x ?y) ?ss)"
    by (simp add: getSegmentsAtEvent_def filter_map comp_def)
  also have "filter (\<lambda>y. arc_inRange (fst y) ?x ?y) ?ss = filter (in_arc t \<circ> (arc_of \<circ> fst)) ?ss"
    using hit by (intro filter_cong) simp_all
  also have "length \<dots> = length (filter (in_arc t) (map (arc_of \<circ> fst) ?ss))" by (simp add: filter_map)
  also have "\<dots> = length (filter (in_arc t) (map jarc (arcs T (3 * pi / 2) vs)))" unfolding arcs ..
  also have "\<dots> = length (filter (\<lambda>p. in_arc t (jarc p)) (arcs T (3 * pi / 2) vs))" by (simp add: filter_map comp_def)
  also have "\<dots> = 1"
    using vs assms(8-10) by (intro arcs_hit) (simp_all add: field_simps)
  finally show ?thesis using arcs arcs_end [OF vs(1), of T "3 * pi / 2"] vs(2,3) by simp
qed

subsection \<open>From the data to the drawing\<close>

lemma segment_fields:
  "new_segment (d\<lparr>segments := ss\<rparr>) p = new_segment d p"
  by (simp add: new_segment_def arc_class_def inner_radius_def calculateCircumference_def)

lemma add_all:
  "segments (fold (\<lambda>(i, p). addData p (Some i) True) (enumerate (length (segments d)) ps) d) = segments d @ map (\<lambda>p. (new_segment d p, False)) ps
   \<and> fold (\<lambda>(i, p). addData p (Some i) True) (enumerate (length (segments d)) ps) d
     = d\<lparr>segments := segments d @ map (\<lambda>p. (new_segment d p, False)) ps\<rparr>"
proof (induction ps arbitrary: d)
  case (Cons p ps)
  let ?d = "d\<lparr>segments := segments d @ [(new_segment d p, False)]\<rparr>"
  have "addData p (Some (length (segments d))) True d = ?d" by (simp add: addData_def insert_segment_def Let_def)
  moreover have "length (segments ?d) = Suc (length (segments d))" by simp
  ultimately show ?case using Cons [of ?d] by (simp add: segment_fields)
qed simp

lemma new_segment_fields:
  "eget (new_segment d p) ''value'' = JNum (dp_value p)"
  "eget (new_segment d p) ''startAngle'' = JNum (Fin (3 * pi / 2))"
  "eget (new_segment d p) ''x'' = JNum (dn_width d / 2)"
  "eget (new_segment d p) ''y'' = JNum (dn_height d / 2)"
  by (simp_all add: new_segment_def arc_class_def three_halves)

lemma new_segment_saved:
  "nget (el_saved (new_segment d p)) ''circumference'' = (if animateRotate d then 0 else calculateCircumference d (dp_value p))"
  "nget (el_saved (new_segment d p)) ''outerRadius'' = (if animateScale d then 0 else dn_outerRadius d)"
  "nget (el_saved (new_segment d p)) ''innerRadius'' = (if animateScale d then 0 else inner_radius d)"
  by (simp_all add: new_segment_def)

definition doughnut_data :: "doughnut \<Rightarrow> real list \<Rightarrow> datapoint list \<Rightarrow> real \<Rightarrow> real \<Rightarrow> real \<Rightarrow> real \<Rightarrow> bool" where
  "doughnut_data d vs ps w h sw pc =
     (map dp_value ps = map Fin vs \<and> list_all (\<lambda>v. 0 \<le> v) vs \<and> 0 < sum_list vs \<and> dn_width d = Fin w \<and> dn_height d = Fin h
      \<and> segmentStrokeWidth d = Fin sw \<and> percentageInnerCutout d = Fin pc)"

lemma sum_Fin: "foldl (+) (Fin a) (map Fin vs) = Fin (a + sum_list vs)"
  by (induction vs arbitrary: a) (simp_all add: add.assoc)

definition fresh :: "datapoint list \<Rightarrow> doughnut \<Rightarrow> doughnut" where
  "fresh ps d = calculateTotal (map dp_value ps) (d\<lparr>segments := [], dn_outerRadius := outer_radius d\<rparr>)"

lemma initialize_fresh: "initialize ps d = (fresh ps d)\<lparr>segments := map (\<lambda>p. (new_segment (fresh ps d) p, False)) ps\<rparr>"
  using add_all [of "fresh ps d" ps] by (simp add: initialize_def fresh_def calculateTotal_def)

lemma fresh_fields:
  assumes "doughnut_data d vs ps w h sw pc"
  shows "total (fresh ps d) = Fin (sum_list vs)" "dn_width (fresh ps d) = Fin w" "dn_height (fresh ps d) = Fin h"
    "dn_outerRadius (fresh ps d) = Fin ((min w h - sw / 2) / 2)" "inner_radius (fresh ps d) = Fin ((min w h - sw / 2) / 2 / 100 * pc)"
proof -
  have D: "map dp_value ps = map Fin vs" "dn_width d = Fin w" "dn_height d = Fin h" "segmentStrokeWidth d = Fin sw" "percentageInnerCutout d = Fin pc"
    using assms by (simp_all add: doughnut_data_def)
  have r: "outer_radius d = Fin ((min w h - sw / 2) / 2)"
    using D by (simp add: outer_radius_def js_min_def Math_min_def min2_def min_def)
  show "total (fresh ps d) = Fin (sum_list vs)" using sum_Fin [of 0 vs] by (simp add: fresh_def calculateTotal_def D(1))
  show "dn_width (fresh ps d) = Fin w" "dn_height (fresh ps d) = Fin h"
    "dn_outerRadius (fresh ps d) = Fin ((min w h - sw / 2) / 2)" "inner_radius (fresh ps d) = Fin ((min w h - sw / 2) / 2 / 100 * pc)"
    by (simp_all add: fresh_def calculateTotal_def inner_radius_def r D)
qed

lemma fresh_segment:
  assumes "total f = Fin T" "T \<noteq> 0" "dn_outerRadius f = Fin u" "inner_radius f = Fin i" "dp_value p = Fin v"
  shows "seg_ok v (new_segment f p)"
  using assms by (simp add: new_segment_fields new_segment_saved seg_ok_def calculateCircumference_def Math_PI_def)

lemma initialize_drawn_ok:
  assumes "doughnut_data d vs ps w h sw pc"
  shows "drawn_ok vs (sum_list vs) (initialize ps d)" "dn_outerRadius (initialize ps d) = Fin ((min w h - sw / 2) / 2)"
    "inner_radius (initialize ps d) = Fin ((min w h - sw / 2) / 2 / 100 * pc)"
    "list_all (\<lambda>(s, _). eget s ''x'' = JNum (Fin (w / 2)) \<and> eget s ''y'' = JNum (Fin (h / 2))) (segments (initialize ps d))"
proof -
  note f = fresh_fields [OF assms]
  have D: "map dp_value ps = map Fin vs" "list_all (\<lambda>v. 0 \<le> v) vs" "0 < sum_list vs" using assms by (simp_all add: doughnut_data_def)
  have len: "length vs = length ps" using arg_cong [OF D(1), of length] by simp
  have val: "dp_value (ps ! k) = Fin (vs ! k)" if "k < length vs" for k
    using arg_cong [OF D(1), of "\<lambda>xs. xs ! k"] that len by simp
  have "vs \<noteq> []" using D(3) by auto
  then have "eget (fst (hd (segments (initialize ps d)))) ''startAngle'' = JNum (Fin (3 * pi / 2))"
    using len by (cases ps) (simp_all add: initialize_fresh new_segment_fields)
  moreover have "list_all2 (\<lambda>v (s, _). seg_ok v s) vs (segments (initialize ps d))"
    using fresh_segment [OF f(1) _ f(4,5) val] D(3) len by (auto simp: initialize_fresh intro!: list_all2_all_nthI)
  ultimately show "drawn_ok vs (sum_list vs) (initialize ps d)" using D(2,3) f(1) by (simp add: drawn_ok_def initialize_fresh)
  show "dn_outerRadius (initialize ps d) = Fin ((min w h - sw / 2) / 2)" using f(4) by (simp add: initialize_fresh)
  show "inner_radius (initialize ps d) = Fin ((min w h - sw / 2) / 2 / 100 * pc)" using f(5) by (simp add: initialize_fresh inner_radius_def)
  show "list_all (\<lambda>(s, _). eget s ''x'' = JNum (Fin (w / 2)) \<and> eget s ''y'' = JNum (Fin (h / 2))) (segments (initialize ps d))"
    using f(2,3) by (simp add: initialize_fresh list_all_iff new_segment_fields)
qed

text \<open>Drawing the frames of an animation keeps what the last drawing needs.\<close>

lemma turn_keeps: "seg_ok v s \<Longrightarrow> seg_ok v (turn d ease start s)" "seg_ok v (eset ''startAngle'' a s) = seg_ok v s"
  by (simp_all add: seg_ok_def turn_angles)

lemma draw_segments_keep:
  "list_all2 (\<lambda>v (s, _). seg_ok v s) vs ss \<Longrightarrow> list_all2 (\<lambda>v (s, _). seg_ok v s) vs (snd (draw_segments d ease start ss))"
proof (induction d ease start ss arbitrary: vs rule: draw_segments.induct)
  case (2 d ease start s active ss)
  then obtain v vs' where vs: "vs = v # vs'" "seg_ok v s" "list_all2 (\<lambda>v (s, _). seg_ok v s) vs' ss"
    by (auto simp: list_all2_Cons2)
  then show ?case using 2(1) [OF refl refl vs(3)] by (simp add: Let_def turn_keeps case_prod_beta)
qed simp

lemma draw_segments_centre:
  "list_all (\<lambda>(s, _). eget s ''x'' = a \<and> eget s ''y'' = b) ss \<Longrightarrow>
   list_all (\<lambda>(s, _). eget s ''x'' = a \<and> eget s ''y'' = b) (snd (draw_segments d ease start ss))"
proof (induction d ease start ss rule: draw_segments.induct)
  case (2 d ease start s active ss)
  then show ?case by (simp add: Let_def turn_angles case_prod_beta)
qed simp

lemma draw_state: "snd (draw ease d) = d\<lparr>segments := snd (draw_segments d (if num_truthy ease then ease else 1) None (segments d))\<rparr>"
  by (simp add: draw_def Let_def case_prod_beta)

lemma doughnut_draw_keeps:
  assumes "drawn_ok vs T d"
  shows "drawn_ok vs T (snd (draw ease d))"
proof -
  let ?ease = "if num_truthy ease then ease else 1"
  have "segments d \<noteq> []" using assms by (auto simp: drawn_ok_def)
  then have "eget (fst (hd (snd (draw_segments d ?ease None (segments d))))) ''startAngle'' = JNum (Fin (3 * pi / 2))"
    by (cases "segments d") (auto simp: Let_def mult.commute split: prod.split)
  then show ?thesis
    using assms draw_segments_keep [of vs "segments d" d ?ease None] unfolding draw_state by (simp add: drawn_ok_def)
qed

definition frames :: "jsnum list \<Rightarrow> doughnut \<Rightarrow> doughnut" where
  "frames eases d = fold (\<lambda>ease d. snd (draw ease d)) eases d"

lemma doughnut_frames_keep:
  assumes "drawn_ok vs T d" "list_all (\<lambda>(s, _). eget s ''x'' = a \<and> eget s ''y'' = b) (segments d)"
  shows "drawn_ok vs T (frames eases d) \<and> list_all (\<lambda>(s, _). eget s ''x'' = a \<and> eget s ''y'' = b) (segments (frames eases d))
    \<and> dn_outerRadius (frames eases d) = dn_outerRadius d \<and> percentageInnerCutout (frames eases d) = percentageInnerCutout d"
  using assms unfolding frames_def
proof (induction eases arbitrary: d)
  case (Cons ease eases)
  let ?d = "snd (draw ease d)"
  have c: "list_all (\<lambda>(s, _). eget s ''x'' = a \<and> eget s ''y'' = b) (segments ?d)"
    unfolding draw_state using draw_segments_centre [OF Cons.prems(2)] by simp
  have "dn_outerRadius ?d = dn_outerRadius d" "percentageInnerCutout ?d = percentageInnerCutout d"
    by (simp_all add: draw_state)
  then show ?case using Cons.IH [OF doughnut_draw_keeps [OF Cons.prems(1)] c] by simp
qed simp

text \<open>
  C29. A doughnut made from non-negative values with a positive sum, after any frames of its animation
  and the last one: the segments start at twelve o'clock, each begins where the one before ends, in
  proportion to the values, the last one ends after one full turn, and at every position of the
  ring that is not on the border of two segments the mouse hits exactly one of them.
\<close>

theorem doughnut_tiles:
  assumes "doughnut_data d vs ps w h sw pc" "D = snd (draw 1 (frames eases (initialize ps d)))"
    and "u = (min w h - sw / 2) / 2" "0 < r" "u / 100 * pc \<le> r" "r \<le> u"
    and "3 * pi / 2 \<le> t" "t < 7 * pi / 2" "t \<notin> snd ` set (arcs (sum_list vs) (3 * pi / 2) vs)"
  shows "map (arc_of \<circ> fst) (segments D) = map jarc (arcs (sum_list vs) (3 * pi / 2) vs)
    \<and> snd (last (arcs (sum_list vs) (3 * pi / 2) vs)) = 7 * pi / 2
    \<and> length (getSegmentsAtEvent D (Fin (w / 2 + r * cos t)) (Fin (h / 2 + r * sin t))) = 1"
proof -
  note i = initialize_drawn_ok [OF assms(1)]
  let ?f = "frames eases (initialize ps d)"
  have f: "drawn_ok vs (sum_list vs) ?f" "list_all (\<lambda>(s, _). eget s ''x'' = JNum (Fin (w / 2)) \<and> eget s ''y'' = JNum (Fin (h / 2))) (segments ?f)"
    "dn_outerRadius ?f = Fin u" "inner_radius ?f = Fin (u / 100 * pc)"
    using doughnut_frames_keep [OF i(1,4), of eases] i(2,3) assms(3) by (auto simp: inner_radius_def)
  show ?thesis
    unfolding assms(2) by (rule drawn_tiles [OF f(1,3,4,2) assms(4-9)])
qed

subsection \<open>Adding and removing\<close>

lemma eget_with_proto: "has_own (el_own s) k \<Longrightarrow> eget (s\<lparr>el_proto := p\<rparr>) k = eget s k"
  by (simp add: eget_def)

text \<open>Index 0 is taken for a missing index: a segment added in front goes to the end.\<close>

lemma add_in_front_appends: "map fst (segments (addData p (Some 0) True d)) = map fst (segments d) @ [new_segment d p]"
  by (simp add: addData_def insert_segment_def)

text \<open>
  When the first segment is removed, the next drawing starts the ring where the removed segment
  ended and not at twelve o'clock: the start angle of the new first segment is set back only after it
  was drawn. A chart without animation, which is drawn once, stays turned.
\<close>

theorem removed_first_turns:
  assumes "segments d = x # (s, act) # ss" "eget s ''startAngle'' = JNum (Fin a)" "has_own (el_own s) ''startAngle''"
  shows "(\<exists>cx cy r e cs. fst (draw 1 (removeData (Some 0) d)) = ClearRect 0 0 (dn_width d) (dn_height d) # BeginPath # ArcC cx cy r (Fin a) e False # cs)
    \<and> eget (fst (hd (segments (snd (draw 1 (removeData (Some 0) d)))))) ''startAngle'' = JNum (Fin (3 * pi / 2))"
proof
  let ?d = "removeData (Some 0) d"
  obtain s' act' ss' where s': "segments ?d = (s', act') # ss'" "eget s' ''startAngle'' = JNum (Fin a)"
    using assms by (auto simp: removeData_def reflow_def update_doughnut_def calculateTotal_def Let_def eget_with_proto)
  have w: "dn_width ?d = dn_width d" "dn_height ?d = dn_height d"
    by (simp_all add: removeData_def reflow_def update_doughnut_def calculateTotal_def Let_def)
  have t: "enum (turn ?d 1 None s') ''startAngle'' = Fin a" using s'(2) by (simp add: turn_angles)
  show "\<exists>cx cy r e cs. fst (draw 1 ?d) = ClearRect 0 0 (dn_width d) (dn_height d) # BeginPath # ArcC cx cy r (Fin a) e False # cs"
    using t by (simp add: draw_def s'(1) w clear_chart_def arc_draw_def Let_def split: prod.split)
  show "eget (fst (hd (segments (snd (draw 1 ?d))))) ''startAngle'' = JNum (Fin (3 * pi / 2))"
    by (simp add: draw_def s'(1) Let_def mult.commute split: prod.split)
qed

subsection \<open>Examples\<close>

definition example_doughnut :: doughnut where
  "example_doughnut = \<lparr>dn_width = Fin 200, dn_height = Fin 200, segmentStrokeWidth = 0, segmentStrokeColor = JStr ''#fff'',
     segmentShowStroke = False, percentageInnerCutout = Fin 50, animateScale = False, animateRotate = False, segments = [], dn_outerRadius = 0, total = 0\<rparr>"

definition example_points :: "datapoint list" where
  "example_points = [\<lparr>dp_value = 1, dp_color = JStr ''red'', dp_highlight = JUndef, dp_label = JUndef\<rparr>,
     \<lparr>dp_value = 3, dp_color = JStr ''blue'', dp_highlight = JUndef, dp_label = JUndef\<rparr>]"

lemma example_data:
  "doughnut_data (example_doughnut) [1, 3] example_points 200 200 0 50"
  by (simp add: doughnut_data_def example_doughnut_def example_points_def)

theorem doughnut_tiles_witness:
  "length (getSegmentsAtEvent (snd (draw 1 (frames [Fin (1 / 2)] (initialize example_points example_doughnut))))
     (Fin (100 + 75 * cos (3 * pi))) (Fin (100 + 75 * sin (3 * pi)))) = 1"
proof -
  have "3 * pi / 2 \<le> 3 * pi" "3 * pi < 7 * pi / 2" using pi_gt_zero by linarith+
  moreover have "3 * pi \<notin> snd ` set (arcs (sum_list [1, 3]) (3 * pi / 2) [1, 3])" using pi_gt_zero by (simp add: field_simps)
  ultimately show ?thesis
    using doughnut_tiles [OF example_data refl refl, of 75 "3 * pi" "[Fin (1 / 2)]"] by simp
qed

definition turned_doughnut :: doughnut where
  "turned_doughnut = example_doughnut\<lparr>segments :=
     [(new_element [] [(''startAngle'', JNum 0)], False), (new_element [] [(''startAngle'', JNum 2)], False)]\<rparr>"

lemma turned_example:
  "segments turned_doughnut = (new_element [] [(''startAngle'', JNum 0)], False) # (new_element [] [(''startAngle'', JNum 2)], False) # []"
  "eget (new_element [] [(''startAngle'', JNum 2)]) ''startAngle'' = JNum (Fin 2)"
  "dn_width turned_doughnut = Fin 200" "dn_height turned_doughnut = Fin 200"
  by (simp_all add: turned_doughnut_def example_doughnut_def)

lemma turned_example_own: "has_own (el_own (new_element [] [(''startAngle'', JNum 2)])) ''startAngle''"
  by simp

theorem removed_first_turns_witness:
  "\<exists>cx cy r e cs. fst (draw 1 (removeData (Some 0) turned_doughnut)) = ClearRect 0 0 (Fin 200) (Fin 200) # BeginPath # ArcC cx cy r (Fin 2) e False # cs"
  using removed_first_turns [of turned_doughnut "(new_element [] [(''startAngle'', JNum 0)], False)" "new_element [] [(''startAngle'', JNum 2)]" False "[]" 2]
  by (simp only: turned_example turned_example_own simp_thms)

end
