(* ===== verification/Chart_Polar.thy ===== *)
theory Chart_Polar
  imports Chart_Doughnut Radial_Scale
begin

section \<open>Polar area charts\<close>

text \<open>
  The chart type \<open>PolarArea\<close>: sectors of equal angle whose radius shows the value, on a radial scale of
  circles. Data points and the insertion of a segment are those of the doughnut. \<open>polar_sectors\<close> says which
  segment a mouse position gives; \<open>removed_first_widens\<close> is what happens after the first segment was removed.
\<close>

record polar_chart =
  pa_width :: jsnum
  pa_height :: jsnum
  pa_options :: radial_options
  pa_showStroke :: bool
  pa_strokeWidth :: jsnum
  pa_strokeColor :: jsval
  pa_animateScale :: bool
  pa_animateRotate :: bool
  pa_segments :: "(element \<times> bool) list"
  pa_scale :: rscale
  pa_total :: jsnum

subsection \<open>Operations\<close>

definition sector_class :: "polar_chart \<Rightarrow> props" where
  "sector_class c = [(''showStroke'', JBool (pa_showStroke c)), (''strokeWidth'', JNum (pa_strokeWidth c)), (''strokeColor'', pa_strokeColor c),
     (''innerRadius'', JNum 0), (''x'', JNum (pa_width c / 2)), (''y'', JNum (pa_height c / 2))]"

definition polar_scale :: "polar_chart \<Rightarrow> nat \<Rightarrow> rscale" where
  "polar_scale c count =
     (let opt = pa_options c
      in radial_initialize
         \<lparr>r_display = showScale opt, r_fontStyle = scaleFontStyle opt, r_fontSize = scaleFontSize opt, r_fontFamily = scaleFontFamily opt,
          r_fontColor = scaleFontColor opt, r_showLabels = scaleShowLabels opt, r_showLabelBackdrop = scaleShowLabelBackdrop opt,
          r_backdropColor = scaleBackdropColor opt, r_backdropPaddingY = scaleBackdropPaddingY opt, r_backdropPaddingX = scaleBackdropPaddingX opt,
          r_lineWidth = (if scaleShowLine opt then to_number (scaleLineWidth opt) else 0), r_lineColor = scaleLineColor opt, r_lineArc = True,
          r_angleLineColor = JUndef, r_angleLineWidth = NaN, r_pointLabelFontColor = JUndef, r_pointLabelFontSize = NaN,
          r_pointLabelFontFamily = JUndef, r_pointLabelFontStyle = JUndef,
          r_width = pa_width c, r_height = pa_height c, r_xCenter = pa_width c / 2, r_yCenter = pa_height c / 2,
          r_template = scaleLabel opt, r_labels = [], r_valuesCount = int count,
          r_size = NaN, r_drawingArea = NaN, r_steps = NaN, r_stepValue = NaN, r_min = NaN, r_max = NaN, r_yLabels = []\<rparr>)"

text \<open>\<open>updateScaleRange\<close> and then \<open>scale.update\<close>.\<close>

definition update_scale :: "env \<Rightarrow> polar_chart \<Rightarrow> jsval list \<Rightarrow> rscale \<Rightarrow> (jserr + rscale) option" where
  "update_scale E c values r =
     (case radial_range (pa_options c) (pa_width c) (pa_height c) values r of
        None \<Rightarrow> None
      | Some r \<Rightarrow> radial_update E (r\<lparr>r_size := js_min [JNum (pa_width c), JNum (pa_height c)],
                    r_xCenter := pa_width c / 2, r_yCenter := pa_height c / 2\<rparr>))"

definition new_sector :: "polar_chart \<Rightarrow> datapoint \<Rightarrow> element" where
  "new_sector c p = new_element (sector_class c)
     [(''fillColor'', dp_color p), (''highlightColor'', js_or (dp_highlight p) (dp_color p)), (''label'', dp_label p), (''value'', JNum (dp_value p)),
      (''outerRadius'', JNum (if pa_animateScale c then 0 else calculateCenterOffset (pa_scale c) (dp_value p))),
      (''circumference'', JNum (if pa_animateRotate c then 0 else getCircumference (pa_scale c))),
      (''startAngle'', JNum (Math_PI * Fin (3 / 2)))]"

definition sector_values :: "polar_chart \<Rightarrow> jsval list" where
  "sector_values c = map (\<lambda>(s, _). eget s ''value'') (pa_segments c)"

definition reflow :: "env \<Rightarrow> polar_chart \<Rightarrow> (jserr + polar_chart) option" where
  "reflow E c =
     fitting (update_scale E c (sector_values c) (pa_scale c))
       (\<lambda>r. c\<lparr>pa_scale := r, pa_segments := map (\<lambda>(s, active).
          (Chart_Element.update [(''outerRadius'', JNum (calculateCenterOffset r (enum s ''value'')))] (s\<lparr>el_proto := sector_class c\<rparr>), active)) (pa_segments c)\<rparr>)"

definition polar_total :: "polar_chart \<Rightarrow> polar_chart" where
  "polar_total c = c\<lparr>pa_total := foldl (+) 0 (map to_number (sector_values c)),
     pa_scale := (pa_scale c)\<lparr>r_valuesCount := int (length (pa_segments c))\<rparr>\<rparr>"

definition update_polar :: "polar_chart \<Rightarrow> polar_chart" where
  "update_polar c = (polar_total c)\<lparr>pa_segments := map (\<lambda>(s, active). (save s, active)) (pa_segments c)\<rparr>"

definition addData :: "env \<Rightarrow> datapoint \<Rightarrow> nat option \<Rightarrow> bool \<Rightarrow> polar_chart \<Rightarrow> (jserr + polar_chart) option" where
  "addData E p atIndex silent c =
     (let c1 = c\<lparr>pa_segments := insert_segment atIndex (new_sector c p) (pa_segments c)\<rparr>
      in if silent then Some (Inr c1) else fitting (reflow E c1) update_polar)"

definition removeData :: "env \<Rightarrow> nat option \<Rightarrow> polar_chart \<Rightarrow> (jserr + polar_chart) option" where
  "removeData E atIndex c =
     (let i = (case atIndex of Some n \<Rightarrow> n | None \<Rightarrow> length (pa_segments c) - 1)
      in fitting (reflow E (c\<lparr>pa_segments := take i (pa_segments c) @ drop (Suc i) (pa_segments c)\<rparr>)) update_polar)"

definition add_silently :: "nat \<times> datapoint \<Rightarrow> polar_chart \<Rightarrow> polar_chart" where
  "add_silently ip c = c\<lparr>pa_segments := insert_segment (Some (fst ip)) (new_sector c (snd ip)) (pa_segments c)\<rparr>"

lemma add_silently_addData: "addData E p (Some i) True c = Some (Inr (add_silently (i, p) c))"
  by (simp add: addData_def add_silently_def Let_def)

definition initialize :: "env \<Rightarrow> datapoint list \<Rightarrow> polar_chart \<Rightarrow> (jserr + polar_chart) option" where
  "initialize E data c =
     fitting (update_scale E c (map (\<lambda>p. JNum (dp_value p)) data) (polar_scale c (length data)))
       (\<lambda>r. fold add_silently (enumerate 0 data) (c\<lparr>pa_scale := r, pa_segments := []\<rparr>))"

subsection \<open>Drawing\<close>

text \<open>A segment is given its end angle from the old start angle, before the first one is set back to the top.\<close>

definition sector :: "rscale \<Rightarrow> jsnum \<Rightarrow> jsval option \<Rightarrow> element \<Rightarrow> element" where
  "sector r ease start s =
     (let s0 = (case start of None \<Rightarrow> s | Some a \<Rightarrow> eset ''startAngle'' a s);
          s1 = transition [(''circumference'', JNum (getCircumference r)),
                 (''outerRadius'', JNum (calculateCenterOffset r (enum s0 ''value'')))] ease s0;
          s2 = eset ''endAngle'' (JNum (enum s1 ''startAngle'' + enum s1 ''circumference'')) s1
      in if start = None then eset ''startAngle'' (JNum (Math_PI * Fin (3 / 2))) s2 else s2)"

fun draw_sectors :: "rscale \<Rightarrow> jsnum \<Rightarrow> jsval option \<Rightarrow> (element \<times> bool) list \<Rightarrow> (element \<times> bool) list" where
  "draw_sectors r ease start [] = []"
| "draw_sectors r ease start ((s, active) # ss) =
     (let s1 = sector r ease start s in (s1, active) # draw_sectors r ease (Some (eget s1 ''endAngle'')) ss)"

definition draw :: "env \<Rightarrow> jsnum \<Rightarrow> polar_chart \<Rightarrow> cmd list \<times> polar_chart" where
  "draw E ease c =
     (let easingDecimal = (if num_truthy ease then ease else 1);
          ss = draw_sectors (pa_scale c) easingDecimal None (pa_segments c)
      in (clear_chart (pa_width c) (pa_height c) @ concat (map (arc_draw \<circ> fst) ss) @ radial_draw E (pa_scale c), c\<lparr>pa_segments := ss\<rparr>))"

definition getSegmentsAtEvent :: "polar_chart \<Rightarrow> jsnum \<Rightarrow> jsnum \<Rightarrow> element list" where
  "getSegmentsAtEvent c x y = filter (\<lambda>s. arc_inRange s x y) (map fst (pa_segments c))"

subsection \<open>The angles of the segments\<close>

lemma sector_fields:
  "eget (sector r ease start s) ''startAngle'' = (case start of None \<Rightarrow> JNum (Fin (3 * pi / 2)) | Some a \<Rightarrow> a)"
  "eget (sector r ease start s) ''value'' = eget s ''value''" "eget (sector r ease start s) ''innerRadius'' = eget s ''innerRadius''"
  "eget (sector r ease start s) ''x'' = eget s ''x''" "eget (sector r ease start s) ''y'' = eget s ''y''"
  "el_saved (sector r ease start s) = el_saved s"
  "eget (sector r ease start s) ''outerRadius'' = JNum (((calculateCenterOffset r (enum s ''value'') - nget (el_saved s) ''outerRadius'') * ease) + nget (el_saved s) ''outerRadius'')"
  "eget (sector r ease start s) ''endAngle'' = JNum (to_number (case start of None \<Rightarrow> eget s ''startAngle'' | Some a \<Rightarrow> a)
     + (((getCircumference r - nget (el_saved s) ''circumference'') * ease) + nget (el_saved s) ''circumference''))"
  by (simp_all add: sector_def Let_def three_halves split: option.split)

text \<open>A segment in the middle of the canvas with a value and finite snapshots.\<close>

definition sector_ok :: "real \<Rightarrow> real \<Rightarrow> real \<Rightarrow> element \<Rightarrow> bool" where
  "sector_ok x y v s = (eget s ''value'' = JNum (Fin v) \<and> enum s ''x'' = Fin x \<and> enum s ''y'' = Fin y \<and> enum s ''innerRadius'' = Fin 0
     \<and> is_fin (nget (el_saved s) ''circumference'') \<and> is_fin (nget (el_saved s) ''outerRadius''))"

lemma sector_keeps: "sector_ok x y v (sector r ease start s) = sector_ok x y v s"
  by (simp add: sector_ok_def sector_fields)

definition sectors_ok :: "real \<Rightarrow> real \<Rightarrow> real list \<Rightarrow> (element \<times> bool) list \<Rightarrow> bool" where
  "sectors_ok x y vs ss = list_all2 (\<lambda>v (s, _). sector_ok x y v s) vs ss"

lemma draw_sectors_keep: "sectors_ok x y vs ss \<Longrightarrow> sectors_ok x y vs (draw_sectors r ease start ss)"
  unfolding sectors_ok_def
proof (induction r ease start ss arbitrary: vs rule: draw_sectors.induct)
  case (2 r ease start s active ss)
  then obtain v vs' where "vs = v # vs'" "sector_ok x y v s" "list_all2 (\<lambda>v (s, _). sector_ok x y v s) vs' ss" by (auto simp: list_all2_Cons2)
  then show ?case using "2.IH" [OF refl] by (simp add: Let_def sector_keeps)
qed simp

lemma draw_sectors_length [simp]: "length (draw_sectors r ease start ss) = length ss"
  by (induction r ease start ss rule: draw_sectors.induct) (simp_all add: Let_def)

lemma drawn_sectors:
  assumes "sectors_ok x y vs ss" "getCircumference r = Fin u" "\<And>v. calculateCenterOffset r (Fin v) = Fin (g v)"
    and "i < length vs" "case start of None \<Rightarrow> a = 3 * pi / 2 \<and> eget (fst (hd ss)) ''startAngle'' = JNum (Fin a) | Some b \<Rightarrow> b = JNum (Fin a)"
  shows "eget (fst (draw_sectors r 1 start ss ! i)) ''startAngle'' = JNum (Fin (a + real i * u))
    \<and> eget (fst (draw_sectors r 1 start ss ! i)) ''endAngle'' = JNum (Fin (a + real i * u + u))
    \<and> eget (fst (draw_sectors r 1 start ss ! i)) ''outerRadius'' = JNum (Fin (g (vs ! i)))"
  using assms(1,4,5) unfolding sectors_ok_def
proof (induction vs ss arbitrary: a start i rule: list_all2_induct)
  case (Cons v vs q ss)
  obtain s active where q: "q = (s, active)" by (cases q)
  have ok: "sector_ok x y v s" using Cons(1) q by simp
  let ?s = "sector r 1 start s"
  have fin: "is_fin (nget (el_saved s) ''circumference'')" "is_fin (nget (el_saved s) ''outerRadius'')" "eget s ''value'' = JNum (Fin v)"
    using ok by (simp_all add: sector_ok_def)
  have old: "to_number (case start of None \<Rightarrow> eget s ''startAngle'' | Some b \<Rightarrow> b) = Fin a" using Cons(5) q by (cases start) simp_all
  have s: "eget ?s ''startAngle'' = JNum (Fin a)" "eget ?s ''endAngle'' = JNum (Fin (a + u))" "eget ?s ''outerRadius'' = JNum (Fin (g v))"
    using Cons(5) transition_end [OF fin(1), of u] transition_end [OF fin(2), of "g v"]
    unfolding sector_fields old assms(2) fin(3) by (simp_all add: assms(3) split: option.splits)
  show ?case
  proof (cases i)
    case 0
    then show ?thesis using s by (simp add: q Let_def)
  next
    case (Suc k)
    then show ?thesis using Cons(3) [where i = k and start = "Some (JNum (Fin (a + u)))" and a = "a + u"] Cons(4) s(2) by (simp add: q Let_def algebra_simps)
  qed
qed simp

lemma filter_one:
  assumes "k < length xs" "\<And>i. i < length xs \<Longrightarrow> P (xs ! i) \<longleftrightarrow> i = k \<and> Q"
  shows "filter P xs = (if Q then [xs ! k] else [])"
proof (cases Q)
  case True
  have xs: "xs = take k xs @ xs ! k # drop (Suc k) xs" using assms(1) by (rule id_take_nth_drop)
  have "filter P (take k xs) = []" "filter P (drop (Suc k) xs) = []"
    using assms by (auto simp: filter_empty_conv in_set_conv_nth)
  then show ?thesis using True assms by (subst xs) (simp del: append_take_drop_id)
next
  case False
  then show ?thesis using assms(2) by (auto simp: filter_empty_conv in_set_conv_nth)
qed

text \<open>The segment whose sector contains the angle \<open>t\<close>.\<close>

lemma sector_of_angle:
  assumes "0 < n" "u = 2 * pi / real n" "3 * pi / 2 + real k * u < t" "t < 3 * pi / 2 + real k * u + u"
  shows "3 * pi / 2 + real i * u \<le> t \<and> t \<le> 3 * pi / 2 + real i * u + u \<longleftrightarrow> i = k"
proof
  have u: "0 < u" using assms(1,2) by simp
  assume i: "3 * pi / 2 + real i * u \<le> t \<and> t \<le> 3 * pi / 2 + real i * u + u"
  then have "real i * u < (real k + 1) * u" "real k * u < (real i + 1) * u" using assms(3,4) by (simp_all add: distrib_right)
  then show "i = k" using u by (simp add: mult_less_cancel_right)
qed (use assms in simp)

lemma sectors_hit:
  assumes "sectors_ok x y vs (pa_segments c)" "getCircumference (pa_scale c) = Fin u" "u = 2 * pi / real (length vs)"
    and "\<And>v. calculateCenterOffset (pa_scale c) (Fin v) = Fin (g v)" "eget (fst (hd (pa_segments c))) ''startAngle'' = JNum (Fin (3 * pi / 2))"
    and "k < length vs" "3 * pi / 2 + real k * u < t" "t < 3 * pi / 2 + real k * u + u" "0 < d" "D = snd (draw E 1 c)"
  shows "getSegmentsAtEvent D (Fin (x + d * cos t)) (Fin (y + d * sin t)) = (if d \<le> g (vs ! k) then [fst (pa_segments D ! k)] else [])"
proof -
  have D: "pa_segments D = draw_sectors (pa_scale c) 1 None (pa_segments c)" by (simp add: assms(10) draw_def Let_def)
  have len: "length vs = length (pa_segments c)" using assms(1) by (auto simp: sectors_ok_def dest: list_all2_lengthD)
  have n: "0 < length vs" using assms(6) by (cases vs) auto
  have top: "real (length vs) * u = 2 * pi" using n by (simp add: assms(3))
  have "(real k + 1) * u \<le> real (length vs) * u" using assms(3,6) by (intro mult_right_mono) simp_all
  then have "real k * u + u \<le> 2 * pi" using top by (simp add: distrib_right)
  moreover have "0 \<le> real k * u" by (simp add: assms(3))
  ultimately have t: "3 * pi / 2 \<le> t" "t < 7 * pi / 2" using assms(7,8) by linarith+
  have hit: "arc_inRange (map fst (pa_segments D) ! i) (Fin (x + d * cos t)) (Fin (y + d * sin t)) \<longleftrightarrow> i = k \<and> d \<le> g (vs ! k)" if i: "i < length vs" for i
  proof -
    let ?s = "fst (pa_segments D ! i)"
    have ok: "sector_ok x y (vs ! i) ?s"
      using draw_sectors_keep [OF assms(1), of "pa_scale c" 1 None] i by (simp add: D sectors_ok_def list_all2_conv_all_nth case_prod_beta)
    have a: "eget ?s ''startAngle'' = JNum (Fin (3 * pi / 2 + real i * u))" "eget ?s ''endAngle'' = JNum (Fin (3 * pi / 2 + real i * u + u))"
      "eget ?s ''outerRadius'' = JNum (Fin (g (vs ! i)))"
      using drawn_sectors [OF assms(1,2,4) i, where start = None and a = "3 * pi / 2"] assms(5) by (simp_all add: D)
    have "arc_inRange ?s (Fin (x + d * cos t)) (Fin (y + d * sin t)) \<longleftrightarrow>
        3 * pi / 2 + real i * u \<le> t \<and> t \<le> 3 * pi / 2 + real i * u + u \<and> 0 \<le> d \<and> d \<le> g (vs ! i)"
      using ok a t assms(9) by (intro arc_inRange_polar) (simp_all add: sector_ok_def)
    also have "\<dots> \<longleftrightarrow> i = k \<and> d \<le> g (vs ! k)" using sector_of_angle [OF n assms(3,7,8), of i] assms(9) by auto
    finally show ?thesis using i len by (simp add: D)
  qed
  then show ?thesis using filter_one [of k "map fst (pa_segments D)"] assms(6) len by (simp add: getSegmentsAtEvent_def D)
qed

subsection \<open>From the data to the segment under the mouse\<close>

definition frames :: "env \<Rightarrow> jsnum list \<Rightarrow> polar_chart \<Rightarrow> polar_chart" where
  "frames E eases c = fold (\<lambda>ease c. snd (draw E ease c)) eases c"

definition polar_ok :: "real \<Rightarrow> real \<Rightarrow> real list \<Rightarrow> polar_chart \<Rightarrow> bool" where
  "polar_ok x y vs c = (sectors_ok x y vs (pa_segments c) \<and> eget (fst (hd (pa_segments c))) ''startAngle'' = JNum (Fin (3 * pi / 2)))"

lemma polar_draw_keeps:
  assumes "polar_ok x y vs c" "vs \<noteq> []"
  shows "polar_ok x y vs (snd (draw E ease c)) \<and> pa_scale (snd (draw E ease c)) = pa_scale c"
proof -
  define z where "z = (if num_truthy ease then ease else 1)"
  have D: "snd (draw E ease c) = c\<lparr>pa_segments := draw_sectors (pa_scale c) z None (pa_segments c)\<rparr>" by (simp add: draw_def Let_def z_def)
  obtain s act ss where "pa_segments c = (s, act) # ss"
    using assms by (cases "pa_segments c") (auto simp: polar_ok_def sectors_ok_def)
  then have "eget (fst (hd (draw_sectors (pa_scale c) z None (pa_segments c)))) ''startAngle'' = JNum (Fin (3 * pi / 2))"
    by (simp add: Let_def sector_fields)
  then show ?thesis using assms(1) draw_sectors_keep [of x y vs "pa_segments c"] by (simp add: polar_ok_def D)
qed

lemma polar_frames_keep:
  assumes "polar_ok x y vs c" "vs \<noteq> []"
  shows "polar_ok x y vs (frames E eases c) \<and> pa_scale (frames E eases c) = pa_scale c"
  using assms(1) unfolding frames_def
proof (induction eases arbitrary: c)
  case (Cons ease eases)
  then show ?case using polar_draw_keeps [OF Cons.prems assms(2)] Cons.IH [of "snd (draw E ease c)"] by simp
qed simp

lemma new_sector_cong: "new_sector (c\<lparr>pa_segments := ss\<rparr>) p = new_sector c p"
  by (simp add: new_sector_def sector_class_def)

lemma add_all_sectors:
  "fold add_silently (enumerate (length (pa_segments c)) ps) c = c\<lparr>pa_segments := pa_segments c @ map (\<lambda>p. (new_sector c p, False)) ps\<rparr>"
proof (induction ps arbitrary: c)
  case (Cons p ps)
  let ?c = "c\<lparr>pa_segments := pa_segments c @ [(new_sector c p, False)]\<rparr>"
  have "add_silently (length (pa_segments c), p) c = ?c" by (simp add: add_silently_def insert_segment_def Let_def)
  moreover have "length (pa_segments ?c) = Suc (length (pa_segments c))" by simp
  ultimately show ?case using Cons [of ?c] by (simp add: new_sector_cong)
qed simp

definition polar_data :: "polar_chart \<Rightarrow> real list \<Rightarrow> datapoint list \<Rightarrow> real \<Rightarrow> real \<Rightarrow> bool" where
  "polar_data c vs ps w h = (map dp_value ps = map Fin vs \<and> vs \<noteq> [] \<and> pa_width c = Fin w \<and> pa_height c = Fin h
     \<and> is_fin (scaleFontSize (pa_options c)) \<and> is_fin (scaleBackdropPaddingY (pa_options c)))"

lemma update_scale_effect:
  assumes "update_scale E c values (polar_scale c n) = Some (Inr r)" "polar_data c vs ps w h"
  shows "r_valuesCount r = int n \<and> is_fin (r_drawingArea r)"
proof -
  obtain q where q: "radial_range (pa_options c) (pa_width c) (pa_height c) values (polar_scale c n) = Some q"
    "radial_update E (q\<lparr>r_size := js_min [JNum (pa_width c), JNum (pa_height c)], r_xCenter := pa_width c / 2, r_yCenter := pa_height c / 2\<rparr>) = Some (Inr r)"
    using assms(1) by (auto simp: update_scale_def split: option.splits)
  have "\<exists>z. js_min [JNum (Fin w), JNum (Fin h)] = Fin z" by (simp add: js_min_def Math_min_def min2_def)
  moreover have "r_lineArc q \<and> r_valuesCount q = int n \<and> r_display q = showScale (pa_options c) \<and> r_fontSize q = scaleFontSize (pa_options c) \<and> r_backdropPaddingY q = scaleBackdropPaddingY (pa_options c)"
    using q(1) by (auto simp: radial_range_def polar_scale_def radial_initialize_def Let_def split: if_splits)
  ultimately show ?thesis
    using q(2) assms(2) by (auto simp: radial_update_def radial_buildYLabels_def radial_area_def polar_data_def elim!: is_finE split: sum.splits option.splits)
qed

text \<open>
  C33. A polar area chart made from numbers, on a scale with a proper range, after any frames of its
  animation and the last one: at an angle inside the \<open>k\<close>-th of the equal sectors, counted from the top, the mouse
  hits the \<open>k\<close>-th segment if its distance from the centre is at most the radius of the value on the scale,
  and nothing otherwise.
\<close>

theorem polar_sectors:
  assumes "initialize E ps c = Some (Inr b)" "polar_data c vs ps w h" "r_min (pa_scale b) = Fin lo" "r_max (pa_scale b) = Fin hi" "lo < hi"
    and "u = 2 * pi / real (length vs)" "D = snd (draw E 1 (frames E eases b))"
  shows "\<exists>A. r_drawingArea (pa_scale b) = Fin A \<and>
    (\<forall>k t d. k < length vs \<and> 3 * pi / 2 + real k * u < t \<and> t < 3 * pi / 2 + real k * u + u \<and> 0 < d \<longrightarrow>
       getSegmentsAtEvent D (Fin (w / 2 + d * cos t)) (Fin (h / 2 + d * sin t))
         = (if d \<le> (vs ! k - lo) * (A / (hi - lo)) then [fst (pa_segments D ! k)] else []))"
proof -
  have len: "length ps = length vs" using assms(2) unfolding polar_data_def by (metis length_map)
  have vs: "vs \<noteq> []" "map dp_value ps = map Fin vs" "pa_width c = Fin w" "pa_height c = Fin h" using assms(2) by (simp_all add: polar_data_def)
  obtain r where r: "update_scale E c (map (\<lambda>p. JNum (dp_value p)) ps) (polar_scale c (length ps)) = Some (Inr r)"
    "b = fold add_silently (enumerate 0 ps) (c\<lparr>pa_scale := r, pa_segments := []\<rparr>)"
    using assms(1) by (auto simp: initialize_def)
  let ?c = "c\<lparr>pa_scale := r, pa_segments := []\<rparr>"
  have b: "b = ?c\<lparr>pa_segments := map (\<lambda>p. (new_sector ?c p, False)) ps\<rparr>" using add_all_sectors [of ?c ps] r(2) by simp
  then have sc: "pa_scale b = r" by simp
  obtain A where A: "r_valuesCount r = int (length vs)" "r_drawingArea r = Fin A"
    using update_scale_effect [OF r(1) assms(2)] len by (auto elim: is_finE)
  have u: "getCircumference r = Fin u" using A(1) vs(1) by (simp add: getCircumference_def Math_PI_def assms(6))
  have g: "calculateCenterOffset r (Fin v) = Fin ((v - lo) * (A / (hi - lo)))" for v
    using assms(3-5) A(2) by (simp add: calculateCenterOffset_def sc Let_def)
  have seg: "sector_ok (w / 2) (h / 2) v (new_sector ?c p) \<and> eget (new_sector ?c p) ''startAngle'' = JNum (Fin (3 * pi / 2))" if "dp_value p = Fin v" for p v
    using that vs(3,4) u g by (simp add: sector_ok_def new_sector_def sector_class_def three_halves)
  have val: "dp_value (ps ! i) = Fin (vs ! i)" if "i < length vs" for i using arg_cong [OF vs(2), of "\<lambda>xs. xs ! i"] that len by simp
  have "eget (fst (hd (pa_segments b))) ''startAngle'' = JNum (Fin (3 * pi / 2))"
    using seg [OF val [of 0]] len vs(1) by (cases ps) (simp_all add: b)
  moreover have "sectors_ok (w / 2) (h / 2) vs (pa_segments b)"
    using seg val len by (auto simp: sectors_ok_def b intro!: list_all2_all_nthI)
  ultimately have "polar_ok (w / 2) (h / 2) vs b" by (simp add: polar_ok_def)
  note f = polar_frames_keep [OF this vs(1), of E eases]
  show ?thesis
  proof (intro exI conjI allI impI)
    show "r_drawingArea (pa_scale b) = Fin A" using A(2) sc by simp
    fix k :: nat and t d :: real
    assume k: "k < length vs \<and> 3 * pi / 2 + real k * u < t \<and> t < 3 * pi / 2 + real k * u + u \<and> 0 < d"
    have F: "sectors_ok (w / 2) (h / 2) vs (pa_segments (frames E eases b))" "getCircumference (pa_scale (frames E eases b)) = Fin u"
      "\<And>v. calculateCenterOffset (pa_scale (frames E eases b)) (Fin v) = Fin ((v - lo) * (A / (hi - lo)))"
      "eget (fst (hd (pa_segments (frames E eases b)))) ''startAngle'' = JNum (Fin (3 * pi / 2))"
      using f u g sc by (simp_all only: polar_ok_def simp_thms)
    show "getSegmentsAtEvent D (Fin (w / 2 + d * cos t)) (Fin (h / 2 + d * sin t)) = (if d \<le> (vs ! k - lo) * (A / (hi - lo)) then [fst (pa_segments D ! k)] else [])"
      using sectors_hit [OF F(1,2) assms(6) F(3,4) _ _ _ _ assms(7), of k t d] k by blast
  qed
qed

subsection \<open>Removing the first segment\<close>

text \<open>
  After the first segment was removed, the new first segment has the start angle \<open>a\<close> of the old one. The
  next drawing takes its end angle from there and then sets its start to the top: it is drawn too wide, and the
  others start late. The comment in \<open>draw\<close> says that the segment starts at the top.
\<close>

lemma removed_first_widens:
  assumes "pa_segments c = (s, active) # ss" "sector_ok x y v s" "getCircumference (pa_scale c) = Fin u" "eget s ''startAngle'' = JNum (Fin a)"
  shows "arc_of (fst (hd (pa_segments (snd (draw E 1 c))))) = jarc (3 * pi / 2, a + u)"
proof -
  have fin: "is_fin (nget (el_saved s) ''circumference'')" using assms(2) by (simp add: sector_ok_def)
  have "pa_segments (snd (draw E 1 c)) = draw_sectors (pa_scale c) 1 None (pa_segments c)" by (simp add: draw_def Let_def)
  then have "fst (hd (pa_segments (snd (draw E 1 c)))) = sector (pa_scale c) 1 None s" by (simp add: assms(1) Let_def)
  then show ?thesis using transition_end [OF fin, of u] assms(3,4) by (simp add: arc_of_def jarc_def sector_fields)
qed

subsection \<open>Examples\<close>

definition example_polar :: polar_chart where
  "example_polar = \<lparr>pa_width = Fin 400, pa_height = Fin 300, pa_options = example_radial_options, pa_showStroke = True, pa_strokeWidth = Fin 2,
     pa_strokeColor = JStr ''#fff'', pa_animateScale = False, pa_animateRotate = True, pa_segments = [], pa_scale = example_radial, pa_total = 0\<rparr>"

lemma polar_example_initialize:
  "\<exists>b. initialize example_env example_points example_polar = Some (Inr b) \<and> r_min (pa_scale b) = Fin 0 \<and> r_max (pa_scale b) = Fin 10
     \<and> r_drawingArea (pa_scale b) = Fin 142"
proof -
  let ?r = "polar_scale example_polar (length example_points)"
  let ?q = "?r\<lparr>r_steps := Fin 2, r_stepValue := Fin 5, r_min := Fin 0, r_max := Fin 10, r_size := js_min [JNum (Fin 400), JNum (Fin 300)],
    r_xCenter := Fin 400 / 2, r_yCenter := Fin 300 / 2\<rparr>"
  let ?z = "?q\<lparr>r_drawingArea := radial_area ?q\<rparr>"
  obtain ls where ls: "radial_buildYLabels example_env ?z = Some (Inr (?z\<lparr>r_yLabels := ls\<rparr>))" using example_labels [of ?z] by auto
  have o: "pa_options example_polar = example_radial_options" "pa_width example_polar = Fin 400" "pa_height example_polar = Fin 300" by (simp_all add: example_polar_def)
  have A: "radial_area ?q = Fin 142"
    by (simp add: radial_area_def polar_scale_def radial_initialize_def Let_def o example_radial_options_def js_min_def Math_min_def min2_def)
  have "r_lineArc ?q" by (simp add: polar_scale_def radial_initialize_def Let_def)
  then have "radial_update example_env ?q = Some (Inr (?z\<lparr>r_yLabels := ls\<rparr>))" unfolding radial_update_def using ls by simp
  then have "update_scale example_env example_polar vs ?r = Some (Inr (?z\<lparr>r_yLabels := ls\<rparr>))" for vs
    unfolding update_scale_def o example_range by simp
  then have "initialize example_env example_points example_polar
      = Some (Inr (fold add_silently (enumerate 0 example_points) (example_polar\<lparr>pa_scale := ?z\<lparr>r_yLabels := ls\<rparr>, pa_segments := []\<rparr>)))"
    by (simp add: initialize_def fitting_def)
  moreover have "pa_scale (fold add_silently (enumerate 0 example_points) (example_polar\<lparr>pa_scale := ?z\<lparr>r_yLabels := ls\<rparr>, pa_segments := []\<rparr>)) = ?z\<lparr>r_yLabels := ls\<rparr>"
    using add_all_sectors [of "example_polar\<lparr>pa_scale := ?z\<lparr>r_yLabels := ls\<rparr>, pa_segments := []\<rparr>" example_points] by simp
  ultimately show ?thesis using A by simp
qed

theorem polar_sectors_witness:
  "\<exists>b. initialize example_env example_points example_polar = Some (Inr b)
     \<and> length (getSegmentsAtEvent (snd (draw example_env 1 (frames example_env [Fin (1 / 2)] b))) (Fin (200 + 10 * cos (2 * pi))) (Fin (150 + 10 * sin (2 * pi)))) = 1"
proof -
  obtain b where b: "initialize example_env example_points example_polar = Some (Inr b)" "r_min (pa_scale b) = Fin 0" "r_max (pa_scale b) = Fin 10"
    "r_drawingArea (pa_scale b) = Fin 142" using polar_example_initialize by blast
  have d: "polar_data example_polar [1, 3] example_points 400 300"
    by (simp add: polar_data_def example_polar_def example_points_def example_radial_options_def)
  let ?D = "snd (draw example_env 1 (frames example_env [Fin (1 / 2)] b))"
  have "(0 :: real) < 10" by simp
  then obtain A where A: "r_drawingArea (pa_scale b) = Fin A"
    "\<And>k t d. k < length [1, 3 :: real] \<and> 3 * pi / 2 + real k * (2 * pi / real (length [1, 3 :: real])) < t
       \<and> t < 3 * pi / 2 + real k * (2 * pi / real (length [1, 3 :: real])) + 2 * pi / real (length [1, 3 :: real]) \<and> 0 < d \<longrightarrow>
       getSegmentsAtEvent ?D (Fin (400 / 2 + d * cos t)) (Fin (300 / 2 + d * sin t)) = (if d \<le> ([1, 3] ! k - 0) * (A / (10 - 0)) then [fst (pa_segments ?D ! k)] else [])"
    using polar_sectors [OF b(1) d b(2,3) _ refl refl, of "[Fin (1 / 2)]"] by blast
  have "getSegmentsAtEvent ?D (Fin (400 / 2 + 10 * cos (2 * pi))) (Fin (300 / 2 + 10 * sin (2 * pi))) = [fst (pa_segments ?D ! 0)]"
    using A(2) [of 0 "2 * pi" 10] A(1) b(4) pi_gt_zero by simp
  then show ?thesis using b(1) by simp
qed

end
