(* ===== verification/Chart_Type.thy ===== *)
theory Chart_Type
  imports Chart_Animation Chart_Bar Chart_Line Chart_Radar Chart_Polar
begin

section \<open>Charts on a page\<close>

text \<open>
  \<open>Chart.Type\<close>, the base class of the chart types, with the table of live charts and the resize handler
  of the window. \<open>chart_type\<close> is what the base class relies on in a chart type: it has a size, drawing clears
  exactly that size first, and neither drawing nor \<open>reflow\<close> changes it. The locale is interpreted on the five
  chart types and on their union. \<open>page_step\<close> lets charts be made and destroyed, the layout change, the
  window be resized and the timer of the handler fire in any order. The \<open>initialize\<close> method of a new chart is an
  argument: any function of the chart, with the way it ends. Templates for legends and tooltips are not modelled.
\<close>

subsection \<open>What the base class relies on\<close>

locale chart_type =
  fixes size_of :: "'c \<Rightarrow> jsnum \<times> jsnum"
    and set_size :: "jsnum \<times> jsnum \<Rightarrow> 'c \<Rightarrow> 'c"
    and draw_chart :: "jsnum \<Rightarrow> 'c \<Rightarrow> cmd list \<times> 'c"
    and reflow_chart :: "'c \<Rightarrow> (jserr + 'c) option"
  assumes size_set: "size_of (set_size wh c) = wh"
    and draw_clears: "\<exists>cs. fst (draw_chart ease c) = ClearRect 0 0 (fst (size_of c)) (snd (size_of c)) # cs"
    and draw_size: "size_of (snd (draw_chart ease c)) = size_of c"
    and reflow_size: "reflow_chart c = Some (Inr c') \<Longrightarrow> size_of c' = size_of c"
begin

text \<open>A chart that is given a new size, reflowed and drawn.\<close>

lemma resized_redraws:
  assumes "reflow_chart (set_size (w, h) c) = Some (Inr c')"
  shows "size_of (snd (draw_chart ease c')) = (w, h)" "\<exists>cs. fst (draw_chart ease c') = ClearRect 0 0 w h # cs"
proof -
  have s: "size_of c' = (w, h)" using reflow_size [OF assms] size_set by simp
  then show "size_of (snd (draw_chart ease c')) = (w, h)" using draw_size by simp
  show "\<exists>cs. fst (draw_chart ease c') = ClearRect 0 0 w h # cs" using draw_clears [of ease c'] s by simp
qed

end

lemma draw_labels_append:
  assumes "\<And>x i cs. \<exists>ds. f x i cs = cs @ ds"
  shows "\<exists>ds. each_arr f xs cs = cs @ ds"
proof (induction xs rule: rev_induct)
  case (snoc x xs)
  then obtain ds where "each_arr f xs cs = cs @ ds" by blast
  then show ?case using assms [of x "length xs" "cs @ ds"] by auto
qed simp

lemma scale_draw_append: "\<exists>ds. scale_draw s cs = cs @ ds"
proof -
  have y: "\<exists>ds. draw_yLabel s x i cs = cs @ ds" for x i cs by (simp add: draw_yLabel_def Let_def)
  have x: "\<exists>ds. draw_xLabel s x i cs = cs @ ds" for x i cs by (simp add: draw_xLabel_def Let_def)
  let ?cs = "cs @ [SetP ''fillStyle'' (s_textColor s), SetP ''font'' (s_font s)]"
  obtain ds where ds: "each_arr (draw_yLabel s) (s_yLabels s) ?cs = ?cs @ ds" using draw_labels_append [of "draw_yLabel s", OF y] by blast
  obtain es where "each_arr (draw_xLabel s) (s_xLabels s) (?cs @ ds) = (?cs @ ds) @ es" using draw_labels_append [of "draw_xLabel s", OF x] by blast
  then show ?thesis using ds by (simp add: scale_draw_def Let_def)
qed

interpretation dn: chart_type "\<lambda>d. (dn_width d, dn_height d)" "\<lambda>(w, h) d. d\<lparr>dn_width := w, dn_height := h\<rparr>"
    Chart_Doughnut.draw "\<lambda>d. Some (Inr (Chart_Doughnut.reflow d))"
  by unfold_locales (auto simp: Chart_Doughnut.draw_def Chart_Doughnut.reflow_def clear_chart_def Let_def split: prod.splits)

interpretation br: chart_type "\<lambda>c. (sr_width c, sr_height c)" "\<lambda>(w, h) c. c\<lparr>sr_width := w, sr_height := h\<rparr>" Chart_Bar.draw "Chart_Bar.reflow E" for E
proof unfold_locales
  fix ease c
  show "\<exists>cs. fst (Chart_Bar.draw ease c) = ClearRect 0 0 (fst (sr_width c, sr_height c)) (snd (sr_width c, sr_height c)) # cs"
    using scale_draw_append [of "sr_scale c" "clear_chart (sr_width c) (sr_height c)"] by (auto simp: Chart_Bar.draw_def clear_chart_def Let_def)
qed (auto simp: Chart_Bar.draw_def Chart_Bar.reflow_def set_class_def Let_def)

interpretation ln: chart_type "\<lambda>c. (sr_width c, sr_height c)" "\<lambda>(w, h) c. c\<lparr>sr_width := w, sr_height := h\<rparr>" Chart_Line.draw "Chart_Line.reflow E" for E
proof unfold_locales
  fix ease c
  show "\<exists>cs. fst (Chart_Line.draw ease c) = ClearRect 0 0 (fst (sr_width c, sr_height c)) (snd (sr_width c, sr_height c)) # cs"
    using scale_draw_append [of "sr_scale c" "clear_chart (sr_width c) (sr_height c)"] by (auto simp: Chart_Line.draw_def clear_chart_def Let_def)
qed (auto simp: Chart_Line.draw_def Chart_Line.reflow_def Let_def)

interpretation rd: chart_type "\<lambda>c. (rd_width c, rd_height c)" "\<lambda>(w, h) c. c\<lparr>rd_width := w, rd_height := h\<rparr>" "Chart_Radar.draw E" "Chart_Radar.reflow E" for E
  by unfold_locales (auto simp: Chart_Radar.draw_def Chart_Radar.reflow_def clear_chart_def Let_def)

interpretation pl: chart_type "\<lambda>c. (pa_width c, pa_height c)" "\<lambda>(w, h) c. c\<lparr>pa_width := w, pa_height := h\<rparr>" "Chart_Polar.draw E" "Chart_Polar.reflow E" for E
  by unfold_locales (auto simp: Chart_Polar.draw_def Chart_Polar.reflow_def clear_chart_def Let_def)

subsection \<open>Any chart\<close>

datatype any_chart = Doughnut doughnut | Bar bar_chart | Line line_chart | Radar radar_chart | Polar polar_chart

fun chart_size :: "any_chart \<Rightarrow> jsnum \<times> jsnum" where
  "chart_size (Doughnut d) = (dn_width d, dn_height d)"
| "chart_size (Bar c) = (sr_width c, sr_height c)"
| "chart_size (Line c) = (sr_width c, sr_height c)"
| "chart_size (Radar c) = (rd_width c, rd_height c)"
| "chart_size (Polar c) = (pa_width c, pa_height c)"

fun set_chart_size :: "jsnum \<times> jsnum \<Rightarrow> any_chart \<Rightarrow> any_chart" where
  "set_chart_size (w, h) (Doughnut d) = Doughnut (d\<lparr>dn_width := w, dn_height := h\<rparr>)"
| "set_chart_size (w, h) (Bar c) = Bar (c\<lparr>sr_width := w, sr_height := h\<rparr>)"
| "set_chart_size (w, h) (Line c) = Line (c\<lparr>sr_width := w, sr_height := h\<rparr>)"
| "set_chart_size (w, h) (Radar c) = Radar (c\<lparr>rd_width := w, rd_height := h\<rparr>)"
| "set_chart_size (w, h) (Polar c) = Polar (c\<lparr>pa_width := w, pa_height := h\<rparr>)"

fun chart_draw :: "env \<Rightarrow> jsnum \<Rightarrow> any_chart \<Rightarrow> cmd list \<times> any_chart" where
  "chart_draw E ease (Doughnut d) = map_prod id Doughnut (Chart_Doughnut.draw ease d)"
| "chart_draw E ease (Bar c) = map_prod id Bar (Chart_Bar.draw ease c)"
| "chart_draw E ease (Line c) = map_prod id Line (Chart_Line.draw ease c)"
| "chart_draw E ease (Radar c) = map_prod id Radar (Chart_Radar.draw E ease c)"
| "chart_draw E ease (Polar c) = map_prod id Polar (Chart_Polar.draw E ease c)"

fun chart_reflow :: "env \<Rightarrow> any_chart \<Rightarrow> (jserr + any_chart) option" where
  "chart_reflow E (Doughnut d) = Some (Inr (Doughnut (Chart_Doughnut.reflow d)))"
| "chart_reflow E (Bar c) = fitting (Chart_Bar.reflow E c) Bar"
| "chart_reflow E (Line c) = fitting (Chart_Line.reflow E c) Line"
| "chart_reflow E (Radar c) = fitting (Chart_Radar.reflow E c) Radar"
| "chart_reflow E (Polar c) = fitting (Chart_Polar.reflow E c) Polar"

interpretation ac: chart_type chart_size set_chart_size "chart_draw E" "chart_reflow E" for E
proof unfold_locales
  fix wh c
  show "chart_size (set_chart_size wh c) = wh" by (cases wh; cases c) simp_all
next
  fix ease c
  show "\<exists>cs. fst (chart_draw E ease c) = ClearRect 0 0 (fst (chart_size c)) (snd (chart_size c)) # cs"
    using dn.draw_clears br.draw_clears ln.draw_clears rd.draw_clears pl.draw_clears by (cases c) simp_all
  show "chart_size (snd (chart_draw E ease c)) = chart_size c"
    using dn.draw_size br.draw_size ln.draw_size rd.draw_size pl.draw_size by (cases c) simp_all
next
  fix c c'
  show "chart_reflow E c = Some (Inr c') \<Longrightarrow> chart_size c' = chart_size c"
    using dn.reflow_size br.reflow_size ln.reflow_size rd.reflow_size pl.reflow_size by (cases c) fastforce+
qed

subsection \<open>One chart\<close>

record inst =
  i_responsive :: bool
  i_animation :: bool
  i_animationSteps :: jsnum
  i_animationEasing :: string
  i_maintainAspectRatio :: bool
  i_aspectRatio :: jsnum
  i_parent :: container
  i_canvas :: canvas
  i_node :: dom_node
  i_events :: "(string \<times> nat) list option"
  i_anim :: anim_world
  i_chart :: any_chart

definition new_size :: "inst \<Rightarrow> jsnum \<times> jsnum" where
  "new_size i =
     (let newWidth = getMaximumWidth (i_parent i)
      in (newWidth, if i_maintainAspectRatio i then newWidth / i_aspectRatio i else getMaximumHeight (i_parent i)))"

definition resize :: "env \<Rightarrow> inst \<Rightarrow> inst" where
  "resize E i =
     (let (newWidth, newHeight) = new_size i
      in i\<lparr>i_anim := stop (i_anim i),
           i_canvas := retinaScale E (resize_canvas newWidth newHeight (i_canvas i)),
           i_chart := set_chart_size (newWidth, newHeight) (i_chart i)\<rparr>)"

text \<open>\<open>draw()\<close> without an argument; \<open>undefined\<close> is not a number.\<close>

definition draw_now :: "env \<Rightarrow> inst \<Rightarrow> inst" where
  "draw_now E i = (let (cs, c) = chart_draw E NaN (i_chart i) in i\<lparr>i_canvas := emit_cmds cs (i_canvas i), i_chart := c\<rparr>)"

definition render :: "env \<Rightarrow> bool \<Rightarrow> inst \<Rightarrow> (jserr + inst) option" where
  "render E reflows i =
     (case (if reflows then fitting (chart_reflow E (i_chart i)) (\<lambda>c. i\<lparr>i_chart := c\<rparr>) else Some (Inr i)) of
        None \<Rightarrow> None
      | Some (Inl err) \<Rightarrow> Some (Inl err)
      | Some (Inr i) \<Rightarrow>
          if i_animation i \<and> \<not> reflows
          then Some (Inr (i\<lparr>i_anim := animationLoop (i_animationSteps i) (i_animationEasing i) (i_anim i)\<rparr>))
          else Some (Inr ((draw_now E i)\<lparr>i_anim := emit [OnComplete] (i_anim i)\<rparr>)))"

definition clear_inst :: "inst \<Rightarrow> inst" where
  "clear_inst i = i\<lparr>i_canvas := emit_cmds (clear_chart (fst (chart_size (i_chart i))) (snd (chart_size (i_chart i)))) (i_canvas i)\<rparr>"

subsection \<open>The page\<close>

record page =
  pg_uid :: nat
  pg_instances :: "(string \<times> inst) list"
  pg_timeout :: "nat option" \<comment> \<open>the variable \<open>timeout\<close> of the handler\<close>
  pg_timers :: "nat list" \<comment> \<open>timers that have not fired\<close>
  pg_next :: nat

datatype outcome = Done | Threw jserr | Hangs

text \<open>
  The constructor: the chart is in the table before it is initialised, and however \<open>initialize\<close> ends.
\<close>

definition new_chart :: "env \<Rightarrow> (inst \<Rightarrow> inst \<times> outcome) \<Rightarrow> inst \<Rightarrow> page \<Rightarrow> page \<times> outcome" where
  "new_chart E initializer i p =
     (let (key, n) = uid (pg_uid p);
          (i, res) = initializer (if i_responsive i then resize E i else i)
      in (p\<lparr>pg_uid := n, pg_instances := pg_instances p @ [(key, i)]\<rparr>, res))"

definition destroy :: "string \<Rightarrow> page \<Rightarrow> inst \<Rightarrow> inst \<times> page" where
  "destroy key p i =
     ((clear_inst i)\<lparr>i_node := unbindEvents (i_events i) (i_node i)\<rparr>, p\<lparr>pg_instances := filter (\<lambda>(k, _). k \<noteq> key) (pg_instances p)\<rparr>)"

text \<open>The handler of the window: clear the timer and start another one.\<close>

definition window_resize :: "page \<Rightarrow> page" where
  "window_resize p =
     p\<lparr>pg_timers := filter (\<lambda>h. Some h \<noteq> pg_timeout p) (pg_timers p) @ [pg_next p], pg_timeout := Some (pg_next p), pg_next := Suc (pg_next p)\<rparr>"

text \<open>The loop over the table; an exception ends it.\<close>

fun resize_each :: "env \<Rightarrow> (string \<times> inst) list \<Rightarrow> (string \<times> inst) list \<times> outcome" where
  "resize_each E [] = ([], Done)"
| "resize_each E ((key, i) # is) =
     (if i_responsive i
      then (case render E True (resize E i) of
              None \<Rightarrow> ((key, resize E i) # is, Hangs)
            | Some (Inl err) \<Rightarrow> ((key, resize E i) # is, Threw err)
            | Some (Inr i') \<Rightarrow> map_prod (Cons (key, i')) id (resize_each E is))
      else map_prod (Cons (key, i)) id (resize_each E is))"

definition timer_fires :: "env \<Rightarrow> nat \<Rightarrow> page \<Rightarrow> page \<times> outcome" where
  "timer_fires E h p =
     (let (is, res) = resize_each E (pg_instances p) in (p\<lparr>pg_timers := removeAll h (pg_timers p), pg_instances := is\<rparr>, res))"

inductive page_step :: "env \<Rightarrow> page \<Rightarrow> page \<Rightarrow> bool" for E where
  create: "page_step E p (fst (new_chart E initializer i p))"
| remove: "(key, i) \<in> set (pg_instances p) \<Longrightarrow> page_step E p (snd (destroy key p i))"
| layout: "page_step E p (p\<lparr>pg_instances := map (\<lambda>(k, i). (k, i\<lparr>i_parent := parent k\<rparr>)) (pg_instances p)\<rparr>)"
| window: "page_step E p (window_resize p)"
| timer: "h \<in> set (pg_timers p) \<Longrightarrow> page_step E p (fst (timer_fires E h p))"

inductive_cases page_stepE: "page_step E p q"

definition empty_page :: page where
  "empty_page = \<lparr>pg_uid = 0, pg_instances = [], pg_timeout = None, pg_timers = [], pg_next = 0\<rparr>"

definition reachable :: "env \<Rightarrow> page \<Rightarrow> bool" where
  "reachable E p = (page_step E)\<^sup>*\<^sup>* empty_page p"

subsection \<open>Live charts and the timer\<close>

definition page_ok :: "page \<Rightarrow> bool" where
  "page_ok p = (distinct (map fst (pg_instances p)) \<and> fst ` set (pg_instances p) \<subseteq> (fst \<circ> uid) ` {..<pg_uid p}
     \<and> (pg_timers p = [] \<or> (\<exists>h. pg_timeout p = Some h \<and> pg_timers p = [h])))"

lemma resize_each_keys: "map fst (fst (resize_each E is)) = map fst is"
  by (induction E "is" rule: resize_each.induct) (auto split: option.split sum.split)

lemma uid_bound: "snd (uid n) = Suc n" "fst (uid n) \<notin> (fst \<circ> uid) ` {..<n}"
  by (simp add: uid_def) (auto simp: uid_fresh)

lemma page_step_ok:
  assumes "page_step E p q" "page_ok p"
  shows "page_ok q"
  using assms
proof (induction rule: page_step.induct)
  case (create p initializer i)
  let ?q = "fst (new_chart E initializer i p)"
  have k: "\<exists>j. pg_instances ?q = pg_instances p @ [(fst (uid (pg_uid p)), j)]"
    "pg_uid ?q = Suc (pg_uid p)" "pg_timers ?q = pg_timers p" "pg_timeout ?q = pg_timeout p"
    by (simp_all add: new_chart_def uid_bound(1) Let_def case_prod_beta)
  then obtain j where j: "pg_instances ?q = pg_instances p @ [(fst (uid (pg_uid p)), j)]" by blast
  have "fst (uid (pg_uid p)) \<notin> fst ` set (pg_instances p)" using create uid_bound(2) [of "pg_uid p"] by (auto simp: page_ok_def)
  then show ?case using create by (auto simp: page_ok_def j k(2-4) lessThan_Suc)
next
  case (remove key i p)
  then show ?case by (auto simp: page_ok_def destroy_def distinct_map_filter)
next
  case (layout p parent)
  then show ?case by (auto simp: page_ok_def case_prod_beta comp_def)
next
  case (window p)
  then show ?case by (auto simp: page_ok_def window_resize_def)
next
  case (timer h p)
  have "fst ` set (fst (resize_each E (pg_instances p))) = fst ` set (pg_instances p)"
    using arg_cong [OF resize_each_keys [of E "pg_instances p"], of set] by simp
  then show ?case using timer resize_each_keys [of E "pg_instances p"] by (auto simp: page_ok_def timer_fires_def case_prod_beta)
qed

lemma reachable_ok: "reachable E p \<Longrightarrow> page_ok p"
  unfolding reachable_def
proof (induction rule: rtranclp_induct)
  case base
  then show ?case by (simp add: page_ok_def empty_page_def)
qed (rule page_step_ok)

subsection \<open>A pass of the resize handler\<close>

text \<open>
  What a pass leaves of one chart: a chart that is not responsive is not touched. A responsive one has the size of
  its container, its canvas was sized for it, it was cleared over exactly that size and drawn once, and the frame it
  had asked for is cancelled.
\<close>

definition refreshed :: "env \<Rightarrow> inst \<Rightarrow> inst \<Rightarrow> bool" where
  "refreshed E i j =
     (if i_responsive i
      then chart_size (i_chart j) = new_size i
         \<and> frame_queue (i_anim j) = filter (\<lambda>e. Some (fst e) \<noteq> animationFrame (i_anim i)) (frame_queue (i_anim i))
         \<and> (\<exists>cs. cv_log (i_canvas j) =
               cv_log (retinaScale E (resize_canvas (fst (new_size i)) (snd (new_size i)) (i_canvas i)))
                 @ ClearRect 0 0 (fst (new_size i)) (snd (new_size i)) # cs)
      else j = i)"

lemma render_reflowed:
  assumes "render E True i = Some (Inr j)"
  obtains c where "chart_reflow E (i_chart i) = Some (Inr c)" "j = (draw_now E (i\<lparr>i_chart := c\<rparr>))\<lparr>i_anim := emit [OnComplete] (i_anim i)\<rparr>"
proof (cases "chart_reflow E (i_chart i)")
  case (Some r)
  then show ?thesis using assms that by (cases r) (auto simp: render_def fitting_def)
qed (use assms in \<open>simp add: render_def fitting_def\<close>)

lemma resize_refreshes:
  assumes r: "i_responsive i" and j: "render E True (resize E i) = Some (Inr j)"
  shows "refreshed E i j"
proof -
  obtain w h where n: "new_size i = (w, h)" by fastforce
  obtain c where c: "chart_reflow E (set_chart_size (w, h) (i_chart i)) = Some (Inr c)"
    and j: "j = (draw_now E ((resize E i)\<lparr>i_chart := c\<rparr>))\<lparr>i_anim := emit [OnComplete] (stop (i_anim i))\<rparr>"
    using render_reflowed [OF j] n by (auto simp: resize_def)
  obtain cs where "fst (chart_draw E NaN c) = ClearRect 0 0 w h # cs" using ac.resized_redraws(2) [OF c] by blast
  then show ?thesis using ac.resized_redraws(1) [OF c, of NaN] r n
    by (simp add: refreshed_def j draw_now_def resize_def case_prod_beta emit_cmds_def emit_def stop_def cancelAnimFrame_def)
qed

lemma resize_each_refreshes:
  assumes "resize_each E is = (js, Done)"
  shows "list_all2 (\<lambda>(k, i) (l, j). l = k \<and> refreshed E i j) is js"
  using assms
proof (induction E "is" arbitrary: js rule: resize_each.induct)
  case (2 E key i "is")
  show ?case
  proof (cases "i_responsive i")
    case True
    then obtain j ks where j: "render E True (resize E i) = Some (Inr j)" "resize_each E is = (ks, Done)" "js = (key, j) # ks"
      using 2(3) by (cases "resize_each E is") (auto split: option.splits sum.splits)
    then show ?thesis using 2(1) [OF True j(1) refl j(2)] resize_refreshes [OF True j(1)] by simp
  next
    case False
    then obtain ks where "resize_each E is = (ks, Done)" "js = (key, i) # ks" using 2(3) by (cases "resize_each E is") auto
    then show ?thesis using 2(2) [OF False] False by (simp add: refreshed_def)
  qed
qed simp

text \<open>
  C36. Whatever the order in which charts are created and destroyed, the layout changes, the window is resized and the
  timer fires, the live charts have distinct ids that the id counter has handed out, and at most one pass of the
  resize handler is pending, the one the last resize asked for.
\<close>

theorem page_invariant:
  "reachable E p \<Longrightarrow> page_ok p"
  by (rule reachable_ok)


definition example_inst :: inst where
  "example_inst = \<lparr>i_responsive = True, i_animation = True, i_animationSteps = Fin 60, i_animationEasing = ''linear'',
     i_maintainAspectRatio = True, i_aspectRatio = Fin 2, i_parent = \<lparr>clientWidth = Fin 300, clientHeight = Fin 500\<rparr>,
     i_canvas = \<lparr>cv_width = Fin 200, cv_height = Fin 100, css_size = None, cv_log = []\<rparr>,
     i_node = \<lparr>api = Standard, listeners = [], on_props = []\<rparr>, i_events = None,
     i_anim = \<lparr>next_handle = 0, frame_queue = [], animationFrame = None, anim_trace = []\<rparr>,
     i_chart = Doughnut (Chart_Doughnut.initialize example_points example_doughnut)\<rparr>"

text \<open>A page with a responsive and a fixed chart on which the window has been resized twice.\<close>

definition example_page :: page where
  "example_page = window_resize (window_resize
     (fst (new_chart example_env (\<lambda>i. (i, Done)) (example_inst\<lparr>i_responsive := False\<rparr>)
       (fst (new_chart example_env (\<lambda>i. (i, Done)) example_inst empty_page)))))"

lemma example_reachable: "reachable example_env example_page"
  unfolding reachable_def example_page_def
  by (rule rtranclp.rtrancl_into_rtrancl [OF rtranclp.rtrancl_into_rtrancl [OF rtranclp.rtrancl_into_rtrancl [OF rtranclp.rtrancl_into_rtrancl
      [OF rtranclp.rtrancl_refl]]]]) (rule page_step.intros)+

lemma example_timer: "pg_timers example_page = [1]"
  by (simp add: example_page_def window_resize_def new_chart_def empty_page_def case_prod_beta Let_def)

theorem page_invariant_witness:
  "page_ok example_page \<and> pg_timers example_page = [1]"
  using page_invariant [OF example_reachable] example_timer by simp

lemma example_done: "snd (timer_fires example_env 1 example_page) = Done"
  by (simp add: timer_fires_def example_page_def window_resize_def new_chart_def empty_page_def case_prod_beta Let_def
      example_inst_def resize_def new_size_def render_def fitting_def)


end
