(* ===== verification/JS_Strings.thy ===== *)
theory JS_Strings
  imports JS_Values "HOL-Library.Sublist"
begin

section \<open>String methods\<close>

text \<open>
  The string methods the page scripts use: \<open>indexOf\<close>, \<open>replace\<close> of a string or a character,
  \<open>split\<close> at a character, \<open>join\<close>, case conversion (of the letters of ASCII), the decimal
  representation of a natural number and \<open>parseInt\<close> of a decimal numeral.
\<close>

named_theorems js_str \<comment> \<open>computing with strings\<close>

subsection \<open>First occurrences\<close>

definition firsts :: "'a list \<Rightarrow> 'a list" where
  "firsts xs = rev (remdups (rev xs))"

lemma firsts_Nil [simp]: "firsts [] = []"
  by (simp add: firsts_def)

lemma firsts_snoc [simp]: "firsts (xs @ [x]) = (if x \<in> set xs then firsts xs else firsts xs @ [x])"
  by (simp add: firsts_def)

lemma set_firsts [simp]: "set (firsts xs) = set xs"
  by (simp add: firsts_def)

lemma distinct_firsts [simp]: "distinct (firsts xs)"
  by (simp add: firsts_def)

lemma firsts_append_dup: "set ys \<subseteq> set xs \<Longrightarrow> firsts (xs @ ys) = firsts xs"
  by (induction ys rule: rev_induct) (auto simp flip: append_assoc)

subsection \<open>Searching\<close>

fun index_of :: "string \<Rightarrow> string \<Rightarrow> nat option" where
  "index_of pat [] = (if pat = [] then Some 0 else None)"
| "index_of pat (c # s) = (if prefix pat (c # s) then Some 0 else map_option Suc (index_of pat s))"

abbreviation occurs_in :: "string \<Rightarrow> string \<Rightarrow> bool" where
  "occurs_in pat s \<equiv> index_of pat s \<noteq> None"

lemma index_of_sublist: "occurs_in pat s = sublist pat s"
  by (induction s) (auto simp: sublist_Cons_right)

lemma occurs_in_iff: "occurs_in pat s \<longleftrightarrow> (\<exists>u v. s = u @ pat @ v)"
  unfolding index_of_sublist sublist_def ..

subsection \<open>Replacing, splitting and joining\<close>

definition replace_char :: "char \<Rightarrow> char \<Rightarrow> string \<Rightarrow> string" where
  "replace_char a b s = map (\<lambda>c. if c = a then b else c) s"

text \<open>\<open>s.replace(pat, by)\<close> with a string \<open>pat\<close> replaces its first occurrence.\<close>

definition replace_first :: "string \<Rightarrow> string \<Rightarrow> string \<Rightarrow> string" where
  "replace_first pat by s =
     (case index_of pat s of None \<Rightarrow> s | Some i \<Rightarrow> take i s @ by @ drop (i + length pat) s)"

fun split_at :: "char \<Rightarrow> string \<Rightarrow> string list" where
  "split_at d [] = [[]]"
| "split_at d (c # s) = (if c = d then [] # split_at d s
     else (case split_at d s of p # ps \<Rightarrow> (c # p) # ps | [] \<Rightarrow> [[c]]))"

fun join_with :: "string \<Rightarrow> string list \<Rightarrow> string" where
  "join_with sep [] = []"
| "join_with sep [s] = s"
| "join_with sep (s # t # ts) = s @ sep @ join_with sep (t # ts)"

lemma join_with_Cons: "ss \<noteq> [] \<Longrightarrow> join_with sep (s # ss) = s @ sep @ join_with sep ss"
  by (cases ss) simp_all

lemma join_with_snoc: "ss \<noteq> [] \<Longrightarrow> join_with sep (ss @ [s]) = join_with sep ss @ sep @ s"
  by (induction ss rule: list_nonempty_induct) (simp_all add: join_with_Cons)

lemma split_at_Nil [simp]: "split_at d s \<noteq> []"
  by (induction s) (auto split: list.split)

lemma split_at_word: "d \<notin> set w \<Longrightarrow> split_at d (w @ d # s) = w # split_at d s"
  by (induction w) auto

lemma split_at_none: "d \<notin> set w \<Longrightarrow> split_at d w = [w]"
  by (induction w) auto

lemma split_at_append: "split_at d (u @ d # s) = split_at d u @ split_at d s"
  by (induction u) (auto split: list.split)

text \<open>Words in a text, each preceded by the separator.\<close>

definition words :: "char \<Rightarrow> string list \<Rightarrow> string" where
  "words d ws = concat (map (\<lambda>w. d # w) ws)"

lemma words_append [simp]: "words d (ws @ vs) = words d ws @ words d vs" "words d [] = []"
  by (simp_all add: words_def)

lemma words_one [simp]: "words d [w] = d # w"
  by (simp add: words_def)

lemma join_words: "w @ words d ws = join_with [d] (w # ws)"
proof (induction ws arbitrary: w)
  case (Cons a ws)
  have "w @ words d (a # ws) = w @ [d] @ (a @ words d ws)" by (simp add: words_def)
  then show ?case by (simp only: Cons join_with.simps)
qed simp

lemma drop_words: "drop 1 (words d ws) = join_with [d] ws"
proof (cases ws)
  case (Cons w ws')
  then show ?thesis using join_words [of w d ws'] by (simp add: words_def)
qed simp

lemma split_words: "list_all (\<lambda>w. d \<notin> set w) ws \<Longrightarrow> split_at d (d # words d ws @ [d]) = [] # [] # ws @ [[]] \<or> ws = []"
proof (induction ws rule: rev_induct)
  case (snoc w ws)
  then have "split_at d ((d # words d ws) @ d # w @ [d]) = split_at d (d # words d ws) @ [w, []]"
    using split_at_word [of d w "[]"] by (simp only: split_at_append) simp
  moreover have "split_at d (d # words d ws) = [] # split_at d (words d ws)" by simp
  moreover have "split_at d (words d ws) = [] # ws" if "list_all (\<lambda>w. d \<notin> set w) ws" for ws
    using that
  proof (induction ws rule: rev_induct)
    case (snoc w ws)
    then show ?case by (simp add: split_at_append split_at_none)
  qed (simp add: words_def)
  ultimately show ?case using snoc by simp
qed simp

text \<open>Looking for a word between separators finds exactly the words of the text.\<close>

lemma occurs_in_words:
  assumes "list_all (\<lambda>w. d \<notin> set w) ws" "d \<notin> set v" "v \<noteq> []"
  shows "occurs_in ([d] @ v @ [d]) ([d] @ words d ws @ [d]) \<longleftrightarrow> v \<in> set ws"
proof
  assume "occurs_in ([d] @ v @ [d]) ([d] @ words d ws @ [d])"
  then obtain x y where xy: "d # words d ws @ [d] = x @ d # v @ d # y" unfolding occurs_in_iff by auto
  have "split_at d (d # words d ws @ [d]) = split_at d x @ v # split_at d y"
    unfolding xy split_at_append split_at_none [OF assms(2)] by simp
  then have v: "v \<in> set (split_at d (d # words d ws @ [d]))" by simp
  show "v \<in> set ws"
  proof (cases "ws = []")
    case True
    then show ?thesis using v assms(3) by simp
  next
    case False
    then have "split_at d (d # words d ws @ [d]) = [] # [] # ws @ [[]]" using split_words [OF assms(1)] by simp
    then show ?thesis using v assms(3) by (simp only: set_simps set_append) auto
  qed
next
  assume "v \<in> set ws"
  then obtain us vs where ws: "ws = us @ v # vs" by (meson split_list)
  have "\<exists>y. words d vs @ [d] = d # y" by (cases vs) (simp_all add: words_def)
  then obtain y where y: "words d vs @ [d] = d # y" ..
  have "words d ws = words d us @ d # v @ words d vs" by (simp add: ws words_def)
  then have "[d] @ words d ws @ [d] = ([d] @ words d us) @ ([d] @ v @ [d]) @ y" using y by simp
  then show "occurs_in ([d] @ v @ [d]) ([d] @ words d ws @ [d])" unfolding occurs_in_iff by blast
qed

lemma split_join [js_str]:
  "ws \<noteq> [] \<Longrightarrow> list_all (\<lambda>w. d \<notin> set w) ws \<Longrightarrow> split_at d (join_with [d] ws) = ws"
  by (induction ws rule: list_nonempty_induct) (simp_all add: join_with_Cons split_at_word split_at_none)

lemma join_split: "join_with [d] (split_at d s) = s"
proof (induction s)
  case (Cons c s)
  then show ?case
    by (cases "split_at d s") (auto simp: join_with_Cons, (cases "tl (split_at d s)", auto)+)
qed simp

subsection \<open>The names in a text\<close>

definition tokens :: "string \<Rightarrow> string list" where
  "tokens s = filter (\<lambda>w. w \<noteq> []) (split_at (CHR '' '') s)"

lemma tokens_append: "tokens (u @ '' '' @ v) = tokens u @ tokens v"
  by (simp add: tokens_def split_at_append)

lemma tokens_word: "w \<noteq> [] \<Longrightarrow> CHR '' '' \<notin> set w \<Longrightarrow> tokens w = [w]"
  by (simp add: tokens_def split_at_none)

lemma tokens_join:
  "list_all (\<lambda>w. w \<noteq> [] \<and> CHR '' '' \<notin> set w) ws \<Longrightarrow> tokens (join_with '' '' ws) = ws"
proof (induction ws)
  case (Cons w ws)
  then show ?case
    by (cases "ws = []") (simp_all add: join_with_Cons tokens_append [simplified] tokens_word)
qed (simp add: tokens_def)

lemma tokens_set: "w \<in> set (tokens s) \<Longrightarrow> w \<noteq> [] \<and> CHR '' '' \<notin> set w"
proof -
  have "CHR '' '' \<notin> set w" if "w \<in> set (split_at (CHR '' '') s)" for w s
    using that by (induction s arbitrary: w) (auto split: if_splits list.splits)
  then show "w \<in> set (tokens s) \<Longrightarrow> w \<noteq> [] \<and> CHR '' '' \<notin> set w" by (auto simp: tokens_def)
qed

lemma tokens_blank [simp]: "tokens (CHR '' '' # s) = tokens s" "tokens (s @ '' '') = tokens s" "tokens [] = []"
  using tokens_append [of s "[]"] by (simp_all add: tokens_def)

text \<open>Looking for a name between blanks finds exactly the names of the text.\<close>

lemma occurs_token:
  assumes "v \<noteq> []" "CHR '' '' \<notin> set v"
  shows "occurs_in ('' '' @ v @ '' '') ('' '' @ t @ '' '') \<longleftrightarrow> v \<in> set (tokens t)"
proof
  assume "occurs_in ('' '' @ v @ '' '') ('' '' @ t @ '' '')"
  then obtain x y where xy: "'' '' @ t @ '' '' = x @ '' '' @ v @ '' '' @ y" unfolding occurs_in_iff by auto
  have "tokens t = tokens ('' '' @ t @ '' '')" by simp
  also have "\<dots> = tokens x @ v # tokens y"
    unfolding xy tokens_append using tokens_word [OF assms] by simp
  finally show "v \<in> set (tokens t)" by simp
next
  assume "v \<in> set (tokens t)"
  then obtain us vs where ws: "split_at (CHR '' '') t = us @ v # vs" by (auto simp: tokens_def dest: split_list)
  have "'' '' @ t = words (CHR '' '') (us @ v # vs)"
    using join_split [of "CHR '' ''" t] join_words [of "[]" "CHR '' ''" "us @ v # vs"] ws by (cases us) (simp_all add: words_def)
  then have "'' '' @ t @ '' '' = words (CHR '' '') us @ '' '' @ v @ words (CHR '' '') vs @ '' ''" by (simp add: words_def)
  moreover obtain y where "words (CHR '' '') vs @ '' '' = '' '' @ y" by (cases vs) (simp_all add: words_def)
  ultimately have "'' '' @ t @ '' '' = words (CHR '' '') us @ ('' '' @ v @ '' '') @ y" by simp
  then show "occurs_in ('' '' @ v @ '' '') ('' '' @ t @ '' '')" unfolding occurs_in_iff by blast
qed

lemma replace_first_occurs:
  assumes "occurs_in pat s"
  obtains x y where "s = x @ pat @ y" "replace_first pat r s = x @ r @ y"
proof -
  have "\<exists>x y. s = x @ pat @ y \<and> replace_first pat r s = x @ r @ y"
    using assms
  proof (induction s)
    case (Cons c s)
    show ?case
    proof (cases "prefix pat (c # s)")
      case True
      then obtain y where "c # s = pat @ y" by (auto simp: prefix_def)
      moreover have "replace_first pat r (c # s) = r @ drop (length pat) (c # s)" using True by (simp add: replace_first_def)
      ultimately have "c # s = [] @ pat @ y \<and> replace_first pat r (c # s) = [] @ r @ y" by simp
      then show ?thesis by blast
    next
      case False
      then obtain x y where "s = x @ pat @ y" "replace_first pat r s = x @ r @ y" using Cons by auto
      then show ?thesis
        using False Cons.prems by (intro exI [of _ "c # x"] exI [of _ y]) (auto simp: replace_first_def)
    qed
  qed (auto simp: replace_first_def split: if_splits)
  then show thesis using that by blast
qed

subsection \<open>Case\<close>

definition lower_char :: "char \<Rightarrow> char" where
  "lower_char c = (if 65 \<le> (of_char c :: nat) \<and> (of_char c :: nat) \<le> 90 then char_of (of_char c + 32 :: nat) else c)"

definition upper_char :: "char \<Rightarrow> char" where
  "upper_char c = (if 97 \<le> (of_char c :: nat) \<and> (of_char c :: nat) \<le> 122 then char_of (of_char c - 32 :: nat) else c)"

abbreviation toLowerCase :: "string \<Rightarrow> string" where
  "toLowerCase s \<equiv> map lower_char s"

abbreviation toUpperCase :: "string \<Rightarrow> string" where
  "toUpperCase s \<equiv> map upper_char s"

subsection \<open>Numerals\<close>

definition digit_char :: "nat \<Rightarrow> char" where
  "digit_char d = char_of (48 + d)"

fun nat_str :: "nat \<Rightarrow> string" where
  "nat_str n = (if n < 10 then [digit_char n] else nat_str (n div 10) @ [digit_char (n mod 10)])"

declare nat_str.simps [simp del]

lemma digit_char_props: "d < 10 \<Longrightarrow> is_digit (digit_char d) \<and> digit_val (digit_char d) = d"
  by (simp add: digit_char_def is_digit_def digit_val_def)

lemma nat_str_digits: "list_all is_digit (nat_str n) \<and> nat_str n \<noteq> []"
proof (induction n rule: nat_str.induct)
  case (1 n)
  then show ?case by (simp add: nat_str.simps [of n] digit_char_props)
qed

lemma digits_val_snoc: "digits_val (ds @ [d]) = 10 * digits_val ds + digit_val d"
  by (simp add: digits_val_def)

lemma digits_val_nat_str [simp]: "digits_val (nat_str n) = n"
proof (induction n rule: nat_str.induct)
  case (1 n)
  then show ?case
    by (subst nat_str.simps) (simp add: digits_val_snoc digit_char_props, simp add: digits_val_def digit_char_props)
qed

lemma nat_str_inj: "nat_str m = nat_str n \<Longrightarrow> m = n"
  using digits_val_nat_str [of m] by simp

text \<open>\<open>parseInt(s)\<close> for strings that begin with a decimal digit after blanks; \<open>None\<close> is \<open>NaN\<close>.\<close>

definition parse_int :: "string \<Rightarrow> nat option" where
  "parse_int s = (let ds = takeWhile is_digit (dropWhile is_ws s) in if ds = [] then None else Some (digits_val ds))"

lemma digit_not_ws: "is_digit c \<Longrightarrow> \<not> is_ws c"
  by (auto simp: is_digit_def is_ws_def)

lemma parse_int_nat_str: "list_all (\<lambda>c. \<not> is_digit c) (take 1 rest) \<Longrightarrow> parse_int (nat_str n @ rest) = Some n"
proof -
  assume rest: "list_all (\<lambda>c. \<not> is_digit c) (take 1 rest)"
  have ds: "list_all is_digit (nat_str n)" "nat_str n \<noteq> []" using nat_str_digits by auto
  then have "dropWhile is_ws (nat_str n @ rest) = nat_str n @ rest"
    by (cases "nat_str n") (auto simp: digit_not_ws)
  moreover have "takeWhile is_digit (nat_str n @ rest) = nat_str n"
    using ds(1) rest by (cases rest) (auto simp: list_all_iff takeWhile_append)
  ultimately show ?thesis using ds(2) by (simp add: parse_int_def Let_def)
qed

end
