(* ===== verification/JS_Regex.thy ===== *)
theory JS_Regex
  imports JS_Strings
begin

section \<open>Regular expressions\<close>

text \<open>
  The regular expressions of the page scripts with the backtracking semantics of the language:
  \<open>ms r s c\<close> lists every way in which \<open>r\<close> matches a prefix of \<open>s\<close>, in the order in which a
  backtracking matcher tries them, each with the rest of the input and the captures; the first
  entry is the match. A repetition only goes on after an iteration that consumed something. No
  expression of the scripts captures inside a repetition, so captures need no resetting there.
\<close>

named_theorems re_simps \<comment> \<open>matching one construct\<close>

datatype re =
    Eps
  | Chars "char \<Rightarrow> bool"
  | Seq re re
  | Alt re re
  | Star re \<comment> \<open>greedy\<close>
  | LazyStar re
  | Group nat re

type_synonym captures = "(nat \<times> string) list"

abbreviation Opt :: "re \<Rightarrow> re" where
  "Opt r \<equiv> Alt r Eps"

abbreviation Plus :: "re \<Rightarrow> re" where
  "Plus r \<equiv> Seq r (Star r)"

text \<open>A literal, compared without regard to case (flag \<open>i\<close>).\<close>

fun Lit :: "string \<Rightarrow> re" where
  "Lit [] = Eps"
| "Lit (c # s) = Seq (Chars (\<lambda>x. lower_char x = lower_char c)) (Lit s)"

text \<open>The guards on the lengths never exclude a match; they make the recursion well-founded.\<close>

function ms :: "re \<Rightarrow> string \<Rightarrow> captures \<Rightarrow> (string \<times> captures) list" where
  "ms Eps s c = [(s, c)]"
| "ms (Chars p) s c = (case s of [] \<Rightarrow> [] | x # t \<Rightarrow> if p x then [(t, c)] else [])"
| "ms (Seq r1 r2) s c = concat (map (\<lambda>(t, d). if length t \<le> length s then ms r2 t d else []) (ms r1 s c))"
| "ms (Alt r1 r2) s c = ms r1 s c @ ms r2 s c"
| "ms (Star r) s c = concat (map (\<lambda>(t, d). if length t < length s then ms (Star r) t d else []) (ms r s c)) @ [(s, c)]"
| "ms (LazyStar r) s c = (s, c) # concat (map (\<lambda>(t, d). if length t < length s then ms (LazyStar r) t d else []) (ms r s c))"
| "ms (Group n r) s c = map (\<lambda>(t, d). (t, (n, take (length s - length t) s) # d)) (ms r s c)"
  by pat_completeness auto
termination
  by (relation "measures [\<lambda>(r, s, c). length s, \<lambda>(r, s, c). size r]") auto

declare ms.simps(3,5,6) [simp del]

text \<open>One call of \<open>exec\<close>: the leftmost match, as the input behind it and the captures.\<close>

fun exec :: "re \<Rightarrow> string \<Rightarrow> (string \<times> captures) option" where
  "exec r [] = (case ms r [] [] of [] \<Rightarrow> None | m # _ \<Rightarrow> Some m)"
| "exec r (x # s) = (case ms r (x # s) [] of [] \<Rightarrow> exec r s | m # _ \<Rightarrow> Some m)"

text \<open>
  The loop \<open>while (null !== (m = r.exec(s)))\<close> with a global \<open>r\<close>: the captures of all matches.
  The expressions used never match the empty string, on which the loop would not get on.
\<close>

function exec_all :: "re \<Rightarrow> string \<Rightarrow> captures list" where
  "exec_all r s =
     (case exec r s of
        None \<Rightarrow> []
      | Some (t, d) \<Rightarrow> if length t < length s then d # exec_all r t else [])"
  by pat_completeness auto
termination
  by (relation "measure (\<lambda>(r, s). length s)") auto

declare exec_all.simps [simp del]

definition group :: "captures \<Rightarrow> nat \<Rightarrow> string" where
  "group c n = (case map_of c n of None \<Rightarrow> [] | Some s \<Rightarrow> s)"

subsection \<open>The guards exclude nothing\<close>

lemma ms_length: "(t, d) \<in> set (ms r s c) \<Longrightarrow> length t \<le> length s"
proof (induction r s c arbitrary: t d rule: ms.induct)
  case (2 p s c)
  then show ?case by (cases s) (auto split: if_splits)
next
  case (3 r1 r2 s c)
  then obtain t1 d1 where t1: "(t1, d1) \<in> set (ms r1 s c)" "length t1 \<le> length s" "(t, d) \<in> set (ms r2 t1 d1)"
    by (auto simp: ms.simps(3) split: if_splits)
  then show ?case using 3(2) [OF t1(1) refl t1(2,3)] by simp
next
  case (5 r s c)
  then consider "t = s" | t1 d1 where "(t1, d1) \<in> set (ms r s c)" "length t1 < length s" "(t, d) \<in> set (ms (Star r) t1 d1)"
    by (auto simp: ms.simps(5) [of r s c] split: if_splits)
  then show ?case
  proof cases
    case 2
    then show ?thesis using 5(2) [OF 2(1) refl 2(2,3)] by simp
  qed simp
next
  case (6 r s c)
  then consider "t = s" | t1 d1 where "(t1, d1) \<in> set (ms r s c)" "length t1 < length s" "(t, d) \<in> set (ms (LazyStar r) t1 d1)"
    by (auto simp: ms.simps(6) [of r s c] split: if_splits)
  then show ?case
  proof cases
    case 2
    then show ?thesis using 6(2) [OF 2(1) refl 2(2,3)] by simp
  qed simp
qed auto

lemma ms_Seq [re_simps]: "ms (Seq r1 r2) s c = concat (map (\<lambda>(t, d). ms r2 t d) (ms r1 s c))"
  using ms_length by (fastforce simp: ms.simps(3) intro!: arg_cong [of _ _ concat])

text \<open>An expression that consumes at least one character in every match.\<close>

definition consuming :: "re \<Rightarrow> bool" where
  "consuming r = (\<forall>s c t d. (t, d) \<in> set (ms r s c) \<longrightarrow> length t < length s)"

lemma ms_Star_consuming:
  "consuming r \<Longrightarrow> ms (Star r) s c = concat (map (\<lambda>(t, d). ms (Star r) t d) (ms r s c)) @ [(s, c)]"
  unfolding consuming_def by (subst ms.simps(5)) (fastforce intro!: arg_cong [of _ _ concat])

lemma consuming_Seq: "consuming r1 \<Longrightarrow> consuming (Seq r1 r2)"
  unfolding consuming_def ms_Seq by (auto, meson ms_length order_le_less_trans)

lemma consuming_Seq2: "consuming r2 \<Longrightarrow> consuming (Seq r1 r2)"
  unfolding consuming_def ms_Seq by (auto, meson ms_length order_less_le_trans)

lemma consuming_Chars: "consuming (Chars p)"
  unfolding consuming_def by (auto split: list.splits if_splits)

lemma consuming_Lit: "w \<noteq> [] \<Longrightarrow> consuming (Lit w)"
  by (cases w) (auto intro: consuming_Seq consuming_Chars)

lemma consuming_Group: "consuming r \<Longrightarrow> consuming (Group n r)"
  unfolding consuming_def by auto

lemma consumingD: "consuming r \<Longrightarrow> ms r s c = (t, d) # xs \<Longrightarrow> length t < length s"
  unfolding consuming_def by (metis list.set_intros(1))

lemma exec_consuming: "consuming r \<Longrightarrow> exec r s = Some (t, d) \<Longrightarrow> length t < length s"
proof (induction s)
  case Nil
  then show ?case using consumingD [of r "[]" "[]"] by (auto split: list.splits)
next
  case (Cons x s)
  then show ?case using consumingD [of r "x # s" "[]"] by (auto split: list.splits)
qed

text \<open>With a consuming expression the loop of \<open>exec\<close> goes through all matches.\<close>

lemma exec_all_consuming:
  "consuming r \<Longrightarrow> exec_all r s = (case exec r s of None \<Rightarrow> [] | Some (t, d) \<Rightarrow> d # exec_all r t)"
  by (subst exec_all.simps) (auto simp: exec_consuming split: option.split)

subsection \<open>Matching a class of characters and a literal\<close>

lemma ms_Chars_Cons [re_simps]: "ms (Chars p) (x # s) c = (if p x then [(s, c)] else [])"
  by simp

lemma ms_LazyStar_Chars:
  "ms (LazyStar (Chars p)) s c = map (\<lambda>k. (drop k s, c)) [0..<Suc (length (takeWhile p s))]"
proof (induction s)
  case (Cons x s)
  then show ?case by (subst ms.simps(6)) (auto simp: upt_conv_Cons map_Suc_upt [symmetric] simp del: upt_Suc)
qed (simp add: ms.simps)

lemma ms_Star_Chars:
  "ms (Star (Chars p)) s c = map (\<lambda>k. (drop k s, c)) (rev [0..<Suc (length (takeWhile p s))])"
proof (induction s)
  case (Cons x s)
  then show ?case
    by (subst ms.simps(5)) (auto simp: upt_conv_Cons map_Suc_upt [symmetric] rev_map simp del: upt_Suc)
qed (simp add: ms.simps)

lemma ms_Lit_append: "ms (Lit w) (w @ s) c = [(s, c)]"
  by (induction w) (simp_all add: ms_Seq)

lemma ms_Lit_mismatch: "s = [] \<or> lower_char (hd s) \<noteq> lower_char x \<Longrightarrow> ms (Lit (x # w)) s c = []"
  by (cases s) (simp_all add: ms_Seq)

text \<open>A character that is not a letter matches itself only.\<close>

lemma lower_char_eq:
  assumes "(of_char d :: nat) < 65 \<or> 90 < (of_char d :: nat) \<and> (of_char d :: nat) < 97 \<or> 122 < (of_char d :: nat)"
  shows "lower_char x = lower_char d \<longleftrightarrow> x = d"
proof -
  have d: "lower_char d = d" using assms by (auto simp: lower_char_def)
  have "lower_char x = d \<longleftrightarrow> x = d"
  proof (cases "65 \<le> (of_char x :: nat) \<and> (of_char x :: nat) \<le> 90")
    case True
    have "lower_char x \<noteq> d"
    proof
      assume "lower_char x = d"
      then have "of_char d = (of_char x + 32 :: nat)" using True by (auto simp: lower_char_def)
      then show False using True assms by linarith
    qed
    moreover have "x \<noteq> d" using True assms by auto
    ultimately show ?thesis by simp
  qed (auto simp: lower_char_def)
  then show ?thesis by (simp add: d)
qed

lemma take_length_drop: "take (length xs - length (drop k xs)) xs = take k xs"
  by (cases "k \<le> length xs") simp_all

lemma ms_Group_Chars:
  "ms (Group n (LazyStar (Chars p))) s c = map (\<lambda>k. (drop k s, (n, take k s) # c)) [0..<Suc (length (takeWhile p s))]"
  "ms (Group n (Star (Chars p))) s c = map (\<lambda>k. (drop k s, (n, take k s) # c)) (rev [0..<Suc (length (takeWhile p s))])"
  by (simp_all add: ms_LazyStar_Chars ms_Star_Chars take_length_drop comp_def del: length_drop)

text \<open>
  A captured lazy repetition of a class: when what follows cannot match earlier, the capture is
  \<open>u\<close> in the first match; when the class cannot go on behind \<open>u\<close>, that is the only match.
\<close>

lemma ms_lazy_first:
  assumes "list_all p u" "\<And>k d. k < length u \<Longrightarrow> ms r (drop k u @ s) d = []"
  shows "\<exists>more. ms (Seq (Group n (LazyStar (Chars p))) r) (u @ s) c = ms r s ((n, u) # c) @ more"
proof -
  define m where "m = length (takeWhile p (u @ s))"
  have "length u \<le> m" using assms(1) by (simp add: m_def list_all_iff takeWhile_append)
  then have split: "[0..<Suc m] = [0..<length u] @ length u # [Suc (length u)..<Suc m]"
    using upt_add_eq_append [of 0 "length u" "Suc m - length u"] by (simp add: upt_conv_Cons del: upt_Suc)
  have nil: "concat (map (\<lambda>k. ms r (drop k u @ drop (k - length u) s) ((n, take k u @ take (k - length u) s) # c)) [0..<length u]) = []"
    using assms(2) by simp
  show ?thesis
    unfolding ms_Seq ms_Group_Chars m_def [symmetric] split by (simp add: comp_def nil)
qed

lemma ms_lazy_only:
  assumes "list_all p u" "\<And>k d. k < length u \<Longrightarrow> ms r (drop k u @ s) d = []" "s = [] \<or> \<not> p (hd s)"
  shows "ms (Seq (Group n (LazyStar (Chars p))) r) (u @ s) c = ms r s ((n, u) # c)"
    and "ms (Seq (LazyStar (Chars p)) r) (u @ s) c = ms r s c"
proof -
  have tw: "takeWhile p (u @ s) = u"
    using assms(1,3) by (cases s) (auto simp: list_all_iff takeWhile_append)
  have "concat (map (\<lambda>k. ms r (drop k (u @ s)) (f k)) [0..<length u]) = []" for f
    using assms(2) by simp
  then show "ms (Seq (Group n (LazyStar (Chars p))) r) (u @ s) c = ms r s ((n, u) # c)"
    "ms (Seq (LazyStar (Chars p)) r) (u @ s) c = ms r s c"
    unfolding ms_Seq ms_Group_Chars ms_LazyStar_Chars tw by (simp_all add: comp_def)
qed

subsection \<open>The first match\<close>

definition first_match :: "re \<Rightarrow> string \<Rightarrow> captures \<Rightarrow> string \<times> captures \<Rightarrow> bool" where
  "first_match r s c m = (\<exists>more. ms r s c = m # more)"

lemma first_matchI: "ms r s c = m # more \<Longrightarrow> first_match r s c m"
  by (auto simp: first_match_def)

lemma first_Seq: "first_match r1 s c (t, d) \<Longrightarrow> first_match r2 t d m \<Longrightarrow> first_match (Seq r1 r2) s c m"
  by (auto simp: first_match_def ms_Seq)

lemma first_Group: "first_match r (u @ s) c (s, d) \<Longrightarrow> first_match (Group n r) (u @ s) c (s, (n, u) # d)"
  by (auto simp: first_match_def)

lemma first_Star_Chars:
  assumes "list_all p u" "s = [] \<or> \<not> p (hd s)"
  shows "first_match (Star (Chars p)) (u @ s) c (s, c)"
proof -
  have "takeWhile p (u @ s) = u"
    using assms by (cases s) (auto simp: list_all_iff takeWhile_append)
  then show ?thesis by (simp add: first_match_def ms_Star_Chars)
qed

lemma first_lazy:
  assumes "list_all p u" "\<And>k d. k < length u \<Longrightarrow> ms r (drop k u @ s) d = []" "first_match r s ((n, u) # c) m"
  shows "first_match (Seq (Group n (LazyStar (Chars p))) r) (u @ s) c m"
  using ms_lazy_first [OF assms(1,2), of n c] assms(3) by (auto simp: first_match_def)

lemma exec_first: "first_match r s [] m \<Longrightarrow> exec r s = Some m"
  by (cases s) (auto simp: first_match_def)

end
