(* ===== verification/Element_Rules.thy ===== *)
theory Element_Rules
  imports JS_Regex
begin

section \<open>ElementQueries: collecting the queries from the style sheets\<close>

text \<open>
  \<open>ElementQueries.js\<close>, the part that reads style sheets: \<open>queueQuery\<close>, \<open>extractQuery\<close> with its
  two regular expressions, and \<open>readRules\<close>. The object \<open>allQueries\<close> is an association list in
  insertion order; its keys are selectors, which are taken not to be names that every object
  inherits. \<open>css_text\<close> is the text of the \<open>style\<close> element the script maintains.
\<close>

subsection \<open>The state\<close>

record query =
  qu_mode :: string
  qu_property :: string
  qu_value :: string

record rules_state =
  allQueries :: "(string \<times> query list) list"
  idToSelectorMapping :: "string list"
  css_text :: string

definition nl :: string where
  "nl = [CHR 0x0A]"

definition queries_of :: "string \<Rightarrow> rules_state \<Rightarrow> query list" where
  "queries_of selector st = (case map_of (allQueries st) selector of None \<Rightarrow> [] | Some qs \<Rightarrow> qs)"

text \<open>The rule that makes an element announce itself, and the one that tells its sensor the number.\<close>

definition animation_rule :: "string \<Rightarrow> string" where
  "animation_rule selector = selector @ '' {animation: 0.1s element-queries;}''"

definition id_rule :: "string \<Rightarrow> nat \<Rightarrow> string" where
  "id_rule selector i = selector @ '' > .resize-sensor {min-width: '' @ nat_str i @ ''px;}''"

definition queueQuery :: "string \<Rightarrow> query \<Rightarrow> rules_state \<Rightarrow> rules_state" where
  "queueQuery selector qu st =
     (let st1 =
        (if map_of (allQueries st) selector = None then
           (let id = length (idToSelectorMapping st)
            in st\<lparr>allQueries := allQueries st @ [(selector, [])],
                 css_text := css_text st @ nl @ animation_rule selector @ nl @ id_rule selector id,
                 idToSelectorMapping := idToSelectorMapping st @ [selector]\<rparr>)
         else st)
      in st1\<lparr>allQueries := AList.update selector (queries_of selector st1 @ [qu]) (allQueries st1)\<rparr>)"

subsection \<open>Extracting the queries of a selector\<close>

abbreviation quote :: char where
  "quote \<equiv> CHR 0x22"

abbreviation ws :: re where
  "ws \<equiv> Chars is_ws"

fun seqs :: "re list \<Rightarrow> re" where
  "seqs [] = Eps"
| "seqs [r] = r"
| "seqs (r # r' # rs) = Seq r (seqs (r' # rs))"

text \<open>One attribute, \<open>[min-width~="400px"]\<close>; \<open>g\<close> says how its three parts are captured.\<close>

definition value_re :: "(nat \<Rightarrow> re \<Rightarrow> re) \<Rightarrow> re" where
  "value_re g = seqs [g 3 (LazyStar (Chars (\<lambda>x. x \<noteq> quote))), Lit [quote], LazyStar ws, Lit '']'']"

definition attr_re :: "(nat \<Rightarrow> re \<Rightarrow> re) \<Rightarrow> re" where
  "attr_re g = seqs [Lit ''['', LazyStar ws, g 1 (Alt (Lit ''min'') (Lit ''max'')), Lit ''-'',
     g 2 (Alt (Lit ''width'') (Lit ''height'')), LazyStar ws, Opt (Chars (\<lambda>x. x \<in> set ''~$^'')), Lit ''='', LazyStar ws,
     Lit [quote], value_re g]"

definition attrRegex :: re where
  "attrRegex = attr_re Group"

abbreviation attr_part :: re where
  "attr_part \<equiv> attr_re (\<lambda>_ r. r)"

definition selector_char :: "char \<Rightarrow> bool" where
  "selector_char x = (x \<noteq> CHR '','' \<and> x \<noteq> CHR 0x0A)"

definition suffix_char :: "char \<Rightarrow> bool" where
  "suffix_char x = (x \<noteq> CHR '','' \<and> x \<noteq> CHR 0x0A \<and> \<not> is_ws x \<and> x \<noteq> CHR ''{'')"

definition regex :: re where
  "regex = Seq (Opt (Lit '','')) (Seq (Star ws) (Seq (Group 1 (LazyStar (Chars selector_char)))
     (Seq (Group 2 (Plus attr_part)) (Group 3 (Star (Chars suffix_char))))))"

definition attr_queries :: "string \<Rightarrow> query list" where
  "attr_queries attrs = map (\<lambda>m. \<lparr>qu_mode = group m 1, qu_property = group m 2, qu_value = group m 3\<rparr>) (exec_all attrRegex attrs)"

definition css_queries :: "string \<Rightarrow> (string \<times> query) list" where
  "css_queries css =
     concat (map (\<lambda>m. map (\<lambda>qu. (group m 1 @ group m 3, qu)) (attr_queries (group m 2))) (exec_all regex css))"

definition extractQuery :: "string \<Rightarrow> rules_state \<Rightarrow> rules_state" where
  "extractQuery css st = fold (\<lambda>(selector, qu). queueQuery selector qu) (css_queries (replace_char (CHR 0x27) quote css)) st"

subsection \<open>Reading rules\<close>

text \<open>
  The rules of a style sheet: a style rule with its \<open>selectorText\<close> and \<open>cssText\<close>, a media rule with
  the rules inside, an import with the imported sheet (whether \<open>cssRules\<close> is its own property, and
  the rules), or any other rule. \<open>rules\<close> is what \<open>readRules\<close> accepts: nothing, a text or rules.
\<close>

datatype css_rule =
    StyleRule "string option" string
  | MediaRule "css_rule list"
  | ImportRule bool "css_rule list"
  | OtherRule

datatype rules = NoRules | RulesText string | RuleList "css_rule list"

definition rule_selector :: "string option \<Rightarrow> string \<Rightarrow> string" where
  "rule_selector selectorText cssText =
     (case selectorText of Some s \<Rightarrow> if s \<noteq> [] then s else cssText | None \<Rightarrow> cssText)"

definition read_selector :: "string \<Rightarrow> rules_state \<Rightarrow> rules_state" where
  "read_selector selector st =
     (if occurs_in ''min-height'' selector \<or> occurs_in ''max-height'' selector then extractQuery selector st
      else if occurs_in ''min-width'' selector \<or> occurs_in ''max-width'' selector then extractQuery selector st
      else st)"

fun read_rule :: "css_rule \<Rightarrow> rules_state \<Rightarrow> rules_state" and
    read_list :: "css_rule list \<Rightarrow> rules_state \<Rightarrow> rules_state" where
  "read_rule (StyleRule selectorText cssText) st = read_selector (rule_selector selectorText cssText) st"
| "read_rule (MediaRule rs) st = read_list rs st"
| "read_rule (ImportRule own rs) st = (if own then read_list rs st else st)"
| "read_rule OtherRule st = st"
| "read_list [] st = st"
| "read_list (r # rs) st = read_list rs (read_rule r st)"

fun readRules :: "rules \<Rightarrow> rules_state \<Rightarrow> rules_state" where
  "readRules NoRules st = st"
| "readRules (RulesText text) st =
     (let t = toLowerCase text
      in if occurs_in ''min-width'' t \<or> occurs_in ''max-width'' t then extractQuery t st else st)"
| "readRules (RuleList rs) st = read_list rs st"

subsection \<open>The mapping between selectors and their numbers\<close>

text \<open>Every selector has its own number, and queries are kept for exactly the numbered selectors.\<close>

definition rules_inv :: "rules_state \<Rightarrow> bool" where
  "rules_inv st = (map fst (allQueries st) = idToSelectorMapping st \<and> distinct (idToSelectorMapping st))"

lemma rules_inv_keys: "rules_inv st \<Longrightarrow> map_of (allQueries st) selector = None \<longleftrightarrow> selector \<notin> set (idToSelectorMapping st)"
  unfolding rules_inv_def map_of_eq_None_iff by (metis list.set_map)

lemma rules_inv_queue: "rules_inv st \<Longrightarrow> rules_inv (queueQuery selector qu st)"
  using rules_inv_keys [of st selector]
  by (auto simp: rules_inv_def queueQuery_def map_of_eq_None_iff update_keys Let_def split: if_splits)

definition no_rules :: "string \<Rightarrow> rules_state" where
  "no_rules css = \<lparr>allQueries = [], idToSelectorMapping = [], css_text = css\<rparr>"

definition queue_all :: "(string \<times> query) list \<Rightarrow> rules_state \<Rightarrow> rules_state" where
  "queue_all qs st = fold (\<lambda>(selector, qu). queueQuery selector qu) qs st"

lemma queue_all_snoc: "queue_all (qs @ [(sel, qu)]) st = queueQuery sel qu (queue_all qs st)"
  by (simp add: queue_all_def)

lemma queries_of_queue:
  "queries_of s (queueQuery sel qu st) = (if s = sel then queries_of s st @ [qu] else queries_of s st)"
  by (auto simp: queries_of_def queueQuery_def update_conv' map_add_def Let_def split: option.splits)

lemma mapping_queue:
  "rules_inv st \<Longrightarrow> idToSelectorMapping (queueQuery sel qu st) =
     (if sel \<in> set (idToSelectorMapping st) then idToSelectorMapping st else idToSelectorMapping st @ [sel])"
  using rules_inv_keys [of st sel] by (simp add: queueQuery_def Let_def)

definition css_complete :: "rules_state \<Rightarrow> bool" where
  "css_complete st = (\<forall>i < length (idToSelectorMapping st). sublist (id_rule (idToSelectorMapping st ! i) i) (css_text st))"

lemma sublist_append1: "sublist u v \<Longrightarrow> sublist u (v @ w)"
  by (metis sublist_appendI sublist_order.order_trans append_Nil)

lemma css_complete_queue: "rules_inv st \<Longrightarrow> css_complete st \<Longrightarrow> css_complete (queueQuery sel qu st)"
proof -
  assume inv: "rules_inv st" "css_complete st"
  have "sublist (id_rule sel n) (u @ nl @ v @ nl @ id_rule sel n)" for u v n
    by (metis append.assoc append_Nil2 sublist_appendI)
  then show ?thesis
    using inv(2) by (auto simp: css_complete_def queueQuery_def nth_append less_Suc_eq Let_def intro: sublist_append1)
qed

lemma queue_all_inv:
  "rules_inv (queue_all qs (no_rules css)) \<and> css_complete (queue_all qs (no_rules css))
   \<and> idToSelectorMapping (queue_all qs (no_rules css)) = firsts (map fst qs)
   \<and> queries_of s (queue_all qs (no_rules css)) = map snd (filter (\<lambda>(sel, _). sel = s) qs)"
proof (induction qs rule: rev_induct)
  case Nil
  then show ?case by (simp add: queue_all_def no_rules_def rules_inv_def css_complete_def queries_of_def)
next
  case (snoc x qs)
  obtain sel qu where [simp]: "x = (sel, qu)" by (cases x)
  show ?case using snoc
    by (auto simp: queue_all_snoc rules_inv_queue css_complete_queue mapping_queue queries_of_queue)
qed

lemma parse_px: "parse_int (replace_first ''px'' [] (nat_str i @ ''px'')) = Some i"
proof -
  have "index_of ''px'' (ds @ ''px'') = Some (length ds)" if "list_all is_digit ds" for ds
    using that by (induction ds) (auto simp: is_digit_def)
  then have "replace_first ''px'' [] (nat_str i @ ''px'') = nat_str i @ []"
    using nat_str_digits [of i] by (simp add: replace_first_def)
  then show ?thesis using parse_int_nat_str [of "[]" i] by simp
qed


definition example_queries :: "(string \<times> query) list" where
  "example_queries = [(''a'', \<lparr>qu_mode = ''min'', qu_property = ''width'', qu_value = ''1px''\<rparr>),
     (''b'', \<lparr>qu_mode = ''min'', qu_property = ''width'', qu_value = ''2px''\<rparr>),
     (''a'', \<lparr>qu_mode = ''max'', qu_property = ''width'', qu_value = ''3px''\<rparr>)]"


subsection \<open>Extraction finds the queries that were written\<close>

record attr =
  at_mode :: string
  at_property :: string
  at_op :: string
  at_value :: string

definition attr_text :: "attr \<Rightarrow> string" where
  "attr_text a = ''['' @ at_mode a @ ''-'' @ at_property a @ at_op a @ ''='' @ [quote] @ at_value a @ [quote] @ '']''"

definition attr_ok :: "attr \<Rightarrow> bool" where
  "attr_ok a = (at_mode a \<in> {''min'', ''max''} \<and> at_property a \<in> {''width'', ''height''}
     \<and> at_op a \<in> {[], ''~'', ''$'', ''^''} \<and> list_all (\<lambda>x. x \<noteq> quote \<and> x \<noteq> CHR 0x27) (at_value a))"

lemma ms_value:
  assumes "list_all (\<lambda>x. x \<noteq> quote) v"
  shows "ms (Seq (LazyStar (Chars (\<lambda>x. x \<noteq> quote))) (Seq (Lit [quote]) r)) (v @ quote # s) c = ms r s c"
    and "ms (Seq (Group n (LazyStar (Chars (\<lambda>x. x \<noteq> quote)))) (Seq (Lit [quote]) r)) (v @ quote # s) c = ms r s ((n, v) # c)"
proof -
  have fail: "ms (Seq (Lit [quote]) r) (drop k v @ quote # s) d = []" if "k < length v" for k d
  proof -
    have "drop k v = v ! k # drop (Suc k) v" using that by (simp add: Cons_nth_drop_Suc)
    moreover have "v ! k \<noteq> quote" using assms that by (simp add: list_all_length)
    ultimately show ?thesis by (simp add: ms_Seq lower_char_eq)
  qed
  show "ms (Seq (LazyStar (Chars (\<lambda>x. x \<noteq> quote))) (Seq (Lit [quote]) r)) (v @ quote # s) c = ms r s c"
    "ms (Seq (Group n (LazyStar (Chars (\<lambda>x. x \<noteq> quote)))) (Seq (Lit [quote]) r)) (v @ quote # s) c = ms r s ((n, v) # c)"
    using assms fail by (simp_all add: ms_lazy_only) (simp_all add: ms_Seq)
qed

lemma ms_tail: "ms (Seq (LazyStar ws) (Lit '']'')) (CHR '']'' # s) c = [(s, c)]"
  by (simp add: ms_Seq ms_LazyStar_Chars is_ws_def)

lemma ms_value_re:
  assumes "list_all (\<lambda>x. x \<noteq> quote \<and> x \<noteq> CHR 0x27) v"
  shows "ms (value_re (\<lambda>_ r. r)) (v @ quote # CHR '']'' # s) c = [(s, c)]"
    and "ms (value_re Group) (v @ quote # CHR '']'' # s) c = [(s, (3, v) # c)]"
proof -
  have "list_all (\<lambda>x. x \<noteq> quote) v" using assms by (simp add: list_all_iff)
  then show "ms (value_re (\<lambda>_ r. r)) (v @ quote # CHR '']'' # s) c = [(s, c)]"
    "ms (value_re Group) (v @ quote # CHR '']'' # s) c = [(s, (3, v) # c)]"
    unfolding value_re_def seqs.simps by (simp_all only: ms_value ms_tail)
qed

lemma ms_skip_ws: "\<not> is_ws x \<Longrightarrow> ms (Seq (LazyStar ws) r) (x # s) c = ms r (x # s) c"
  using ms_lazy_only(2) [of is_ws "[]" r "x # s" c] by simp

lemma ms_lit: "ms (Seq (Lit w) r) (w @ s) c = ms r s c"
  by (simp add: ms_Seq ms_Lit_append)

lemma ms_mode:
  assumes "m = ''min'' \<or> m = ''max''"
  shows "ms (Seq (Alt (Lit ''min'') (Lit ''max'')) r) (m @ s) c = ms r s c"
    and "ms (Seq (Group n (Alt (Lit ''min'') (Lit ''max''))) r) (m @ s) c = ms r s ((n, m) # c)"
  using assms by (elim disjE; simp add: ms_Seq lower_char_def)+

lemma ms_property:
  assumes "p = ''width'' \<or> p = ''height''"
  shows "ms (Seq (Alt (Lit ''width'') (Lit ''height'')) r) (p @ s) c = ms r s c"
    and "ms (Seq (Group n (Alt (Lit ''width'') (Lit ''height''))) r) (p @ s) c = ms r s ((n, p) # c)"
  using assms by (elim disjE; simp add: ms_Seq lower_char_def)+

lemma ms_op:
  assumes "u = [] \<or> u = ''~'' \<or> u = ''$'' \<or> u = ''^''"
  shows "ms (Seq (LazyStar ws) (Seq (Opt (Chars (\<lambda>x. x \<in> set ''~$^''))) (Seq (Lit ''='') r))) (u @ ''='' @ s) c = ms r s c"
  using assms by (elim disjE; simp add: ms_skip_ws is_ws_def) (simp_all add: ms_Seq lower_char_def)

lemma ms_attr:
  assumes "attr_ok a"
  shows "ms attr_part (attr_text a @ s) c = [(s, c)]"
    and "ms attrRegex (attr_text a @ s) c = [(s, (3, at_value a) # (2, at_property a) # (1, at_mode a) # c)]"
proof -
  have v: "list_all (\<lambda>x. x \<noteq> quote \<and> x \<noteq> CHR 0x27) (at_value a)" using assms by (simp add: attr_ok_def)
  have m: "at_mode a = ''min'' \<or> at_mode a = ''max''" and p: "at_property a = ''width'' \<or> at_property a = ''height''"
    and o: "at_op a = [] \<or> at_op a = ''~'' \<or> at_op a = ''$'' \<or> at_op a = ''^''"
    using assms by (auto simp: attr_ok_def)
  have skip: "ms (Seq (LazyStar ws) r) (at_mode a @ t) d = ms r (at_mode a @ t) d"
    "ms (Seq (LazyStar ws) r) ([quote] @ t) d = ms r ([quote] @ t) d" for r t d
    using m by (auto simp: ms_skip_ws is_ws_def)
  have tx: "attr_text a @ s = ''['' @ at_mode a @ ''-'' @ at_property a @ at_op a @ ''='' @ [quote] @ at_value a @ quote # CHR '']'' # s"
    by (simp add: attr_text_def)
  show "ms attr_part (attr_text a @ s) c = [(s, c)]"
    unfolding tx attr_re_def seqs.simps ms_lit skip ms_mode [OF m] ms_property [OF p] ms_op [OF o] ms_value_re [OF v] ..
  show "ms attrRegex (attr_text a @ s) c = [(s, (3, at_value a) # (2, at_property a) # (1, at_mode a) # c)]"
    unfolding attrRegex_def tx attr_re_def seqs.simps ms_lit skip ms_mode [OF m] ms_property [OF p] ms_op [OF o] ms_value_re [OF v] ..
qed

lemma attr_part_fails: "s = [] \<or> hd s \<noteq> CHR ''['' \<Longrightarrow> ms attr_part s c = []"
  unfolding attr_re_def seqs.simps by (cases s) (simp_all add: ms_Seq lower_char_eq)

lemma attrRegex_fails: "s = [] \<or> hd s \<noteq> CHR ''['' \<Longrightarrow> ms attrRegex s c = []"
  unfolding attrRegex_def attr_re_def seqs.simps by (cases s) (simp_all add: ms_Seq lower_char_eq)

lemma consuming_attr: "consuming attr_part" "consuming attrRegex"
  unfolding attrRegex_def attr_re_def seqs.simps by (auto intro!: consuming_Seq consuming_Chars)

lemma first_attrs:
  assumes "list_all attr_ok as" "s = [] \<or> hd s \<noteq> CHR ''[''"
  shows "first_match (Star attr_part) (concat (map attr_text as) @ s) c (s, c)"
  using assms
proof (induction as)
  case Nil
  then have "ms (Star attr_part) s c = [(s, c)]"
    by (subst ms_Star_consuming [OF consuming_attr(1)]) (simp add: attr_part_fails)
  then show ?case by (simp add: first_match_def)
next
  case (Cons a as)
  let ?t = "concat (map attr_text as) @ s"
  have "ms (Star attr_part) (attr_text a @ ?t) c = ms (Star attr_part) ?t c @ [(attr_text a @ ?t, c)]"
    using Cons.prems by (subst ms_Star_consuming [OF consuming_attr(1)]) (simp add: ms_attr)
  then show ?case using Cons by (auto simp: first_match_def)
qed

lemma exec_all_attrs:
  "list_all attr_ok as \<Longrightarrow>
   exec_all attrRegex (concat (map attr_text as)) = map (\<lambda>a. [(3, at_value a), (2, at_property a), (1, at_mode a)]) as"
proof (induction as)
  case Nil
  then show ?case by (subst exec_all_consuming [OF consuming_attr(2)]) (simp add: attrRegex_fails)
next
  case (Cons a as)
  have "exec attrRegex (attr_text a @ concat (map attr_text as)) = Some (concat (map attr_text as), [(3, at_value a), (2, at_property a), (1, at_mode a)])"
    by (rule exec_first) (rule first_matchI [OF ms_attr(2)], use Cons in simp)
  then show ?case using Cons by (simp, subst exec_all_consuming [OF consuming_attr(2)]) simp
qed

text \<open>A selector with element queries: what precedes the attributes, these, and what follows.\<close>

record selector =
  sl_pre :: string
  sl_attrs :: "attr list"
  sl_post :: string

definition selector_text :: "selector \<Rightarrow> string" where
  "selector_text sl = sl_pre sl @ concat (map attr_text (sl_attrs sl)) @ sl_post sl"

definition selector_ok :: "selector \<Rightarrow> bool" where
  "selector_ok sl =
     (list_all (\<lambda>x. selector_char x \<and> x \<noteq> CHR ''['' \<and> x \<noteq> CHR 0x27) (sl_pre sl)
      \<and> (sl_pre sl = [] \<or> \<not> is_ws (hd (sl_pre sl)))
      \<and> sl_attrs sl \<noteq> [] \<and> list_all attr_ok (sl_attrs sl)
      \<and> list_all (\<lambda>x. suffix_char x \<and> x \<noteq> CHR 0x27) (sl_post sl)
      \<and> (sl_post sl = [] \<or> hd (sl_post sl) \<noteq> CHR ''[''))"

definition selector_captures :: "selector \<Rightarrow> captures" where
  "selector_captures sl = [(3, sl_post sl), (2, concat (map attr_text (sl_attrs sl))), (1, sl_pre sl)]"

definition selectors_text :: "selector list \<Rightarrow> string" where
  "selectors_text sls = join_with '', '' (map selector_text sls)"

definition selector_queries :: "selector \<Rightarrow> (string \<times> query) list" where
  "selector_queries sl =
     map (\<lambda>a. (sl_pre sl @ sl_post sl, \<lparr>qu_mode = at_mode a, qu_property = at_property a, qu_value = at_value a\<rparr>)) (sl_attrs sl)"

lemma attr_text_Cons: "\<exists>t. attr_text a = CHR ''['' # t"
  by (simp add: attr_text_def)

lemma attrs_Cons: "as \<noteq> [] \<Longrightarrow> \<exists>t. concat (map attr_text as) @ s = CHR ''['' # t"
  by (cases as) (auto simp: attr_text_def)

lemma selector_head:
  assumes "selector_ok sl"
  shows "\<exists>x t. selector_text sl @ rest = x # t \<and> x \<noteq> CHR '','' \<and> \<not> is_ws x"
proof (cases "sl_pre sl")
  case Nil
  then show ?thesis using assms attrs_Cons [of "sl_attrs sl" "sl_post sl @ rest"]
    by (auto simp: selector_ok_def selector_text_def is_ws_def)
next
  case (Cons x t)
  then show ?thesis using assms by (simp add: selector_ok_def selector_text_def selector_char_def)
qed

lemma first_plus_attrs:
  assumes "as \<noteq> []" "list_all attr_ok as" "s = [] \<or> hd s \<noteq> CHR ''[''"
  shows "first_match (Plus attr_part) (concat (map attr_text as) @ s) c (s, c)"
proof (cases as)
  case (Cons a bs)
  then have "first_match attr_part (attr_text a @ concat (map attr_text bs) @ s) c (concat (map attr_text bs) @ s, c)"
    using assms by (intro first_matchI [OF ms_attr(1)]) simp
  moreover have "first_match (Star attr_part) (concat (map attr_text bs) @ s) c (s, c)"
    using assms Cons by (intro first_attrs) simp_all
  ultimately show ?thesis unfolding Cons by (simp add: first_Seq)
qed (use assms in simp)

lemma first_selector:
  assumes "selector_ok sl" "rest = [] \<or> \<not> suffix_char (hd rest)"
  shows "first_match (Seq (Group 1 (LazyStar (Chars selector_char)))
     (Seq (Group 2 (Plus attr_part)) (Group 3 (Star (Chars suffix_char))))) (selector_text sl @ rest) [] (rest, selector_captures sl)"
proof -
  let ?as = "concat (map attr_text (sl_attrs sl))"
  have ok: "list_all selector_char (sl_pre sl)" "\<And>k. k < length (sl_pre sl) \<Longrightarrow> sl_pre sl ! k \<noteq> CHR ''[''"
    "list_all suffix_char (sl_post sl)" "sl_attrs sl \<noteq> []" "list_all attr_ok (sl_attrs sl)"
    "sl_post sl @ rest = [] \<or> hd (sl_post sl @ rest) \<noteq> CHR ''[''"
    using assms by (auto simp: selector_ok_def list_all_length suffix_char_def is_ws_def hd_append)
  have "ms (Seq (Group 2 (Plus attr_part)) r) (drop k (sl_pre sl) @ t) d = []" if "k < length (sl_pre sl)" for k r t d
  proof -
    have "drop k (sl_pre sl) @ t = sl_pre sl ! k # drop (Suc k) (sl_pre sl) @ t"
      using that by (simp add: Cons_nth_drop_Suc)
    then show ?thesis using ok(2) [OF that] by (simp add: ms_Seq attr_part_fails)
  qed
  moreover have "first_match (Seq (Group 2 (Plus attr_part)) (Group 3 (Star (Chars suffix_char)))) (?as @ sl_post sl @ rest) [(1, sl_pre sl)]
    (rest, selector_captures sl)"
    unfolding selector_captures_def using ok assms(2)
    by (intro first_Seq [where t = "sl_post sl @ rest" and d = "[(2, ?as), (1, sl_pre sl)]"]
        first_Group first_plus_attrs first_Star_Chars) simp_all
  ultimately show ?thesis
    unfolding selector_text_def append_assoc by (intro first_lazy ok(1))
qed

lemma first_regex:
  assumes "selector_ok sl" "rest = [] \<or> \<not> suffix_char (hd rest)"
  shows "first_match regex (selector_text sl @ rest) [] (rest, selector_captures sl)"
    and "first_match regex ('', '' @ selector_text sl @ rest) [] (rest, selector_captures sl)"
proof -
  obtain x t where x: "selector_text sl @ rest = x # t" "x \<noteq> CHR '',''" "\<not> is_ws x"
    using selector_head [OF assms(1)] by blast
  have ws: "first_match (Star ws) (u @ selector_text sl @ rest) [] (selector_text sl @ rest, [])" if "list_all is_ws u" for u
    using that x by (intro first_Star_Chars) simp_all
  have none: "first_match (Opt (Lit '','')) (selector_text sl @ rest) [] (selector_text sl @ rest, [])"
    using x by (simp add: first_match_def ms_Seq lower_char_eq)
  have one: "first_match (Opt (Lit '','')) ('', '' @ selector_text sl @ rest) [] ('' '' @ selector_text sl @ rest, [])"
    by (simp add: first_match_def ms_Seq)
  show "first_match regex (selector_text sl @ rest) [] (rest, selector_captures sl)"
    unfolding regex_def
    by (rule first_Seq [OF none first_Seq [OF _ first_selector [OF assms]]]) (use ws [of "[]"] in simp)
  show "first_match regex ('', '' @ selector_text sl @ rest) [] (rest, selector_captures sl)"
    unfolding regex_def
    by (rule first_Seq [OF one first_Seq [OF ws first_selector [OF assms]]]) (simp add: is_ws_def)
qed

lemma consuming_regex: "consuming regex"
  unfolding regex_def by (intro consuming_Seq2 consuming_Seq [of "Group 2 _"] consuming_Group consuming_Seq [of attr_part] consuming_attr)

lemma regex_Nil: "exec regex [] = None"
  using exec_consuming [OF consuming_regex, of "[]"] by (cases "exec regex []") auto

lemma exec_all_selectors:
  "list_all selector_ok sls \<Longrightarrow>
   exec_all regex (concat (map (\<lambda>sl. '', '' @ selector_text sl) sls)) = map selector_captures sls"
proof (induction sls)
  case Nil
  then show ?case by (subst exec_all_consuming [OF consuming_regex]) (simp add: regex_Nil del: exec.simps)
next
  case (Cons sl sls)
  let ?rest = "concat (map (\<lambda>sl. '', '' @ selector_text sl) sls)"
  have "?rest = [] \<or> \<not> suffix_char (hd ?rest)" by (cases sls) (simp_all add: suffix_char_def)
  then have "exec regex ('', '' @ selector_text sl @ ?rest) = Some (?rest, selector_captures sl)"
    using Cons.prems by (intro exec_first first_regex(2)) simp_all
  then show ?case using Cons by (subst exec_all_consuming [OF consuming_regex]) simp
qed

lemma selectors_text_Cons:
  "selectors_text (sl # sls) = selector_text sl @ concat (map (\<lambda>sl. '', '' @ selector_text sl) sls)"
  by (induction sls arbitrary: sl) (simp_all add: selectors_text_def)

lemma exec_all_text:
  assumes "list_all selector_ok sls"
  shows "exec_all regex (selectors_text sls) = map selector_captures sls"
proof (cases sls)
  case Nil
  then show ?thesis
    by (subst exec_all_consuming [OF consuming_regex]) (simp add: selectors_text_def regex_Nil del: exec.simps)
next
  case (Cons sl sls')
  let ?rest = "concat (map (\<lambda>sl. '', '' @ selector_text sl) sls')"
  have "?rest = [] \<or> \<not> suffix_char (hd ?rest)" by (cases sls') (simp_all add: suffix_char_def)
  then have "exec regex (selector_text sl @ ?rest) = Some (?rest, selector_captures sl)"
    using assms Cons by (intro exec_first first_regex(1)) simp_all
  then show ?thesis
    using assms Cons exec_all_selectors [of sls'] unfolding Cons selectors_text_Cons
    by (subst exec_all_consuming [OF consuming_regex]) simp
qed

lemma no_apostrophe_attr: "attr_ok a \<Longrightarrow> CHR 0x27 \<notin> set (attr_text a)"
proof -
  assume ok: "attr_ok a"
  have "CHR 0x27 \<notin> set (at_mode a)" using ok by (auto simp: attr_ok_def)
  moreover have "CHR 0x27 \<notin> set (at_property a)" using ok by (auto simp: attr_ok_def)
  moreover have "CHR 0x27 \<notin> set (at_op a)" using ok by (auto simp: attr_ok_def)
  moreover have "CHR 0x27 \<notin> set (at_value a)" using ok by (auto simp: attr_ok_def list_all_iff)
  ultimately show ?thesis by (simp add: attr_text_def)
qed

lemma no_apostrophe: "selector_ok sl \<Longrightarrow> CHR 0x27 \<notin> set (selector_text sl)"
proof -
  assume ok: "selector_ok sl"
  have "CHR 0x27 \<notin> set (sl_pre sl)" using ok unfolding selector_ok_def list_all_iff by blast
  moreover have "CHR 0x27 \<notin> set (sl_post sl)" using ok unfolding selector_ok_def list_all_iff by blast
  moreover have "CHR 0x27 \<notin> set (concat (map attr_text (sl_attrs sl)))"
    using ok no_apostrophe_attr unfolding selector_ok_def list_all_iff by simp
  ultimately show ?thesis by (simp add: selector_text_def)
qed

lemma replace_char_id: "a \<notin> set s \<Longrightarrow> replace_char a b s = s"
  by (induction s) (auto simp: replace_char_def)

lemma replace_text:
  assumes "list_all selector_ok sls"
  shows "replace_char (CHR 0x27) quote (selectors_text sls) = selectors_text sls"
proof (rule replace_char_id)
  show "CHR 0x27 \<notin> set (selectors_text sls)"
  proof (cases sls)
    case (Cons sl sls')
    then have "CHR 0x27 \<notin> set (selector_text t)" if "t = sl \<or> t \<in> set sls'" for t
      using assms that by (auto simp: list_all_iff dest: no_apostrophe)
    then show ?thesis unfolding Cons selectors_text_Cons by simp
  qed (simp add: selectors_text_def)
qed

lemma css_queries_selectors:
  assumes "list_all selector_ok sls"
  shows "css_queries (selectors_text sls) = concat (map selector_queries sls)"
proof -
  have "map (\<lambda>qu. (group (selector_captures sl) 1 @ group (selector_captures sl) 3, qu)) (attr_queries (group (selector_captures sl) 2))
      = selector_queries sl" if "selector_ok sl" for sl
    using that
    by (simp add: selector_captures_def group_def attr_queries_def selector_queries_def selector_ok_def exec_all_attrs)
  then show ?thesis
    using assms unfolding css_queries_def exec_all_text [OF assms]
    by (auto simp: list_all_iff intro!: arg_cong [of _ _ concat])
qed

text \<open>The text of such a rule names one of the four attributes, which is what \<open>readRules\<close> looks for.\<close>

lemma selectors_text_named:
  assumes "sls \<noteq> []" "list_all selector_ok sls"
  shows "selectors_text sls \<noteq> [] \<and> (occurs_in ''min-height'' (selectors_text sls) \<or> occurs_in ''max-height'' (selectors_text sls)
    \<or> occurs_in ''min-width'' (selectors_text sls) \<or> occurs_in ''max-width'' (selectors_text sls))"
proof -
  obtain sl sls' where sls: "sls = sl # sls'" using assms(1) by (cases sls) auto
  obtain a as where as: "sl_attrs sl = a # as" "attr_ok a"
    using assms(2) sls by (cases "sl_attrs sl") (auto simp: selector_ok_def)
  have "\<exists>u v. selectors_text sls = u @ (at_mode a @ ''-'' @ at_property a) @ v" (is "\<exists>u v. ?P u v")
  proof (intro exI)
    show "?P (sl_pre sl @ ''['') (at_op a @ ''='' @ [quote] @ at_value a @ [quote] @ '']'' @ concat (map attr_text as)
        @ sl_post sl @ concat (map (\<lambda>sl. '', '' @ selector_text sl) sls'))"
      unfolding sls selectors_text_Cons selector_text_def as(1) by (simp add: attr_text_def)
  qed
  then have "occurs_in (at_mode a @ ''-'' @ at_property a) (selectors_text sls)"
    unfolding occurs_in_iff .
  moreover have "selectors_text sls \<noteq> []"
    unfolding sls selectors_text_Cons selector_text_def as(1) by (simp add: attr_text_def)
  moreover have "at_mode a = ''min'' \<or> at_mode a = ''max''" "at_property a = ''width'' \<or> at_property a = ''height''"
    using as(2) by (auto simp: attr_ok_def)
  ultimately show ?thesis by (elim disjE) simp_all
qed

lemma read_selectors_queue:
  assumes "sls \<noteq> []" "list_all selector_ok sls"
  shows "readRules (RuleList [StyleRule (Some (selectors_text sls)) body]) st = queue_all (concat (map selector_queries sls)) st"
proof -
  have "extractQuery (selectors_text sls) st = queue_all (concat (map selector_queries sls)) st"
    by (simp only: extractQuery_def replace_text [OF assms(2)] css_queries_selectors [OF assms(2)] queue_all_def)
  then show ?thesis
    using selectors_text_named [OF assms] by (auto simp: rule_selector_def read_selector_def)
qed

text \<open>
  C7. Reading a style rule finds what was written: for a list of selectors that each carry element
  query attributes, exactly the queries of these attributes are queued, in order, for the
  selector without the attributes; the operators \<open>=\<close>, \<open>~=\<close>, \<open>$=\<close> and \<open>^=\<close> make no difference.
\<close>

theorem read_selectors:
  assumes "sls \<noteq> []" "list_all selector_ok sls"
  shows "readRules (RuleList [StyleRule (Some (selectors_text sls)) body]) st = queue_all (concat (map selector_queries sls)) st"
  using assms by (rule read_selectors_queue)

definition example_selector :: selector where
  "example_selector = \<lparr>sl_pre = ''.card'', sl_attrs =
     [\<lparr>at_mode = ''min'', at_property = ''width'', at_op = ''~'', at_value = ''400px''\<rparr>,
      \<lparr>at_mode = ''max'', at_property = ''height'', at_op = [], at_value = ''20em''\<rparr>], sl_post = '':hover''\<rparr>"

theorem read_selectors_witness:
  "idToSelectorMapping (readRules (RuleList [StyleRule (Some (selectors_text [example_selector])) []]) (no_rules [])) = [''.card:hover'']"
proof -
  have "list_all selector_ok [example_selector]"
    by (simp add: example_selector_def selector_ok_def attr_ok_def selector_char_def suffix_char_def is_ws_def)
  then have "readRules (RuleList [StyleRule (Some (selectors_text [example_selector])) []]) (no_rules [])
      = queue_all (concat (map selector_queries [example_selector])) (no_rules [])"
    by (intro read_selectors) simp_all
  then show ?thesis
    using queue_all_inv [of "concat (map selector_queries [example_selector])" "[]" "[]"]
    by (simp add: selector_queries_def example_selector_def firsts_def)
qed

definition height_selector :: selector where
  "height_selector = \<lparr>sl_pre = ''a'', sl_attrs = [\<lparr>at_mode = ''min'', at_property = ''height'', at_op = [], at_value = ''9px''\<rparr>], sl_post = []\<rparr>"

text \<open>A sheet that is only available as text is searched for width attributes only.\<close>

lemma text_height_queries_ignored:
  "readRules (RulesText (selectors_text [height_selector])) st = st
   \<and> readRules (RuleList [StyleRule (Some (selectors_text [height_selector])) body]) st = queue_all (selector_queries height_selector) st"
proof
  show "readRules (RulesText (selectors_text [height_selector])) st = st"
    by (simp add: selectors_text_def selector_text_def height_selector_def attr_text_def lower_char_def Let_def)
  have "list_all selector_ok [height_selector]"
    by (simp add: height_selector_def selector_ok_def attr_ok_def selector_char_def is_ws_def)
  then show "readRules (RuleList [StyleRule (Some (selectors_text [height_selector])) body]) st = queue_all (selector_queries height_selector) st"
    using read_selectors_queue [of "[height_selector]"] by simp
qed

end
