(* ===== verification/Responsive_Images.thy ===== *)
theory Responsive_Images
  imports JS_Strings
begin

section \<open>ElementQueries: responsive images\<close>

text \<open>
  \<open>attachResponsiveImage\<close> of \<open>ElementQueries.js\<close>: the image to show is chosen by the width of
  the element; an image is loaded in memory before it replaces the active one. A loading image is
  an entry of \<open>loading\<close>, the value \<open>imageToDisplay\<close> that its \<open>onload\<close> closure captured; the
  browser may complete the entries in any order. Indices that come from \<open>for ... in\<close> are strings,
  \<open>defaultImageId\<close> is a number, and the two are never identical.
\<close>

subsection \<open>The state\<close>

text \<open>A child of the element: its tag name and the attributes the code reads.\<close>

record child =
  ch_tag :: string
  ch_attrs :: "(string \<times> string) list"

datatype img_ref = IdxStr nat | IdxNum nat

fun ref_index :: "img_ref \<Rightarrow> nat" where
  "ref_index (IdxStr i) = i"
| "ref_index (IdxNum i) = i"

record image =
  im_minWidth :: "string option"
  im_source :: "string option"
  im_display :: string
  im_src :: "string option"

record images =
  imgs :: "image list"
  defaultImageId :: nat
  lastActiveImage :: img_ref
  loadedImages :: "nat list"
  loading :: "img_ref list"

text \<open>\<open>getAttribute(a) || getAttribute(b)\<close>, and whether such a value is truthy.\<close>

definition attr_or :: "child \<Rightarrow> string \<Rightarrow> string \<Rightarrow> string option" where
  "attr_or ch a b =
     (case map_of (ch_attrs ch) a of
        Some v \<Rightarrow> if v \<noteq> [] then Some v else map_of (ch_attrs ch) b
      | None \<Rightarrow> map_of (ch_attrs ch) b)"

definition str_truthy :: "string option \<Rightarrow> bool" where
  "str_truthy v = (case v of None \<Rightarrow> False | Some s \<Rightarrow> s \<noteq> [])"

definition is_img :: "child \<Rightarrow> bool" where
  "is_img ch = (toLowerCase (ch_tag ch) = ''img'')"

definition collect_child :: "child \<Rightarrow> images \<Rightarrow> images" where
  "collect_child ch st =
     (if is_img ch then
        (let minWidth = attr_or ch ''min-width'' ''data-min-width'';
             src = attr_or ch ''data-src'' ''url'';
             im = \<lparr>im_minWidth = minWidth, im_source = src,
                   im_display = (if str_truthy minWidth then ''none'' else ''block''), im_src = None\<rparr>
         in st\<lparr>imgs := imgs st @ [im],
               defaultImageId := (if str_truthy minWidth then defaultImageId st else length (imgs st))\<rparr>)
      else st)"

definition collect_images :: "child list \<Rightarrow> images" where
  "collect_images chs =
     (let st = fold collect_child chs \<lparr>imgs = [], defaultImageId = 0, lastActiveImage = IdxNum 0, loadedImages = [], loading = []\<rparr>
      in st\<lparr>lastActiveImage := IdxNum (defaultImageId st)\<rparr>)"

subsection \<open>Checking the width\<close>

text \<open>The last rule in document order whose width is exceeded.\<close>

definition exceeds :: "jsnum \<Rightarrow> image \<Rightarrow> bool" where
  "exceeds width im = (case im_minWidth im of None \<Rightarrow> False | Some s \<Rightarrow> s \<noteq> [] \<and> str_to_number s < width)"

definition image_to_display :: "jsnum \<Rightarrow> images \<Rightarrow> img_ref" where
  "image_to_display width st =
     fold (\<lambda>i r. if exceeds width (imgs st ! i) then IdxStr i else r) [0..<length (imgs st)] (IdxNum (defaultImageId st))"

definition set_display :: "nat \<Rightarrow> string \<Rightarrow> images \<Rightarrow> jserr + images" where
  "set_display i d st =
     (case idx (imgs st) i of None \<Rightarrow> Inl TypeError | Some im \<Rightarrow> Inr (st\<lparr>imgs := (imgs st)[i := im\<lparr>im_display := d\<rparr>]\<rparr>))"

definition set_src :: "nat \<Rightarrow> images \<Rightarrow> jserr + images" where
  "set_src i st =
     (case idx (imgs st) i of None \<Rightarrow> Inl TypeError | Some im \<Rightarrow> Inr (st\<lparr>imgs := (imgs st)[i := im\<lparr>im_src := im_source im\<rparr>]\<rparr>))"

text \<open>Hiding the active image and showing another.\<close>

definition swap_to :: "img_ref \<Rightarrow> images \<Rightarrow> jserr + images" where
  "swap_to r st =
     (case set_display (ref_index (lastActiveImage st)) ''none'' st of
        Inl err \<Rightarrow> Inl err
      | Inr st1 \<Rightarrow> set_display (ref_index r) ''block'' st1)"

definition check :: "jsnum \<Rightarrow> images \<Rightarrow> jserr + images" where
  "check width st =
     (let r = image_to_display width st
      in if lastActiveImage st \<noteq> r then
           (if ref_index r \<notin> set (loadedImages st) then Inr (st\<lparr>loading := loading st @ [r]\<rparr>)
            else (case swap_to r st of Inl err \<Rightarrow> Inl err | Inr st1 \<Rightarrow> Inr (st1\<lparr>lastActiveImage := r\<rparr>)))
         else set_src (ref_index r) st)"

definition onload :: "img_ref \<Rightarrow> images \<Rightarrow> jserr + images" where
  "onload r st =
     (case set_src (ref_index r) st of
        Inl err \<Rightarrow> Inl err
      | Inr st1 \<Rightarrow>
          (case swap_to r st1 of
             Inl err \<Rightarrow> Inl err
           | Inr st2 \<Rightarrow> Inr (st2\<lparr>loadedImages := ref_index r # loadedImages st2, lastActiveImage := r\<rparr>)))"

definition attachResponsiveImage :: "jsnum \<Rightarrow> child list \<Rightarrow> jserr + images" where
  "attachResponsiveImage width chs = check width (collect_images chs)"

subsection \<open>Runs\<close>

text \<open>The width changes and the sensor calls \<open>check\<close>, or one of the loading images completes.\<close>

inductive img_step :: "images \<Rightarrow> images \<Rightarrow> bool" where
  img_check: "check width st = Inr st' \<Longrightarrow> img_step st st'"
| img_loaded: "loading st = us @ r # vs \<Longrightarrow> onload r (st\<lparr>loading := us @ vs\<rparr>) = Inr st' \<Longrightarrow> img_step st st'"

inductive_cases img_stepE: "img_step st st'"

abbreviation shown :: "images \<Rightarrow> nat list" where
  "shown st \<equiv> filter (\<lambda>i. im_display (imgs st ! i) = ''block'') [0..<length (imgs st)]"

text \<open>Only existing images are referred to, and exactly the active one is displayed.\<close>

definition img_inv :: "images \<Rightarrow> bool" where
  "img_inv st =
     (defaultImageId st < length (imgs st) \<and> ref_index (lastActiveImage st) < length (imgs st)
      \<and> (\<forall>r \<in> set (loading st). ref_index r < length (imgs st))
      \<and> (\<forall>i < length (imgs st). (im_display (imgs st ! i) = ''block'') = (i = ref_index (lastActiveImage st))))"

lemma display_index:
  "fold (\<lambda>i r. if P i then IdxStr i else r) is (IdxNum d) = (if filter P is = [] then IdxNum d else IdxStr (last (filter P is)))"
  by (induction "is" rule: rev_induct) simp_all

lemma image_to_display_eq:
  "image_to_display width st =
     (let js = filter (\<lambda>i. exceeds width (imgs st ! i)) [0..<length (imgs st)]
      in if js = [] then IdxNum (defaultImageId st) else IdxStr (last js))"
  by (simp add: image_to_display_def display_index Let_def)

lemma image_to_display_bound: "defaultImageId st < length (imgs st) \<Longrightarrow> ref_index (image_to_display width st) < length (imgs st)"
  using last_in_set [of "filter (\<lambda>i. exceeds width (imgs st ! i)) [0..<length (imgs st)]"]
  by (auto simp: image_to_display_eq Let_def)

lemma swap_to_eq:
  assumes "ref_index (lastActiveImage st) < length (imgs st)" "ref_index r < length (imgs st)"
  shows "swap_to r st = Inr (st\<lparr>imgs := map (\<lambda>i. (imgs st ! i)\<lparr>im_display :=
    (if i = ref_index r then ''block'' else if i = ref_index (lastActiveImage st) then ''none'' else im_display (imgs st ! i))\<rparr>)
    [0..<length (imgs st)]\<rparr>)"
proof -
  have "(imgs st)[a := (imgs st ! a)\<lparr>im_display := ''none''\<rparr>, b := ((imgs st)[a := (imgs st ! a)\<lparr>im_display := ''none''\<rparr>] ! b)\<lparr>im_display := ''block''\<rparr>]
    = map (\<lambda>i. (imgs st ! i)\<lparr>im_display := (if i = b then ''block'' else if i = a then ''none'' else im_display (imgs st ! i))\<rparr>) [0..<length (imgs st)]"
    if "a < length (imgs st)" "b < length (imgs st)" for a b
    using that by (intro nth_equalityI) (auto simp: nth_list_update)
  then show ?thesis using assms by (simp add: swap_to_def set_display_def idx_def)
qed

lemma set_src_eq: "i < length (imgs st) \<Longrightarrow> set_src i st = Inr (st\<lparr>imgs := (imgs st)[i := (imgs st ! i)\<lparr>im_src := im_source (imgs st ! i)\<rparr>]\<rparr>)"
  by (simp add: set_src_def idx_def)

lemma img_inv_check: "img_inv st \<Longrightarrow> \<exists>st'. check width st = Inr st' \<and> img_inv st'"
  using image_to_display_bound [of st width]
  by (auto simp: check_def img_inv_def swap_to_eq set_src_eq nth_list_update Let_def)

lemma img_inv_onload: "img_inv st \<Longrightarrow> ref_index r < length (imgs st) \<Longrightarrow> \<exists>st'. onload r st = Inr st' \<and> img_inv st'"
  by (auto simp: onload_def img_inv_def swap_to_eq set_src_eq nth_list_update)

definition is_default :: "child \<Rightarrow> bool" where
  "is_default ch = (is_img ch \<and> \<not> str_truthy (attr_or ch ''min-width'' ''data-min-width''))"

lemma no_img_no_default: "filter is_img chs = [] \<Longrightarrow> filter is_default chs = []"
  by (auto simp: filter_empty_conv is_default_def)

definition collected :: "child list \<Rightarrow> images" where
  "collected chs = fold collect_child chs \<lparr>imgs = [], defaultImageId = 0, lastActiveImage = IdxNum 0, loadedImages = [], loading = []\<rparr>"

lemma collected_snoc: "collected (chs @ [ch]) = collect_child ch (collected chs)"
  by (simp add: collected_def)

lemma collected_eq:
  "length (imgs (collected chs)) = length (filter is_img chs) \<and> loading (collected chs) = []
   \<and> (if filter is_img chs = [] then defaultImageId (collected chs) = 0 else defaultImageId (collected chs) < length (imgs (collected chs)))
   \<and> (filter is_default chs = [] \<longrightarrow> defaultImageId (collected chs) = 0 \<and> (\<forall>im \<in> set (imgs (collected chs)). im_display im = ''none''))
   \<and> (length (filter is_default chs) = 1 \<longrightarrow> (\<forall>i < length (imgs (collected chs)).
        (im_display (imgs (collected chs) ! i) = ''block'') = (i = defaultImageId (collected chs))))"
proof (induction chs rule: rev_induct)
  case Nil
  then show ?case by (simp add: collected_def)
next
  case (snoc ch chs)
  then show ?case using no_img_no_default [of chs]
    by (auto simp: collected_snoc collect_child_def is_default_def [of ch] nth_append less_Suc_eq Let_def split: if_splits)
qed

lemma collected_loaded: "loadedImages (collected chs) = []"
  by (induction chs rule: rev_induct) (simp_all add: collected_snoc collect_child_def Let_def, simp add: collected_def)

lemma exceeds_src [simp]: "exceeds width (im\<lparr>im_src := x\<rparr>) = exceeds width im"
  by (simp add: exceeds_def)

lemma image_to_display_src [simp]:
  "image_to_display w (st\<lparr>imgs := (imgs st)[k := (imgs st ! k)\<lparr>im_src := x\<rparr>]\<rparr>) = image_to_display w st"
proof -
  have "exceeds w ((imgs st)[k := (imgs st ! k)\<lparr>im_src := x\<rparr>] ! i) = exceeds w (imgs st ! i)" if "i < length (imgs st)" for i
    using that by (cases "i = k") simp_all
  then show ?thesis unfolding image_to_display_def by (intro fold_cong) auto
qed

lemma collect_images_eq: "collect_images chs = (collected chs)\<lparr>lastActiveImage := IdxNum (defaultImageId (collected chs))\<rparr>"
  by (simp add: collect_images_def collected_def Let_def)

lemma img_inv_collect: "length (filter is_default chs) = 1 \<Longrightarrow> img_inv (collect_images chs)"
proof -
  assume one: "length (filter is_default chs) = 1"
  then have "filter is_img chs \<noteq> []" using no_img_no_default [of chs] by force
  then show ?thesis using collected_eq [of chs] one by (simp add: collect_images_eq img_inv_def)
qed

lemma img_inv_run:
  assumes "img_step\<^sup>*\<^sup>* st st'" "img_inv st"
  shows "img_inv st'"
  using assms
proof (induction rule: rtranclp_induct)
  case (step st1 st2)
  from step(2) step(3) [OF step(4)] show ?case
  proof (cases rule: img_step.cases)
    case (img_check width)
    then show ?thesis using img_inv_check [of st1 width] step by auto
  next
    case (img_loaded us r vs)
    have "img_inv (st1\<lparr>loading := us @ vs\<rparr>)" "ref_index r < length (imgs st1)"
      using step(3) [OF step(4)] img_loaded(1) by (auto simp: img_inv_def)
    then show ?thesis using img_inv_onload [of "st1\<lparr>loading := us @ vs\<rparr>" r] img_loaded(2) by auto
  qed
qed

lemma filter_index: "a < n \<Longrightarrow> filter (\<lambda>i. i = a) [0..<n] = [a]"
  by (induction n) (auto simp: less_Suc_eq)

lemma shown_inv: "img_inv st \<Longrightarrow> shown st = [ref_index (lastActiveImage st)]"
proof -
  assume inv: "img_inv st"
  then have "shown st = filter (\<lambda>i. i = ref_index (lastActiveImage st)) [0..<length (imgs st)]"
    by (intro filter_cong) (auto simp: img_inv_def)
  then show ?thesis using inv by (simp add: img_inv_def filter_index)
qed


text \<open>
  C27. A load that completes late wins: when the width goes up and an image starts loading, and the
  width goes down again before it is there, the image is displayed nevertheless although the
  width asks for the default image.
\<close>

theorem stale_image_shown:
  assumes "length (filter is_default chs) = 1" "st = collect_images chs"
    and "image_to_display wide st = IdxStr i" "image_to_display narrow st = IdxNum (defaultImageId st)" "i \<noteq> defaultImageId st"
  shows "\<exists>st1 st2 st3. check wide st = Inr st1 \<and> check narrow st1 = Inr st2 \<and> loading st2 = [IdxStr i]
    \<and> onload (IdxStr i) (st2\<lparr>loading := []\<rparr>) = Inr st3
    \<and> shown st3 = [i] \<and> image_to_display narrow st2 = IdxNum (defaultImageId st)"
proof -
  have inv: "img_inv st" and st: "lastActiveImage st = IdxNum (defaultImageId st)" "loading st = []" "loadedImages st = []"
    using img_inv_collect [OF assms(1)] collected_eq [of chs] assms(2)
    by (simp_all add: collect_images_eq collected_loaded)
  have i: "i < length (imgs st)" using image_to_display_bound [of st wide] inv assms(3) by (simp add: img_inv_def)
  define st1 where "st1 = st\<lparr>loading := [IdxStr i]\<rparr>"
  have c1: "check wide st = Inr st1" using assms(3) st by (simp add: check_def st1_def Let_def)
  have inv1: "img_inv st1" "image_to_display narrow st1 = IdxNum (defaultImageId st)"
    using inv i assms(4) by (simp_all add: st1_def img_inv_def image_to_display_def)
  then obtain st2 where c2: "check narrow st1 = Inr st2" "img_inv st2" using img_inv_check by blast
  then have st2: "st2 = st1\<lparr>imgs := (imgs st1)[defaultImageId st := (imgs st1 ! defaultImageId st)\<lparr>im_src := im_source (imgs st1 ! defaultImageId st)\<rparr>]\<rparr>"
    using inv1 inv st by (simp add: check_def st1_def img_inv_def set_src_eq Let_def)
  have "img_inv (st2\<lparr>loading := []\<rparr>)" "i < length (imgs st2)" using c2(2) i by (simp_all add: img_inv_def st2 st1_def)
  then obtain st3 where c3: "onload (IdxStr i) (st2\<lparr>loading := []\<rparr>) = Inr st3" "img_inv st3"
    using img_inv_onload [of "st2\<lparr>loading := []\<rparr>" "IdxStr i"] by auto
  then have "lastActiveImage st3 = IdxStr i" by (auto simp: onload_def split: sum.splits)
  then have "shown st3 = [i]" using shown_inv [OF c3(2)] by simp
  moreover have "image_to_display narrow st2 = IdxNum (defaultImageId st)"
    using inv1(2) unfolding st2 by simp
  ultimately show ?thesis using c1 c2(1) c3(1) by (auto simp: st2 st1_def)
qed

text \<open>Attaching throws exactly when the element has no image among its children.\<close>

theorem attach_without_images:
  "attachResponsiveImage width chs = Inl TypeError \<longleftrightarrow> filter is_img chs = []"
proof (cases "filter is_img chs = []")
  case True
  then have "imgs (collect_images chs) = []" "defaultImageId (collect_images chs) = 0" "lastActiveImage (collect_images chs) = IdxNum 0"
    using collected_eq [of chs] by (simp_all add: collect_images_eq)
  then show ?thesis
    using True by (simp add: attachResponsiveImage_def check_def image_to_display_def set_src_def idx_def)
next
  case False
  let ?st = "collect_images chs"
  have "defaultImageId ?st < length (imgs ?st)" "loadedImages ?st = []"
    using collected_eq [of chs] False by (simp_all add: collect_images_eq collected_loaded)
  then show ?thesis using False image_to_display_bound [of ?st width]
    by (simp add: attachResponsiveImage_def check_def set_src_eq Let_def)
qed

definition example_children :: "child list" where
  "example_children = [\<lparr>ch_tag = ''IMG'', ch_attrs = [(''data-src'', ''small.jpg'')]\<rparr>,
     \<lparr>ch_tag = ''P'', ch_attrs = []\<rparr>,
     \<lparr>ch_tag = ''IMG'', ch_attrs = [(''min-width'', ''500''), (''data-src'', ''big.jpg'')]\<rparr>]"

lemma example_default: "length (filter is_default example_children) = 1"
  by (simp add: example_children_def is_default_def is_img_def attr_or_def str_truthy_def lower_char_def char_of_def bit_Suc_0_iff)

lemma number_500: "str_to_number ''500'' = Fin 500"
  by (simp add: str_to_number_def trim_def is_ws_def scan_signed_def scan_decimal_def is_digit_def digits_val_def digit_val_def Let_def)

lemmas images_eval = collect_images_def collect_child_def example_children_def is_img_def attr_or_def str_truthy_def lower_char_def char_of_def bit_Suc_0_iff
  image_to_display_def exceeds_def number_500 Let_def


theorem stale_image_shown_witness:
  "\<exists>st1 st2 st3. check (Fin 800) (collect_images example_children) = Inr st1 \<and> check (Fin 100) st1 = Inr st2
    \<and> onload (IdxStr 1) (st2\<lparr>loading := []\<rparr>) = Inr st3 \<and> shown st3 = [1]
    \<and> image_to_display (Fin 100) st2 = IdxNum 0"
proof -
  have "image_to_display (Fin 800) (collect_images example_children) = IdxStr 1"
    "image_to_display (Fin 100) (collect_images example_children) = IdxNum 0"
    "defaultImageId (collect_images example_children) = 0"
    by (simp_all add: images_eval upt_rec)
  then show ?thesis using stale_image_shown [OF example_default refl, of "Fin 800" 1 "Fin 100"] by auto
qed

end
