(* ===== verification/Resize_Sensor.thy ===== *)
theory Resize_Sensor
  imports JS_Values
begin

section \<open>ResizeSensor: noticing that an element changed its size\<close>

text \<open>
  \<open>ResizeSensor.js\<close>. The world holds what the script shares with the browser: per element its
  layout, its callback queue (\<open>resizedAttached\<close>) and its sensor, per sensor the variables that
  the closure of \<open>attachResizeEvent\<close> captures, and the queue of requested animation frames.
  \<open>0\<close> stands for the falsy values of \<open>rafId\<close> and \<open>lastAnimationFrame\<close>; frame handles start at 1.
  The browser's part is the step relation \<open>rs_step\<close>: it changes layouts, fires scroll events on
  sensors that are in the document, and runs the frames in order. A callback is known by its
  identity, and calling it is recorded; what a callback does to the queue that is calling it is
  the parameter \<open>beh\<close> of \<open>eq_call\<close>.
\<close>

named_theorems rs_simps \<comment> \<open>reading the world after an operation\<close>

type_synonym el = nat

type_synonym cb = nat

type_synonym sid = nat

subsection \<open>\<open>EventQueue\<close>\<close>

text \<open>The variables \<open>i\<close> and \<open>j\<close> are shared by \<open>call\<close> and \<open>remove\<close>.\<close>

record event_queue =
  q :: "cb list"
  qi :: nat
  qj :: nat

definition new_queue :: event_queue where
  "new_queue = \<lparr>q = [], qi = 0, qj = 0\<rparr>"

definition eq_add :: "cb \<Rightarrow> event_queue \<Rightarrow> event_queue" where
  "eq_add ev Q = Q\<lparr>q := q Q @ [ev]\<rparr>"

definition eq_remove :: "cb \<Rightarrow> event_queue \<Rightarrow> event_queue" where
  "eq_remove ev Q = Q\<lparr>q := filter (\<lambda>x. x \<noteq> ev) (q Q), qi := length (q Q), qj := length (q Q)\<rparr>"

definition eq_length :: "event_queue \<Rightarrow> nat" where
  "eq_length Q = length (q Q)"

text \<open>What a callback may do to the queue while it runs.\<close>

datatype qop = AddOp cb | RemoveOp cb

fun run_op :: "qop \<Rightarrow> event_queue \<Rightarrow> event_queue" where
  "run_op (AddOp ev) Q = eq_add ev Q"
| "run_op (RemoveOp ev) Q = eq_remove ev Q"

lemma run_ops_indices:
  "(qi (fold run_op ops Q), qj (fold run_op ops Q)) = (qi Q, qj Q) \<or> qi (fold run_op ops Q) = qj (fold run_op ops Q)"
proof (induction ops arbitrary: Q)
  case (Cons op ops)
  then show ?case using Cons [of "run_op op Q"] by (cases op) (auto simp: eq_add_def eq_remove_def)
qed simp

text \<open>The loop of \<open>call\<close>: the callbacks that were called, and the queue afterwards.\<close>

function call_loop :: "(cb \<Rightarrow> qop list) \<Rightarrow> event_queue \<Rightarrow> cb list \<Rightarrow> jserr + cb list \<times> event_queue" where
  "call_loop beh Q called =
     (if qi Q < qj Q then
        (case idx (q Q) (qi Q) of
           None \<Rightarrow> Inl TypeError
         | Some ev \<Rightarrow>
             (let Q' = fold run_op (beh ev) Q
              in call_loop beh (Q'\<lparr>qi := Suc (qi Q')\<rparr>) (called @ [ev])))
      else Inr (called, Q))"
  by pat_completeness auto
termination
proof (relation "measure (\<lambda>(beh, Q, called). qj Q - qi Q)")
  fix beh :: "cb \<Rightarrow> qop list" and Q ev Q' and called :: "cb list"
  assume "qi Q < qj Q" "Q' = fold run_op (beh ev) Q"
  then show "((beh, Q'\<lparr>qi := Suc (qi Q')\<rparr>, called @ [ev]), beh, Q, called) \<in> measure (\<lambda>(beh, Q, called). qj Q - qi Q)"
    using run_ops_indices [of "beh ev" Q] by auto
qed simp

declare call_loop.simps [simp del]

definition eq_call :: "(cb \<Rightarrow> qop list) \<Rightarrow> event_queue \<Rightarrow> jserr + cb list \<times> event_queue" where
  "eq_call beh Q = call_loop beh (Q\<lparr>qi := 0, qj := length (q Q)\<rparr>) []"

subsection \<open>The world\<close>

record size =
  sz_width :: jsnum
  sz_height :: jsnum

text \<open>\<open>bcr\<close> is the bounding rectangle, \<open>None\<close> where \<open>getBoundingClientRect\<close> is missing.\<close>

record layout =
  offsetWidth :: jsnum
  offsetHeight :: jsnum
  bcr :: "(jsnum \<times> jsnum) option"

record elem =
  lay :: layout
  computed_position :: "string option"
  style_position :: "string option"
  resizedAttached :: "event_queue option"
  resizeSensor :: "sid option"
  sensor_nodes :: "sid list" \<comment> \<open>sensors among the children of the element\<close>

record sensor =
  sn_owner :: el
  dirty :: bool
  rafId :: nat
  sn_size :: size
  lastWidth :: jsnum
  lastHeight :: jsnum
  initialHiddenCheck :: bool
  lastAnimationFrame :: nat
  expandChild :: "jsnum \<times> jsnum"
  expandScroll :: "jsnum \<times> jsnum"
  shrinkScroll :: "jsnum \<times> jsnum"

datatype task = Reset sid | Recheck sid | Resized sid

record world =
  elems :: "el \<Rightarrow> elem"
  sensors :: "sid \<Rightarrow> sensor"
  next_sensor :: sid
  next_frame :: nat
  frames :: "(nat \<times> task) list"
  calls :: "(el \<times> cb \<times> size) list"

definition set_elem :: "el \<Rightarrow> (elem \<Rightarrow> elem) \<Rightarrow> world \<Rightarrow> world" where
  "set_elem e f w = w\<lparr>elems := (elems w)(e := f (elems w e))\<rparr>"

definition set_sensor :: "sid \<Rightarrow> (sensor \<Rightarrow> sensor) \<Rightarrow> world \<Rightarrow> world" where
  "set_sensor s f w = w\<lparr>sensors := (sensors w)(s := f (sensors w s))\<rparr>"

definition requestAnimationFrame :: "task \<Rightarrow> world \<Rightarrow> nat \<times> world" where
  "requestAnimationFrame t w =
     (next_frame w, w\<lparr>next_frame := Suc (next_frame w), frames := frames w @ [(next_frame w, t)]\<rparr>)"

subsection \<open>Iterating over elements\<close>

text \<open>
  The argument of the constructor: \<open>null\<close> or \<open>undefined\<close>, or a value with its \<open>toString\<close>
  tag, whether it is an instance of jQuery and of the MooTools class \<open>Elements\<close>, its own identity,
  and the items found at the indices below its \<open>length\<close>. An element is a value with another tag.
\<close>

datatype tag = ArrayTag | NodeListTag | HTMLCollectionTag | ObjectTag | OtherTag

datatype elements = NoElements | Value tag bool bool el "el option list"

abbreviation element :: "el \<Rightarrow> elements" where
  "element e \<equiv> Value OtherTag False False e []"

abbreviation NodeList :: "el \<Rightarrow> el list \<Rightarrow> elements" where
  "NodeList self es \<equiv> Value NodeListTag False False self (map Some es)"

text \<open>The values \<open>forEachElement\<close> passes to its callback; reading \<open>length\<close> of nothing throws.\<close>

fun isCollectionTyped :: "elements \<Rightarrow> bool" where
  "isCollectionTyped NoElements = False"
| "isCollectionTyped (Value t jQuery moo e es) =
     (t \<in> {ArrayTag, NodeListTag, HTMLCollectionTag, ObjectTag} \<or> jQuery \<or> moo)"

fun visited :: "elements \<Rightarrow> jserr + el option list" where
  "visited NoElements = Inl TypeError"
| "visited (Value t jQuery moo e es) =
     Inr (if isCollectionTyped (Value t jQuery moo e es) then es else [Some e])"

fun for_each :: "('a \<Rightarrow> 's \<Rightarrow> jserr + 's) \<Rightarrow> 'a list \<Rightarrow> 's \<Rightarrow> jserr + 's" where
  "for_each f [] w = Inr w"
| "for_each f (x # xs) w = (case f x w of Inl err \<Rightarrow> Inl err | Inr w' \<Rightarrow> for_each f xs w')"

definition forEachElement :: "elements \<Rightarrow> (el option \<Rightarrow> world \<Rightarrow> jserr + world) \<Rightarrow> world \<Rightarrow> jserr + world" where
  "forEachElement es callback w =
     (case visited es of Inl err \<Rightarrow> Inl err | Inr items \<Rightarrow> for_each callback items w)"

subsection \<open>The sensor of an element\<close>

definition getElementSize :: "layout \<Rightarrow> size" where
  "getElementSize l =
     (case bcr l of
        None \<Rightarrow> \<lparr>sz_width = offsetWidth l, sz_height = offsetHeight l\<rparr>
      | Some (width, height) \<Rightarrow> \<lparr>sz_width = Math_round width, sz_height = Math_round height\<rparr>)"

abbreviation owner_layout :: "sid \<Rightarrow> world \<Rightarrow> layout" where
  "owner_layout s w \<equiv> lay (elems w (sn_owner (sensors w s)))"

definition resetExpandShrink :: "sid \<Rightarrow> world \<Rightarrow> world" where
  "resetExpandShrink s w =
     (let width = offsetWidth (owner_layout s w); height = offsetHeight (owner_layout s w)
      in set_sensor s (\<lambda>sn. sn\<lparr>expandChild := (width + Fin 10, height + Fin 10),
           expandScroll := (width + Fin 10, height + Fin 10),
           shrinkScroll := (width + Fin 10, height + Fin 10)\<rparr>) w)"

definition invisible :: "layout \<Rightarrow> bool" where
  "invisible l = (num_eq (offsetWidth l) (Fin 0) \<and> num_eq (offsetHeight l) (Fin 0))"

definition reset :: "sid \<Rightarrow> world \<Rightarrow> world" where
  "reset s w =
     (if initialHiddenCheck (sensors w s) then
        (if invisible (owner_layout s w) then
           (if lastAnimationFrame (sensors w s) = 0 then
              (let (h, w') = requestAnimationFrame (Recheck s) w
               in set_sensor s (\<lambda>sn. sn\<lparr>lastAnimationFrame := h\<rparr>) w')
            else w)
         else resetExpandShrink s (set_sensor s (\<lambda>sn. sn\<lparr>initialHiddenCheck := False\<rparr>) w))
      else resetExpandShrink s w)"

text \<open>Calling the queue of an element with a size; these callbacks leave the queue alone.\<close>

definition call_attached :: "el \<Rightarrow> size \<Rightarrow> world \<Rightarrow> world" where
  "call_attached e sz w =
     (case resizedAttached (elems w e) of
        None \<Rightarrow> w
      | Some Q \<Rightarrow>
          (case eq_call (\<lambda>_. []) Q of
             Inl _ \<Rightarrow> w
           | Inr (called, Q') \<Rightarrow>
               set_elem e (\<lambda>el. el\<lparr>resizedAttached := Some Q'\<rparr>)
                 (w\<lparr>calls := calls w @ map (\<lambda>c. (e, c, sz)) called\<rparr>)))"

definition onResized :: "sid \<Rightarrow> world \<Rightarrow> world" where
  "onResized s w =
     (let w1 = set_sensor s (\<lambda>sn. sn\<lparr>rafId := 0\<rparr>) w; sn = sensors w1 s
      in if \<not> dirty sn then w1
         else call_attached (sn_owner sn) (sn_size sn)
                (set_sensor s (\<lambda>sn. sn\<lparr>lastWidth := sz_width (sn_size sn), lastHeight := sz_height (sn_size sn)\<rparr>) w1))"

definition onScroll :: "sid \<Rightarrow> world \<Rightarrow> world" where
  "onScroll s w =
     (let sz = getElementSize (owner_layout s w);
          d = (\<not> num_eq (sz_width sz) (lastWidth (sensors w s)) \<or> \<not> num_eq (sz_height sz) (lastHeight (sensors w s)));
          w1 = set_sensor s (\<lambda>sn. sn\<lparr>sn_size := sz, dirty := d\<rparr>) w;
          w2 = (if d \<and> rafId (sensors w1 s) = 0 then
                  (let (h, w') = requestAnimationFrame (Resized s) w1
                   in set_sensor s (\<lambda>sn. sn\<lparr>rafId := h\<rparr>) w')
                else w1)
      in reset s w2)"

fun run_task :: "task \<Rightarrow> world \<Rightarrow> world" where
  "run_task (Reset s) w = reset s w"
| "run_task (Recheck s) w = reset s (set_sensor s (\<lambda>sn. sn\<lparr>lastAnimationFrame := 0\<rparr>) w)"
| "run_task (Resized s) w = onResized s w"

text \<open>The sensor is absolutely positioned, so its element must be a containing block.\<close>

definition fix_position :: "elem \<Rightarrow> elem" where
  "fix_position el =
     (if computed_position el \<notin> {Some ''absolute'', Some ''relative'', Some ''fixed''}
      then el\<lparr>style_position := Some ''relative'', computed_position := map_option (\<lambda>_. ''relative'') (computed_position el)\<rparr>
      else el)"

definition new_sensor :: "el \<Rightarrow> layout \<Rightarrow> sensor" where
  "new_sensor e l =
     (let sz = getElementSize l
      in \<lparr>sn_owner = e, dirty = False, rafId = 0, sn_size = sz, lastWidth = sz_width sz,
          lastHeight = sz_height sz, initialHiddenCheck = True, lastAnimationFrame = 0,
          expandChild = (Fin 0, Fin 0), expandScroll = (Fin 0, Fin 0), shrinkScroll = (Fin 0, Fin 0)\<rparr>)"

definition attachResizeEvent :: "cb \<Rightarrow> el option \<Rightarrow> world \<Rightarrow> jserr + world" where
  "attachResizeEvent resized eo w =
     (case eo of
        None \<Rightarrow> Inr w
      | Some e \<Rightarrow>
          (case resizedAttached (elems w e) of
             Some Q \<Rightarrow> Inr (set_elem e (\<lambda>el. el\<lparr>resizedAttached := Some (eq_add resized Q)\<rparr>) w)
           | None \<Rightarrow>
               (let s = next_sensor w;
                    w1 = set_elem e (\<lambda>el. fix_position (el\<lparr>resizedAttached := Some (eq_add resized new_queue),
                           resizeSensor := Some s, sensor_nodes := sensor_nodes el @ [s]\<rparr>)) w;
                    w2 = set_sensor s (\<lambda>_. new_sensor e (lay (elems w e))) (w1\<lparr>next_sensor := Suc s\<rparr>)
                in Inr (snd (requestAnimationFrame (Reset s) w2)))))"

definition ResizeSensor :: "elements \<Rightarrow> cb \<Rightarrow> world \<Rightarrow> jserr + world" where
  "ResizeSensor es callback w = forEachElement es (attachResizeEvent callback) w"

subsection \<open>Resetting and detaching\<close>

text \<open>\<open>elem.resizeSensor.resetSensor()\<close> throws when there is no element or no sensor.\<close>

definition resetSensor :: "el option \<Rightarrow> world \<Rightarrow> jserr + world" where
  "resetSensor eo w =
     (case eo of
        None \<Rightarrow> Inl TypeError
      | Some e \<Rightarrow> (case resizeSensor (elems w e) of None \<Rightarrow> Inl TypeError | Some s \<Rightarrow> Inr (reset s w)))"

definition ResizeSensor_reset :: "elements \<Rightarrow> world \<Rightarrow> jserr + world" where
  "ResizeSensor_reset es w = forEachElement es resetSensor w"

text \<open>The method \<open>reset\<close> of an instance reads \<open>resizeSensor\<close> of the constructor's argument itself.\<close>

fun instance_reset :: "elements \<Rightarrow> world \<Rightarrow> jserr + world" where
  "instance_reset NoElements w = Inl TypeError"
| "instance_reset (Value t jQuery moo e es) w = resetSensor (Some e) w"

text \<open>Taking the sensor out of the document and forgetting it together with the callbacks.\<close>

definition drop_sensor :: "elem \<Rightarrow> elem" where
  "drop_sensor el =
     (case resizeSensor el of
        None \<Rightarrow> el
      | Some s \<Rightarrow>
          (let el1 = (if s \<in> set (sensor_nodes el) then el\<lparr>sensor_nodes := remove1 s (sensor_nodes el)\<rparr> else el)
           in el1\<lparr>resizeSensor := None, resizedAttached := None\<rparr>))"

text \<open>\<open>ev\<close> is \<open>None\<close> where the second argument is not a function.\<close>

definition detach_elem :: "cb option \<Rightarrow> elem \<Rightarrow> elem" where
  "detach_elem ev el =
     (case (resizedAttached el, ev) of
        (Some Q, Some c) \<Rightarrow>
          (let Q' = eq_remove c Q; el1 = el\<lparr>resizedAttached := Some Q'\<rparr>
           in if eq_length Q' \<noteq> 0 then el1 else drop_sensor el1)
      | _ \<Rightarrow> drop_sensor el)"

definition detach1 :: "cb option \<Rightarrow> el option \<Rightarrow> world \<Rightarrow> jserr + world" where
  "detach1 ev eo w = (case eo of None \<Rightarrow> Inr w | Some e \<Rightarrow> Inr (set_elem e (detach_elem ev) w))"

definition ResizeSensor_detach :: "elements \<Rightarrow> cb option \<Rightarrow> world \<Rightarrow> jserr + world" where
  "ResizeSensor_detach es ev w = forEachElement es (detach1 ev) w"

text \<open>Nodes added to the document: those that carry a sensor get it reset.\<close>

definition observe_added :: "el list list \<Rightarrow> world \<Rightarrow> jserr + world" where
  "observe_added mutations w =
     for_each (for_each (\<lambda>e w. if resizeSensor (elems w e) \<noteq> None then ResizeSensor_reset (element e) w else Inr w))
       mutations w"

subsection \<open>The browser\<close>

datatype rs_event =
    Attach el cb
  | Detach el "cb option"
  | ResetCall el
  | Relayout el layout
  | Cleared el \<comment> \<open>the page empties the element, and its sensor node goes with the children\<close>
  | Scrolled sid
  | Frame

inductive rs_step :: "world \<Rightarrow> rs_event \<Rightarrow> world \<Rightarrow> bool" where
  step_attach: "attachResizeEvent c (Some e) w = Inr w' \<Longrightarrow> rs_step w (Attach e c) w'"
| step_detach: "detach1 ev (Some e) w = Inr w' \<Longrightarrow> rs_step w (Detach e ev) w'"
| step_reset: "resetSensor (Some e) w = Inr w' \<Longrightarrow> rs_step w (ResetCall e) w'"
| step_layout: "rs_step w (Relayout e l) (set_elem e (\<lambda>el. el\<lparr>lay := l\<rparr>) w)"
| step_cleared: "rs_step w (Cleared e) (set_elem e (\<lambda>el. el\<lparr>sensor_nodes := []\<rparr>) w)"
| step_scroll: "s \<in> set (sensor_nodes (elems w (sn_owner (sensors w s)))) \<Longrightarrow> rs_step w (Scrolled s) (onScroll s w)"
| step_frame: "frames w = (h, t) # fs \<Longrightarrow> rs_step w Frame (run_task t (w\<lparr>frames := fs\<rparr>))"

inductive_cases rs_stepE: "rs_step w ev w'"

text \<open>Runs, with the events in order.\<close>

inductive rs_run :: "world \<Rightarrow> rs_event list \<Rightarrow> world \<Rightarrow> bool" where
  run_nil: "rs_run w [] w"
| run_cons: "rs_step w ev w1 \<Longrightarrow> rs_run w1 evs w2 \<Longrightarrow> rs_run w (ev # evs) w2"

text \<open>A page before any sensor is attached.\<close>

definition fresh_world :: "world \<Rightarrow> bool" where
  "fresh_world w =
     ((\<forall>e. resizedAttached (elems w e) = None \<and> resizeSensor (elems w e) = None \<and> sensor_nodes (elems w e) = [])
      \<and> (\<forall>s. rafId (sensors w s) = 0 \<and> lastAnimationFrame (sensors w s) = 0)
      \<and> next_sensor w = 0 \<and> next_frame w = 1 \<and> frames w = [] \<and> calls w = [])"

subsection \<open>The event queue\<close>

fun removes :: "qop \<Rightarrow> bool" where
  "removes (RemoveOp _) = True"
| "removes (AddOp _) = False"

fun added :: "qop list \<Rightarrow> cb list" where
  "added [] = []"
| "added (AddOp ev # ops) = ev # added ops"
| "added (RemoveOp ev # ops) = added ops"

lemma run_ops_add: "list_all (\<lambda>op. \<not> removes op) ops \<Longrightarrow> fold run_op ops Q = Q\<lparr>q := q Q @ added ops\<rparr>"
proof (induction ops arbitrary: Q)
  case (Cons op ops)
  then show ?case by (cases op) (auto simp: eq_add_def)
qed simp

lemma run_ops_remove:
  "list_ex removes ops \<Longrightarrow> qi (fold run_op ops Q) = qj (fold run_op ops Q)"
proof (induction ops arbitrary: Q)
  case (Cons op ops)
  show ?case
  proof (cases op)
    case (RemoveOp ev)
    then show ?thesis using run_ops_indices [of ops "eq_remove ev Q"] by (auto simp: eq_remove_def)
  qed (use Cons in auto)
qed simp

lemma call_loop_prefix:
  assumes "list_all (\<lambda>c. list_all (\<lambda>op. \<not> removes op) (beh c)) pre"
    and "q Q = xs @ pre @ post" "qi Q = length xs" "length xs + length pre \<le> qj Q"
  shows "call_loop beh Q called =
    call_loop beh (Q\<lparr>q := q Q @ concat (map (\<lambda>c. added (beh c)) pre), qi := length xs + length pre\<rparr>) (called @ pre)"
  using assms
proof (induction pre arbitrary: Q xs called post)
  case Nil
  then have "Q\<lparr>q := q Q @ concat (map (\<lambda>c. added (beh c)) []), qi := length xs + length []\<rparr> = Q"
    by simp
  then show ?case by simp
next
  case (Cons c pre)
  let ?Q = "Q\<lparr>q := q Q @ added (beh c), qi := Suc (length xs)\<rparr>"
  have step: "call_loop beh Q called = call_loop beh ?Q (called @ [c])"
    using Cons.prems by (subst call_loop.simps) (simp add: idx_def run_ops_add)
  show ?case
    unfolding step using Cons.prems
    by (subst Cons.IH [of ?Q "xs @ [c]" "post @ added (beh c)"]) simp_all
qed

lemma eq_call_quiet:
  assumes "list_all (\<lambda>c. list_all (\<lambda>op. \<not> removes op) (beh c)) (q Q)"
  shows "eq_call beh Q = Inr (q Q, Q\<lparr>q := q Q @ concat (map (\<lambda>c. added (beh c)) (q Q)), qi := length (q Q), qj := length (q Q)\<rparr>)"
  using assms unfolding eq_call_def
  by (subst call_loop_prefix [where xs = "[]" and post = "[]" and pre = "q Q"]) (simp_all add: call_loop.simps)

lemma eq_call_plain: "eq_call (\<lambda>_. []) Q = Inr (q Q, Q\<lparr>qi := length (q Q), qj := length (q Q)\<rparr>)"
proof -
  have "concat (map (\<lambda>c. added []) (q Q)) = []" by (induction "q Q") simp_all
  then show ?thesis by (subst eq_call_quiet) (simp_all add: list_all_iff)
qed

lemma eq_call_interrupted:
  assumes "q Q = pre @ c # post" "list_all (\<lambda>c. list_all (\<lambda>op. \<not> removes op) (beh c)) pre"
    and "list_ex removes (beh c)"
  shows "\<exists>Q'. eq_call beh Q = Inr (pre @ [c], Q')"
proof -
  let ?Q = "Q\<lparr>q := q Q @ concat (map (\<lambda>c. added (beh c)) pre), qi := length pre, qj := length (q Q)\<rparr>"
  have "eq_call beh Q = call_loop beh ?Q pre"
    unfolding eq_call_def using assms(1,2)
    by (cases Q, subst call_loop_prefix [where xs = "[]" and post = "c # post" and pre = pre]) simp_all
  also have "\<dots> = Inr (pre @ [c], (fold run_op (beh c) ?Q)\<lparr>qi := Suc (qi (fold run_op (beh c) ?Q))\<rparr>)"
    using assms run_ops_remove [OF assms(3), of ?Q]
    by (subst call_loop.simps, simp add: idx_def nth_append Let_def) (subst call_loop.simps, simp)
  finally show ?thesis by blast
qed

text \<open>
  C20. Calling the queue never throws. When no callback removes one, all callbacks are called
  once and in the order in which they were added, and those added meanwhile wait for the next
  call. But as soon as one callback removes any callback, the callbacks behind it are not called:
  \<open>call\<close> and \<open>remove\<close> share their loop variables.
\<close>

theorem event_queue_call:
  "(list_all (\<lambda>c. list_all (\<lambda>op. \<not> removes op) (beh c)) (q Q) \<longrightarrow>
      (\<exists>Q'. eq_call beh Q = Inr (q Q, Q') \<and> q Q' = q Q @ concat (map (\<lambda>c. added (beh c)) (q Q))))
   \<and> (\<forall>pre c post. q Q = pre @ c # post \<and> list_all (\<lambda>c. list_all (\<lambda>op. \<not> removes op) (beh c)) pre
        \<and> list_ex removes (beh c) \<longrightarrow> (\<exists>Q'. eq_call beh Q = Inr (pre @ [c], Q')))"
  using eq_call_quiet [of beh Q] eq_call_interrupted [of Q _ _ _ beh] by auto

definition example_queue :: event_queue where
  "example_queue = eq_add 3 (eq_add 2 (eq_add 1 new_queue))"

definition detaching :: "cb \<Rightarrow> qop list" where
  "detaching c = (if c = 2 then [RemoveOp 2] else [AddOp 7])"

theorem event_queue_call_witness:
  "(\<exists>Q'. eq_call (\<lambda>_. [AddOp 7]) example_queue = Inr ([1, 2, 3], Q') \<and> q Q' = [1, 2, 3, 7, 7, 7])
   \<and> (\<exists>Q'. eq_call detaching example_queue = Inr ([1, 2], Q'))"
proof -
  have q: "q example_queue = [1, 2, 3]"
    by (simp add: example_queue_def eq_add_def new_queue_def)
  have "q example_queue = [1] @ 2 # [3]" "list_ex removes (detaching 2)"
    "list_all (\<lambda>c. list_all (\<lambda>op. \<not> removes op) (detaching c)) [1]"
    by (simp_all add: q detaching_def)
  then have "\<exists>Q'. eq_call detaching example_queue = Inr ([1] @ [2], Q')"
    using event_queue_call [of detaching example_queue] by blast
  then show ?thesis
    using event_queue_call [of "\<lambda>_. [AddOp 7]" example_queue] by (simp add: q)
qed

subsection \<open>The invariant of the world\<close>

fun sensor_of :: "task \<Rightarrow> sid" where
  "sensor_of (Reset s) = s"
| "sensor_of (Recheck s) = s"
| "sensor_of (Resized s) = s"

text \<open>The handles of the requested frames that will run a task.\<close>

definition pending :: "task \<Rightarrow> world \<Rightarrow> nat list" where
  "pending t w = map fst (filter (\<lambda>f. snd f = t) (frames w))"

abbreviation handle_list :: "nat \<Rightarrow> nat list" where
  "handle_list h \<equiv> (if h = 0 then [] else [h])"

text \<open>The variables that hold a handle agree with the frames that are requested.\<close>

definition frames_inv :: "world \<Rightarrow> bool" where
  "frames_inv w =
     ((\<forall>s. pending (Resized s) w = handle_list (rafId (sensors w s)))
      \<and> (\<forall>s. pending (Recheck s) w = handle_list (lastAnimationFrame (sensors w s)))
      \<and> list_all (\<lambda>(h, t). sensor_of t < next_sensor w) (frames w)
      \<and> 0 < next_frame w)"

text \<open>An element with callbacks has one sensor, which knows it; one without has none.\<close>

definition el_ok :: "sid \<Rightarrow> (sid \<Rightarrow> el) \<Rightarrow> el \<Rightarrow> elem \<Rightarrow> bool" where
  "el_ok n owner e el =
     ((resizeSensor el = None \<and> resizedAttached el = None \<and> sensor_nodes el = [])
      \<or> (\<exists>s Q. resizeSensor el = Some s \<and> resizedAttached el = Some Q \<and> s < n \<and> owner s = e
           \<and> q Q \<noteq> [] \<and> (sensor_nodes el = [] \<or> sensor_nodes el = [s])))"

abbreviation elem_ok :: "world \<Rightarrow> el \<Rightarrow> bool" where
  "elem_ok w e \<equiv> el_ok (next_sensor w) (\<lambda>s. sn_owner (sensors w s)) e (elems w e)"

definition rs_inv :: "world \<Rightarrow> bool" where
  "rs_inv w = (frames_inv w \<and> (\<forall>e. elem_ok w e))"

lemma set_elem_sel [simp, rs_simps]:
  "elems (set_elem e f w) e' = (if e' = e then f (elems w e) else elems w e')"
  "sensors (set_elem e f w) = sensors w" "next_sensor (set_elem e f w) = next_sensor w"
  "next_frame (set_elem e f w) = next_frame w" "frames (set_elem e f w) = frames w"
  "calls (set_elem e f w) = calls w"
  by (simp_all add: set_elem_def)

lemma set_sensor_sel [simp, rs_simps]:
  "sensors (set_sensor s g w) s' = (if s' = s then g (sensors w s) else sensors w s')"
  "elems (set_sensor s g w) = elems w" "next_sensor (set_sensor s g w) = next_sensor w"
  "next_frame (set_sensor s g w) = next_frame w" "frames (set_sensor s g w) = frames w"
  "calls (set_sensor s g w) = calls w"
  by (simp_all add: set_sensor_def)

lemma reset_sel [simp, rs_simps]:
  "elems (reset s w) = elems w" "next_sensor (reset s w) = next_sensor w" "calls (reset s w) = calls w"
  "sn_owner (sensors (reset s w) s') = sn_owner (sensors w s')"
  "rafId (sensors (reset s w) s') = rafId (sensors w s')"
  "sn_size (sensors (reset s w) s') = sn_size (sensors w s')"
  "dirty (sensors (reset s w) s') = dirty (sensors w s')"
  "lastWidth (sensors (reset s w) s') = lastWidth (sensors w s')"
  "lastHeight (sensors (reset s w) s') = lastHeight (sensors w s')"
  by (simp_all add: reset_def resetExpandShrink_def requestAnimationFrame_def Let_def)

lemma call_attached_eq:
  "call_attached e sz w =
     (case resizedAttached (elems w e) of
        None \<Rightarrow> w
      | Some Q \<Rightarrow> set_elem e (\<lambda>el. el\<lparr>resizedAttached := Some (Q\<lparr>qi := length (q Q), qj := length (q Q)\<rparr>)\<rparr>)
          (w\<lparr>calls := calls w @ map (\<lambda>c. (e, c, sz)) (q Q)\<rparr>))"
  by (cases "resizedAttached (elems w e)") (simp_all add: call_attached_def eq_call_plain)

lemma pending_sel [simp]:
  "pending t (set_elem e f w) = pending t w" "pending t (set_sensor s g w) = pending t w"
  "pending t (w\<lparr>calls := cs\<rparr>) = pending t w"
  by (simp_all add: pending_def)

lemma frames_inv_set_elem [simp]: "frames_inv (set_elem e f w) = frames_inv w"
  by (simp add: frames_inv_def)

lemma frames_inv_calls [simp]: "frames_inv (w\<lparr>calls := cs\<rparr>) = frames_inv w"
  by (simp add: frames_inv_def)

lemma frames_inv_set_sensor [simp]:
  assumes "rafId (g (sensors w s)) = rafId (sensors w s)"
    and "lastAnimationFrame (g (sensors w s)) = lastAnimationFrame (sensors w s)"
  shows "frames_inv (set_sensor s g w) = frames_inv w"
proof -
  have "rafId (sensors (set_sensor s g w) s') = rafId (sensors w s')"
    "lastAnimationFrame (sensors (set_sensor s g w) s') = lastAnimationFrame (sensors w s')" for s'
    using assms by simp_all
  then show ?thesis by (simp only: frames_inv_def pending_sel set_sensor_sel)
qed

lemma frames_inv_call_attached [simp]: "frames_inv (call_attached e sz w) = frames_inv w"
  by (simp add: call_attached_eq split: option.split)

lemma frames_inv_reset: "frames_inv w \<Longrightarrow> s < next_sensor w \<Longrightarrow> frames_inv (reset s w)"
  by (auto simp: reset_def resetExpandShrink_def requestAnimationFrame_def Let_def)
     (auto simp: frames_inv_def pending_def)

lemma frames_inv_request_resized:
  assumes "frames_inv w" "s < next_sensor w" "rafId (sensors w s) = 0"
  shows "frames_inv (set_sensor s (\<lambda>sn. sn\<lparr>rafId := next_frame w\<rparr>)
    (w\<lparr>next_frame := Suc (next_frame w), frames := frames w @ [(next_frame w, Resized s)]\<rparr>))"
  using assms by (auto simp: frames_inv_def pending_def)

lemma frames_inv_onScroll:
  assumes "frames_inv w" "s < next_sensor w"
  shows "frames_inv (onScroll s w)"
proof -
  let ?w1 = "\<lambda>sz d. set_sensor s (\<lambda>sn. sn\<lparr>sn_size := sz, dirty := d\<rparr>) w"
  have "frames_inv (set_sensor s (\<lambda>sn. sn\<lparr>rafId := next_frame (?w1 sz d)\<rparr>)
       ((?w1 sz d)\<lparr>next_frame := Suc (next_frame (?w1 sz d)), frames := frames (?w1 sz d) @ [(next_frame (?w1 sz d), Resized s)]\<rparr>))"
    if "rafId (sensors w s) = 0" for sz d
    using assms that by (intro frames_inv_request_resized) simp_all
  then show ?thesis
    unfolding onScroll_def Let_def requestAnimationFrame_def using assms
    by (auto intro!: frames_inv_reset)
qed

lemma frames_inv_run_task:
  assumes "frames_inv w" "frames w = (h, t) # fs"
  shows "frames_inv (run_task t (w\<lparr>frames := fs\<rparr>))"
proof (cases t)
  case (Reset s)
  have "frames_inv (w\<lparr>frames := fs\<rparr>)" "s < next_sensor w"
    using assms Reset by (simp_all add: frames_inv_def pending_def)
  then show ?thesis using Reset by (simp add: frames_inv_reset)
next
  case (Recheck s)
  have "frames_inv (set_sensor s (\<lambda>sn. sn\<lparr>lastAnimationFrame := 0\<rparr>) (w\<lparr>frames := fs\<rparr>))" "s < next_sensor w"
    using assms Recheck by (auto simp: frames_inv_def pending_def split: if_splits)
  then show ?thesis using Recheck by (simp add: frames_inv_reset)
next
  case (Resized s)
  have "frames_inv (set_sensor s (\<lambda>sn. sn\<lparr>rafId := 0\<rparr>) (w\<lparr>frames := fs\<rparr>))"
    using assms Resized by (auto simp: frames_inv_def pending_def split: if_splits)
  then show ?thesis using Resized by (simp add: onResized_def Let_def)
qed

lemma onScroll_sel [simp, rs_simps]:
  "elems (onScroll s w) = elems w" "next_sensor (onScroll s w) = next_sensor w" "calls (onScroll s w) = calls w"
  "sn_owner (sensors (onScroll s w) s') = sn_owner (sensors w s')"
  "lastWidth (sensors (onScroll s w) s') = lastWidth (sensors w s')"
  "lastHeight (sensors (onScroll s w) s') = lastHeight (sensors w s')"
  "s' \<noteq> s \<Longrightarrow> rafId (sensors (onScroll s w) s') = rafId (sensors w s')"
  "s' \<noteq> s \<Longrightarrow> dirty (sensors (onScroll s w) s') = dirty (sensors w s')"
  "s' \<noteq> s \<Longrightarrow> sn_size (sensors (onScroll s w) s') = sn_size (sensors w s')"
  by (simp_all add: onScroll_def requestAnimationFrame_def Let_def)

lemma el_ok_mono:
  "el_ok n owner e el \<Longrightarrow> n \<le> n' \<Longrightarrow> (\<And>s. s < n \<Longrightarrow> owner' s = owner s) \<Longrightarrow> el_ok n' owner' e el"
  by (auto simp: el_ok_def)

lemma el_ok_layout [simp]: "el_ok n owner e (el\<lparr>lay := l\<rparr>) = el_ok n owner e el"
  by (simp add: el_ok_def)

lemma el_ok_cleared: "el_ok n owner e el \<Longrightarrow> el_ok n owner e (el\<lparr>sensor_nodes := []\<rparr>)"
  by (auto simp: el_ok_def)

lemma el_ok_queue:
  "el_ok n owner e el \<Longrightarrow> resizedAttached el = Some Q \<Longrightarrow> q Q' \<noteq> [] \<Longrightarrow>
   el_ok n owner e (el\<lparr>resizedAttached := Some Q'\<rparr>)"
  by (auto simp: el_ok_def)

lemma el_ok_drop:
  "el_ok n owner e el \<Longrightarrow> resizedAttached el = Some Q \<Longrightarrow> el_ok n owner e (drop_sensor (el\<lparr>resizedAttached := x\<rparr>))"
  "el_ok n owner e el \<Longrightarrow> el_ok n owner e (drop_sensor el)"
  by (auto simp: el_ok_def drop_sensor_def)

lemma el_ok_detach: "el_ok n owner e el \<Longrightarrow> el_ok n owner e (detach_elem ev el)"
  by (simp add: detach_elem_def el_ok_drop eq_length_def Let_def split: option.split)
     (auto intro: el_ok_queue)

lemma el_ok_nonempty: "el_ok n owner e el \<Longrightarrow> resizedAttached el = Some Q \<Longrightarrow> q Q \<noteq> []"
  by (auto simp: el_ok_def)

lemma el_ok_sensor: "el_ok n owner e el \<Longrightarrow> s \<in> set (sensor_nodes el) \<Longrightarrow> s < n \<and> resizeSensor el = Some s"
  by (auto simp: el_ok_def)

lemma owner_run_task [simp]: "sn_owner (sensors (run_task t w) s) = sn_owner (sensors w s)"
  by (cases t) (simp_all add: onResized_def call_attached_eq Let_def split: option.split)

lemma next_sensor_run_task [simp]: "next_sensor (run_task t w) = next_sensor w"
  by (cases t) (simp_all add: onResized_def call_attached_eq Let_def split: option.split)

lemma el_ok_run_task: "el_ok n owner e (elems w e) \<Longrightarrow> el_ok n owner e (elems (run_task t w) e)"
  by (cases t)
     (auto simp: onResized_def call_attached_eq Let_def el_ok_def split: option.split)

lemma fix_position_sel [simp, rs_simps]:
  "lay (fix_position el) = lay el" "resizedAttached (fix_position el) = resizedAttached el"
  "resizeSensor (fix_position el) = resizeSensor el" "sensor_nodes (fix_position el) = sensor_nodes el"
  by (simp_all add: fix_position_def)

lemma new_sensor_sel [simp, rs_simps]:
  "sn_owner (new_sensor e l) = e" "rafId (new_sensor e l) = 0" "lastAnimationFrame (new_sensor e l) = 0"
  "dirty (new_sensor e l) = False"
  by (simp_all add: new_sensor_def Let_def)

text \<open>Sensors that do not exist yet hold no handles.\<close>

lemma frames_inv_fresh:
  assumes "frames_inv w" "next_sensor w \<le> s"
  shows "rafId (sensors w s) = 0" "lastAnimationFrame (sensors w s) = 0"
proof -
  have "sensor_of (snd f) < next_sensor w" if "f \<in> set (frames w)" for f
    using assms(1) that by (auto simp: frames_inv_def list_all_iff)
  then have "pending (Resized s) w = []" "pending (Recheck s) w = []"
    using assms(2) by (fastforce simp: pending_def filter_empty_conv)+
  then show "rafId (sensors w s) = 0" "lastAnimationFrame (sensors w s) = 0"
    using assms(1) by (auto simp: frames_inv_def split: if_splits)
qed

lemma attach_new_sel:
  assumes "resizedAttached (elems w e) = None" "attachResizeEvent c (Some e) w = Inr w'"
  shows "sensors w' = (sensors w)(next_sensor w := new_sensor e (lay (elems w e)))"
    and "elems w' = (elems w)(e := fix_position ((elems w e)\<lparr>resizedAttached := Some (eq_add c new_queue),
      resizeSensor := Some (next_sensor w), sensor_nodes := sensor_nodes (elems w e) @ [next_sensor w]\<rparr>))"
    and "frames w' = frames w @ [(next_frame w, Reset (next_sensor w))]" "next_frame w' = Suc (next_frame w)"
    and "next_sensor w' = Suc (next_sensor w)" "calls w' = calls w"
  using assms by (auto simp: attachResizeEvent_def requestAnimationFrame_def Let_def set_elem_def set_sensor_def)

lemma rs_inv_attach:
  assumes "rs_inv w" "attachResizeEvent c (Some e) w = Inr w'"
  shows "rs_inv w'"
proof (cases "resizedAttached (elems w e)")
  case (Some Q)
  then show ?thesis using assms
    by (auto simp: attachResizeEvent_def rs_inv_def eq_add_def intro!: el_ok_queue)
next
  case None
  note new = attach_new_sel [OF None assms(2)]
  have inv: "frames_inv w" "\<And>e. elem_ok w e" using assms(1) by (simp_all add: rs_inv_def)
  have "resizeSensor (elems w e) = None" "sensor_nodes (elems w e) = []"
    using inv(2) [of e] None by (auto simp: el_ok_def)
  then have "elem_ok w' e" by (simp add: new el_ok_def eq_add_def)
  moreover have "elem_ok w' e'" if "e' \<noteq> e" for e'
    using that by (simp add: new) (rule el_ok_mono [OF inv(2)], simp_all)
  moreover have "sensor_of t < Suc (next_sensor w)" if "(h, t) \<in> set (frames w)" for h t
    using inv(1) that by (force simp: frames_inv_def list_all_iff)
  then have "frames_inv w'"
    using inv(1) frames_inv_fresh [OF inv(1) order_refl]
    by (auto simp: new frames_inv_def pending_def list_all_iff)
  ultimately show ?thesis unfolding rs_inv_def by metis
qed

lemma rs_inv_step: "rs_step w ev w' \<Longrightarrow> rs_inv w \<Longrightarrow> rs_inv w'"
proof (induction rule: rs_step.induct)
  case (step_attach c e w w')
  then show ?case by (rule rs_inv_attach [rotated])
next
  case (step_detach ev e w w')
  then show ?case by (auto simp: detach1_def rs_inv_def el_ok_detach)
next
  case (step_reset e w w')
  then obtain s where s: "resizeSensor (elems w e) = Some s" and w': "w' = reset s w"
    by (auto simp: resetSensor_def split: option.splits)
  have "s < next_sensor w" using step_reset.prems s by (auto simp: rs_inv_def el_ok_def elim!: allE [of _ e])
  then show ?case using step_reset.prems w' by (simp add: rs_inv_def frames_inv_reset)
next
  case (step_layout w e l)
  then show ?case by (simp add: rs_inv_def)
next
  case (step_cleared w e)
  then show ?case by (simp add: rs_inv_def el_ok_cleared)
next
  case (step_scroll s w)
  then have "s < next_sensor w" by (auto simp: rs_inv_def dest: el_ok_sensor)
  then show ?case using step_scroll by (simp add: rs_inv_def frames_inv_onScroll)
next
  case (step_frame w h t fs)
  then show ?case by (simp add: rs_inv_def frames_inv_run_task el_ok_run_task)
qed

lemma rs_inv_run: "rs_run w evs w' \<Longrightarrow> rs_inv w \<Longrightarrow> rs_inv w'"
  by (induction rule: rs_run.induct) (auto intro: rs_inv_step)

lemma rs_inv_fresh: "fresh_world w \<Longrightarrow> rs_inv w"
  by (simp add: fresh_world_def rs_inv_def frames_inv_def el_ok_def pending_def)


subsection \<open>Reporting sizes\<close>

definition changed :: "sensor \<Rightarrow> bool" where
  "changed sn = (\<not> num_eq (sz_width (sn_size sn)) (lastWidth sn) \<or> \<not> num_eq (sz_height (sn_size sn)) (lastHeight sn))"

text \<open>While a report is requested, \<open>dirty\<close> says whether there is something to report.\<close>

definition dirty_inv :: "world \<Rightarrow> bool" where
  "dirty_inv w = (\<forall>s. rafId (sensors w s) \<noteq> 0 \<longrightarrow> dirty (sensors w s) = changed (sensors w s))"

lemma changed_reset [simp]: "changed (sensors (reset s w) s') = changed (sensors w s')"
  by (simp add: changed_def)

lemma dirty_onScroll [simp]: "dirty (sensors (onScroll s w) s) = changed (sensors (onScroll s w) s)"
  by (simp add: onScroll_def changed_def requestAnimationFrame_def Let_def)

lemma changed_onScroll [simp]: "s' \<noteq> s \<Longrightarrow> changed (sensors (onScroll s w) s') = changed (sensors w s')"
  by (simp add: changed_def)

lemma call_attached_sel [simp, rs_simps]:
  "sensors (call_attached e sz w) = sensors w" "frames (call_attached e sz w) = frames w"
  by (simp_all add: call_attached_eq split: option.split)

lemma onResized_sensors:
  "s' \<noteq> s \<Longrightarrow> sensors (onResized s w) s' = sensors w s'" "rafId (sensors (onResized s w) s) = 0"
  "dirty (sensors w s) \<Longrightarrow> lastWidth (sensors (onResized s w) s) = sz_width (sn_size (sensors w s))"
  "dirty (sensors w s) \<Longrightarrow> lastHeight (sensors (onResized s w) s) = sz_height (sn_size (sensors w s))"
  by (simp_all add: onResized_def Let_def)

lemma dirty_inv_run_task: "dirty_inv w \<Longrightarrow> dirty_inv (run_task t (w\<lparr>frames := fs\<rparr>))"
proof (cases t)
  case (Resized s)
  assume "dirty_inv w"
  then have "rafId (sensors (run_task t (w\<lparr>frames := fs\<rparr>)) s') \<noteq> 0 \<Longrightarrow>
      dirty (sensors (run_task t (w\<lparr>frames := fs\<rparr>)) s') = changed (sensors (run_task t (w\<lparr>frames := fs\<rparr>)) s')" for s'
    using Resized by (cases "s' = s") (simp_all add: dirty_inv_def onResized_sensors)
  then show ?thesis by (simp add: dirty_inv_def)
qed (auto simp: dirty_inv_def changed_def)

lemma dirty_inv_step: "rs_step w ev w' \<Longrightarrow> dirty_inv w \<Longrightarrow> dirty_inv w'"
proof (induction rule: rs_step.induct)
  case (step_attach c e w w')
  then show ?case
    by (cases "resizedAttached (elems w e)")
       (auto simp: dirty_inv_def attach_new_sel, auto simp: attachResizeEvent_def)
next
  case (step_scroll s w)
  have "rafId (sensors (onScroll s w) s') \<noteq> 0 \<Longrightarrow> dirty (sensors (onScroll s w) s') = changed (sensors (onScroll s w) s')" for s'
    using step_scroll by (cases "s' = s") (simp_all add: dirty_inv_def)
  then show ?case by (simp add: dirty_inv_def)
qed (auto simp: dirty_inv_def detach1_def resetSensor_def dirty_inv_run_task [unfolded dirty_inv_def] split: option.splits)

lemma dirty_inv_run: "rs_run w evs w' \<Longrightarrow> dirty_inv w \<Longrightarrow> dirty_inv w'"
  by (induction rule: rs_run.induct) (auto intro: dirty_inv_step)

lemma dirty_inv_fresh: "fresh_world w \<Longrightarrow> dirty_inv w"
  by (simp add: fresh_world_def dirty_inv_def)

lemma calls_onResized:
  "calls (onResized s w) = calls w @
     (case resizedAttached (elems w (sn_owner (sensors w s))) of
        Some Q \<Rightarrow> if dirty (sensors w s) then map (\<lambda>c. (sn_owner (sensors w s), c, sn_size (sensors w s))) (q Q) else []
      | None \<Rightarrow> [])"
  by (simp add: onResized_def call_attached_eq Let_def split: option.split)

lemma calls_run_task:
  "calls (run_task t w) = calls w @
     (case t of
        Resized s \<Rightarrow>
          (case resizedAttached (elems w (sn_owner (sensors w s))) of
             Some Q \<Rightarrow> if dirty (sensors w s) then map (\<lambda>c. (sn_owner (sensors w s), c, sn_size (sensors w s))) (q Q) else []
           | None \<Rightarrow> [])
      | _ \<Rightarrow> [])"
  by (cases t) (simp_all add: calls_onResized)

lemma calls_step: "rs_step w ev w' \<Longrightarrow> ev \<noteq> Frame \<Longrightarrow> calls w' = calls w"
  by (induction rule: rs_step.induct)
     (auto simp: attachResizeEvent_def detach1_def resetSensor_def requestAnimationFrame_def Let_def split: option.splits)


lemma frames_reset: "\<exists>ys. frames (reset s w) = frames w @ ys"
  by (simp add: reset_def resetExpandShrink_def requestAnimationFrame_def Let_def)

lemma frames_run_task: "\<exists>ys. frames (run_task t w) = frames w @ ys"
  using frames_reset by (cases t) (simp_all add: onResized_def Let_def, metis set_sensor_sel(5))

text \<open>A scroll event on a resized element leaves a report at most one place behind the old frames.\<close>

lemma report_requested:
  assumes "frames_inv w"
    and "\<not> num_eq (sz_width sz) (lastWidth (sensors w s)) \<or> \<not> num_eq (sz_height sz) (lastHeight (sensors w s))"
    and "sz = getElementSize (owner_layout s w)"
  shows "\<exists>i h. i \<le> length (frames w) \<and> i < length (frames (onScroll s w)) \<and> frames (onScroll s w) ! i = (h, Resized s)"
proof (cases "rafId (sensors w s) = 0")
  case True
  then obtain w2 where "onScroll s w = reset s w2" "frames w2 = frames w @ [(next_frame w, Resized s)]"
    using assms(2,3) by (auto simp: onScroll_def requestAnimationFrame_def Let_def)
  then obtain ys where "frames (onScroll s w) = (frames w @ [(next_frame w, Resized s)]) @ ys"
    using frames_reset [of s w2] by auto
  then show ?thesis
    by (rule_tac x = "length (frames w)" in exI, rule_tac x = "next_frame w" in exI) (simp add: nth_append)
next
  case False
  then have "pending (Resized s) w \<noteq> []" using assms(1) by (simp add: frames_inv_def)
  then obtain f where "f \<in> set (frames w)" "snd f = Resized s" by (auto simp: pending_def filter_empty_conv)
  then obtain i where i: "i < length (frames w)" "snd (frames w ! i) = Resized s" by (auto simp: in_set_conv_nth)
  obtain w2 where "onScroll s w = reset s w2" "frames w2 = frames w"
    using False by (auto simp: onScroll_def Let_def)
  then obtain ys where "frames (onScroll s w) = frames w @ ys"
    using frames_reset [of s w2] by auto
  then show ?thesis using i
    by (rule_tac x = i in exI, rule_tac x = "fst (frames w ! i)" in exI) (simp add: nth_append prod_eq_iff)
qed

lemma run_task_other:
  assumes "t \<noteq> Resized s"
  shows "dirty (sensors (run_task t w) s) = dirty (sensors w s)" "sn_size (sensors (run_task t w) s) = sn_size (sensors w s)"
  using assms by (cases t; cases "sensor_of t = s"; simp add: onResized_sensors)+

lemma run_task_queue:
  assumes "resizedAttached (elems w e) = Some Q"
  shows "\<exists>Q'. resizedAttached (elems (run_task t w) e) = Some Q' \<and> q Q' = q Q"
  using assms by (cases t) (auto simp: onResized_def call_attached_eq Let_def split: option.split)

text \<open>A requested report is delivered when its frame comes up, with the size measured last.\<close>

lemma report_delivered:
  assumes "k < length (frames w)" "frames w ! k = (h, Resized s)" "\<And>i h'. i < k \<Longrightarrow> frames w ! i \<noteq> (h', Resized s)"
    and "dirty (sensors w s)" "resizedAttached (elems w (sn_owner (sensors w s))) = Some Q"
  shows "\<exists>w' mid. rs_run w (replicate (Suc k) Frame) w'
    \<and> calls w' = calls w @ mid @ map (\<lambda>c. (sn_owner (sensors w s), c, sn_size (sensors w s))) (q Q)"
  using assms
proof (induction k arbitrary: w Q)
  case 0
  then obtain fs where f: "frames w = (h, Resized s) # fs" by (cases "frames w") auto
  have "rs_run w [Frame] (run_task (Resized s) (w\<lparr>frames := fs\<rparr>))"
    by (rule run_cons [OF step_frame [of w, OF f] run_nil])
  then show ?case using 0 by (auto simp: calls_onResized intro!: exI [of _ "[]"] exI [of _ "onResized s (w\<lparr>frames := fs\<rparr>)"])
next
  case (Suc k)
  then obtain h0 t0 fs where f: "frames w = (h0, t0) # fs" by (cases "frames w") auto
  let ?w = "run_task t0 (w\<lparr>frames := fs\<rparr>)"
  have t0: "t0 \<noteq> Resized s" using Suc.prems(3) [of 0] f by auto
  obtain ys where ys: "frames ?w = fs @ ys" using frames_run_task [of t0 "w\<lparr>frames := fs\<rparr>"] by auto
  obtain Q' where Q': "resizedAttached (elems ?w (sn_owner (sensors w s))) = Some Q'" "q Q' = q Q"
    using run_task_queue [of "w\<lparr>frames := fs\<rparr>" _ Q t0] Suc.prems(5) by auto
  have "frames ?w ! i \<noteq> (h', Resized s)" if "i < k" for i h'
    using Suc.prems(1) Suc.prems(3) [of "Suc i" h'] that by (simp add: f ys nth_append)
  then obtain w' mid where w': "rs_run ?w (replicate (Suc k) Frame) w'"
    "calls w' = calls ?w @ mid @ map (\<lambda>c. (sn_owner (sensors w s), c, sn_size (sensors w s))) (q Q)"
    using Suc.IH [of ?w Q'] Suc.prems t0 Q' by (auto simp: f ys nth_append run_task_other)
  have "rs_run w (replicate (Suc (Suc k)) Frame) w'"
    using run_cons [OF step_frame [of w, OF f] w'(1)] by simp
  then show ?case using w'(2) by (auto simp: calls_run_task)
qed

lemma resize_delivered:
  assumes "fresh_world w0" "rs_run w0 evs w"
    and "s \<in> set (sensor_nodes (elems w e))" "resizedAttached (elems w e) = Some Q"
    and "sz = getElementSize (lay (elems w e))"
    and "\<not> num_eq (sz_width sz) (lastWidth (sensors w s)) \<or> \<not> num_eq (sz_height sz) (lastHeight (sensors w s))"
  shows "\<exists>n w' mid. n \<le> Suc (length (frames w)) \<and> rs_run w (Scrolled s # replicate n Frame) w'
    \<and> calls w' = calls w @ mid @ map (\<lambda>c. (e, c, sz)) (q Q)"
proof -
  have inv: "frames_inv w" "elem_ok w e"
    using rs_inv_run [OF assms(2) rs_inv_fresh [OF assms(1)]] by (simp_all add: rs_inv_def)
  have own: "sn_owner (sensors w s) = e" "s < next_sensor w" using inv(2) assms(3) by (auto simp: el_ok_def)
  let ?w = "onScroll s w"
  have d: "dirty (sensors ?w s)" "sn_size (sensors ?w s) = sz"
    using assms(5,6) own by (simp_all add: onScroll_def requestAnimationFrame_def Let_def)
  define P where "P = (\<lambda>i. i < length (frames ?w) \<and> snd (frames ?w ! i) = Resized s)"
  obtain i where i: "i \<le> length (frames w)" "P i"
    using report_requested [OF inv(1), of sz s] assms(5,6) own by (auto simp: P_def)
  define k where "k = (LEAST i. P i)"
  have k: "k < length (frames ?w)" "frames ?w ! k = (fst (frames ?w ! k), Resized s)"
    using LeastI [of P i] i(2) by (auto simp: k_def P_def prod_eq_iff)
  have first: "frames ?w ! i \<noteq> (h', Resized s)" if "i < k" for i h'
    using not_less_Least [of i P] that k(1) by (auto simp: k_def P_def)
  have kn: "k \<le> length (frames w)" using Least_le [of P i] i by (simp add: k_def)
  obtain w' mid where w': "rs_run ?w (replicate (Suc k) Frame) w'"
    "calls w' = calls ?w @ mid @ map (\<lambda>c. (e, c, sz)) (q Q)"
    using report_delivered [OF k first, of Q] d own assms(4) by auto
  have "rs_run w (Scrolled s # replicate (Suc k) Frame) w'"
    using run_cons [OF step_scroll w'(1)] assms(3) own by simp
  then show ?thesis using w'(2) kn by (intro exI [of _ "Suc k"] exI [of _ w'] exI [of _ mid]) simp
qed


subsection \<open>Detaching\<close>

lemma detach_elem_None: "el_ok n owner e el \<Longrightarrow> detach_elem None el = el\<lparr>sensor_nodes := [], resizeSensor := None, resizedAttached := None\<rparr>"
  by (cases el) (auto simp: detach_elem_def drop_sensor_def el_ok_def)

lemma silent_step:
  assumes "rs_step w ev w'" "resizedAttached (elems w e) = None" "\<And>c. ev \<noteq> Attach e c"
  shows "resizedAttached (elems w' e) = None \<and> filter (\<lambda>(e', _). e' = e) (calls w') = filter (\<lambda>(e', _). e' = e) (calls w)"
  using assms
proof (induction rule: rs_step.induct)
  case (step_attach c e' w w')
  then have "e' \<noteq> e" by blast
  then show ?case using step_attach
    by (auto simp: attachResizeEvent_def requestAnimationFrame_def Let_def split: option.splits)
next
  case (step_detach ev e w w')
  then show ?case by (auto simp: detach1_def detach_elem_def drop_sensor_def split: option.split)
next
  case (step_reset e w w')
  then show ?case by (auto simp: resetSensor_def split: option.splits)
next
  case (step_frame w h t fs)
  then show ?case
    by (cases t) (auto simp: onResized_def call_attached_eq Let_def split: option.split)
qed auto

lemma silent_run:
  assumes "rs_run w evs w'" "resizedAttached (elems w e) = None" "\<And>c. Attach e c \<notin> set evs"
  shows "filter (\<lambda>(e', _). e' = e) (calls w') = filter (\<lambda>(e', _). e' = e) (calls w)"
  using assms
proof (induction rule: rs_run.induct)
  case (run_cons w ev w1 evs w2)
  have "ev \<noteq> Attach e c" "Attach e c \<notin> set evs" for c using run_cons.prems(2) [of c] by auto
  then show ?case using run_cons silent_step [of w ev w1 e] by simp
qed simp


definition callbacks :: "elem \<Rightarrow> cb list" where
  "callbacks el = (case resizedAttached el of None \<Rightarrow> [] | Some Q \<Rightarrow> q Q)"

lemma filter_fresh: "c \<notin> set xs \<Longrightarrow> filter (\<lambda>x. x \<noteq> c) xs = xs"
  by (induction xs) auto

text \<open>
  Attaching a new callback and detaching it again restores the element: where it was the
  only callback, the sensor is gone; where there were others, these are kept in order and so is
  the sensor. No other element changes.
\<close>

theorem attach_detach:
  assumes "fresh_world w0" "rs_run w0 evs w" "c \<notin> set (callbacks (elems w e))"
    and "rs_run w [Attach e c, Detach e (Some c)] w'"
  shows "callbacks (elems w' e) = callbacks (elems w e) \<and> resizeSensor (elems w' e) = resizeSensor (elems w e)
    \<and> sensor_nodes (elems w' e) = sensor_nodes (elems w e) \<and> (e' = e \<or> elems w' e' = elems w e')"
proof -
  have ok: "elem_ok w e" using rs_inv_run [OF assms(2) rs_inv_fresh [OF assms(1)]] by (simp add: rs_inv_def)
  obtain w1 where w1: "attachResizeEvent c (Some e) w = Inr w1" "w' = set_elem e (detach_elem (Some c)) w1"
    using assms(4) by (auto simp: detach1_def elim!: rs_run.cases [of w] rs_run.cases [of _ "[_]"] rs_run.cases [of _ "[]"] rs_stepE)
  show ?thesis
  proof (cases "resizedAttached (elems w e)")
    case None
    then show ?thesis using ok
      by (auto simp: w1(2) attach_new_sel [OF None w1(1)] el_ok_def callbacks_def detach_elem_def drop_sensor_def
          eq_add_def eq_remove_def eq_length_def new_queue_def Let_def)
  next
    case (Some Q)
    then have "w1 = set_elem e (\<lambda>el. el\<lparr>resizedAttached := Some (eq_add c Q)\<rparr>) w" "c \<notin> set (q Q)" "q Q \<noteq> []"
      using w1(1) assms(3) ok by (auto simp: attachResizeEvent_def callbacks_def el_ok_def)
    then show ?thesis using Some
      by (simp add: w1(2) callbacks_def detach_elem_def eq_add_def eq_remove_def eq_length_def filter_fresh Let_def)
  qed
qed

subsection \<open>The sensors as a registry of observers\<close>

text \<open>
  What the clients of the sensors rely on: observers are listed per element, registering appends,
  unregistering removes one observer or all of them, and other elements are not affected.
\<close>

locale observer_registry =
  fixes observers :: "'w \<Rightarrow> 'e \<Rightarrow> 'c list"
    and observe :: "'e \<Rightarrow> 'c \<Rightarrow> 'w \<Rightarrow> 'w"
    and unobserve :: "'e \<Rightarrow> 'c option \<Rightarrow> 'w \<Rightarrow> 'w"
    and good :: "'w \<Rightarrow> bool"
  assumes observe_good: "good w \<Longrightarrow> good (observe e c w)"
    and unobserve_good: "good w \<Longrightarrow> good (unobserve e ev w)"
    and observers_observe: "good w \<Longrightarrow> observers (observe e c w) e' = (if e' = e then observers w e @ [c] else observers w e')"
    and observers_unobserve: "good w \<Longrightarrow> observers (unobserve e (Some c) w) e' = (if e' = e then filter (\<lambda>x. x \<noteq> c) (observers w e) else observers w e')"
    and observers_clear: "good w \<Longrightarrow> observers (unobserve e None w) e' = (if e' = e then [] else observers w e')"
begin

lemma observe_many:
  "good w \<Longrightarrow> good (fold (observe e) cs w) \<and> observers (fold (observe e) cs w) e = observers w e @ cs"
  by (induction cs arbitrary: w) (simp_all add: observe_good observers_observe)

lemma observe_each:
  "good w \<Longrightarrow> distinct es \<Longrightarrow>
   good (fold (\<lambda>e. observe e c) es w) \<and>
   observers (fold (\<lambda>e. observe e c) es w) e' = observers w e' @ (if e' \<in> set es then [c] else [])"
  by (induction es arbitrary: w) (auto simp: observe_good observers_observe)

lemma clear_each:
  "good w \<Longrightarrow>
   good (fold (\<lambda>e. unobserve e None) es w) \<and>
   observers (fold (\<lambda>e. unobserve e None) es w) e' = (if e' \<in> set es then [] else observers w e')"
  by (induction es arbitrary: w) (auto simp: unobserve_good observers_clear)

end

text \<open>Operations on the world that cannot throw, as functions.\<close>

definition run_attach :: "el \<Rightarrow> cb \<Rightarrow> world \<Rightarrow> world" where
  "run_attach e c w = (case attachResizeEvent c (Some e) w of Inr w' \<Rightarrow> w' | Inl _ \<Rightarrow> w)"

definition run_detach :: "el \<Rightarrow> cb option \<Rightarrow> world \<Rightarrow> world" where
  "run_detach e ev w = set_elem e (detach_elem ev) w"

abbreviation sensor_callbacks :: "world \<Rightarrow> el \<Rightarrow> cb list" where
  "sensor_callbacks w e \<equiv> callbacks (elems w e)"

lemma attach_total: "attachResizeEvent c (Some e) w = Inr (run_attach e c w)"
  by (simp add: run_attach_def attachResizeEvent_def Let_def split: option.split)

lemma callbacks_attach:
  "callbacks (elems (run_attach e c w) e') = (if e' = e then callbacks (elems w e) @ [c] else callbacks (elems w e'))"
proof (cases "resizedAttached (elems w e)")
  case None
  then show ?thesis
    using attach_new_sel(2) [OF None attach_total] by (simp add: callbacks_def eq_add_def new_queue_def)
next
  case (Some Q)
  then show ?thesis by (simp add: run_attach_def attachResizeEvent_def callbacks_def eq_add_def)
qed

lemma callbacks_detach:
  "el_ok n owner e el \<Longrightarrow>
   callbacks (detach_elem ev el) = (case ev of None \<Rightarrow> [] | Some c \<Rightarrow> filter (\<lambda>x. x \<noteq> c) (callbacks el))"
  by (auto simp: el_ok_def callbacks_def detach_elem_def drop_sensor_def eq_remove_def eq_length_def Let_def
      split: option.split)

interpretation registry: observer_registry sensor_callbacks run_attach run_detach rs_inv
proof unfold_locales
  fix w e c ev e'
  assume inv: "rs_inv w"
  show "rs_inv (run_attach e c w)" using inv attach_total by (rule rs_inv_attach)
  show "rs_inv (run_detach e ev w)"
    using inv by (simp add: run_detach_def rs_inv_def el_ok_detach)
  show "sensor_callbacks (run_attach e c w) e' = (if e' = e then sensor_callbacks w e @ [c] else sensor_callbacks w e')"
    by (rule callbacks_attach)
  have ok: "elem_ok w e" using inv by (simp add: rs_inv_def)
  show "sensor_callbacks (run_detach e (Some c) w) e' = (if e' = e then filter (\<lambda>x. x \<noteq> c) (sensor_callbacks w e) else sensor_callbacks w e')"
    by (simp add: run_detach_def callbacks_detach [OF ok])
  show "sensor_callbacks (run_detach e None w) e' = (if e' = e then [] else sensor_callbacks w e')"
    by (simp add: run_detach_def callbacks_detach [OF ok])
qed

text \<open>The registry an element is meant to have after a sequence of events.\<close>

fun registry_step :: "el \<Rightarrow> rs_event \<Rightarrow> cb list \<Rightarrow> cb list" where
  "registry_step e (Attach e' c) cs = (if e' = e then cs @ [c] else cs)"
| "registry_step e (Detach e' None) cs = (if e' = e then [] else cs)"
| "registry_step e (Detach e' (Some c)) cs = (if e' = e then filter (\<lambda>x. x \<noteq> c) cs else cs)"
| "registry_step e _ cs = cs"

lemma callbacks_run_task: "callbacks (elems (run_task t w) e) = callbacks (elems w e)"
  by (cases t) (simp_all add: onResized_def call_attached_eq callbacks_def Let_def split: option.split)

lemma registry_simulation:
  assumes "rs_step w ev w'" "rs_inv w"
  shows "callbacks (elems w' e) = registry_step e ev (callbacks (elems w e))"
  using assms
proof (induction rule: rs_step.induct)
  case (step_attach c e' w w')
  then show ?case by (auto simp: attach_total callbacks_attach)
next
  case (step_detach ev e' w w')
  then have "w' = run_detach e' ev w" by (simp add: detach1_def run_detach_def)
  then show ?case
    using step_detach by (cases ev) (auto simp: registry.observers_unobserve registry.observers_clear)
next
  case (step_frame w h t fs)
  then show ?case by (simp add: callbacks_run_task)
qed (auto simp: callbacks_def resetSensor_def split: option.splits)

text \<open>
  C1. The sensors implement a plain registry: after any run, the callbacks of an element are
  those that attaching and detaching leave in a list kept per element; resets, layout changes,
  scroll events and frames do not matter, and no two elements interfere.
\<close>

theorem sensors_refine_registry:
  assumes "fresh_world w0" "rs_run w0 evs w"
  shows "callbacks (elems w e) = fold (registry_step e) evs []"
proof -
  have "callbacks (elems w e) = fold (registry_step e) evs (callbacks (elems w1 e))"
    if "rs_run w1 evs w" "rs_inv w1" for w1
    using that by (induction rule: rs_run.induct) (simp_all add: registry_simulation rs_inv_step)
  moreover have "callbacks (elems w0 e) = []" using assms(1) by (simp add: fresh_world_def callbacks_def)
  ultimately show ?thesis using assms rs_inv_fresh by simp
qed

subsection \<open>An example page\<close>

text \<open>The step relation is a function: the next world, if the event can happen.\<close>

fun rs_exec :: "rs_event \<Rightarrow> world \<Rightarrow> world option" where
  "rs_exec (Attach e c) w = Some (run_attach e c w)"
| "rs_exec (Detach e ev) w = Some (run_detach e ev w)"
| "rs_exec (ResetCall e) w = (case resetSensor (Some e) w of Inl _ \<Rightarrow> None | Inr w' \<Rightarrow> Some w')"
| "rs_exec (Relayout e l) w = Some (set_elem e (\<lambda>el. el\<lparr>lay := l\<rparr>) w)"
| "rs_exec (Cleared e) w = Some (set_elem e (\<lambda>el. el\<lparr>sensor_nodes := []\<rparr>) w)"
| "rs_exec (Scrolled s) w = (if s \<in> set (sensor_nodes (elems w (sn_owner (sensors w s)))) then Some (onScroll s w) else None)"
| "rs_exec Frame w = (case frames w of [] \<Rightarrow> None | (h, t) # fs \<Rightarrow> Some (run_task t (w\<lparr>frames := fs\<rparr>)))"

fun rs_exec_all :: "rs_event list \<Rightarrow> world \<Rightarrow> world option" where
  "rs_exec_all [] w = Some w"
| "rs_exec_all (ev # evs) w = (case rs_exec ev w of None \<Rightarrow> None | Some w' \<Rightarrow> rs_exec_all evs w')"

lemma rs_exec_step: "rs_exec ev w = Some w' \<longleftrightarrow> rs_step w ev w'"
  by (cases ev; simp add: rs_step.simps attach_total detach1_def run_detach_def eq_commute [of w'] split: sum.split list.split)

lemma rs_exec_run: "rs_exec_all evs w = Some w' \<longleftrightarrow> rs_run w evs w'"
proof (induction evs arbitrary: w)
  case Nil
  then show ?case by (auto intro: run_nil elim: rs_run.cases)
next
  case (Cons ev evs)
  have "rs_run w (ev # evs) w' \<longleftrightarrow> (\<exists>w1. rs_step w ev w1 \<and> rs_run w1 evs w')"
    by (auto intro: run_cons elim: rs_run.cases)
  then show ?case using Cons by (auto simp: rs_exec_step [symmetric] split: option.split)
qed

definition box :: "real \<Rightarrow> real \<Rightarrow> layout" where
  "box x y = \<lparr>offsetWidth = Fin x, offsetHeight = Fin y, bcr = None\<rparr>"

definition page :: world where
  "page = \<lparr>elems = (\<lambda>e. \<lparr>lay = box 100 50, computed_position = Some ''static'', style_position = None,
       resizedAttached = None, resizeSensor = None, sensor_nodes = []\<rparr>),
     sensors = (\<lambda>s. (new_sensor 0 (box 0 0))), next_sensor = 0, next_frame = 1, frames = [], calls = []\<rparr>"

lemma fresh_page: "fresh_world page"
  by (simp add: fresh_world_def page_def)

lemmas rs_eval = run_attach_def run_detach_def attachResizeEvent_def requestAnimationFrame_def set_elem_def set_sensor_def
  new_sensor_def getElementSize_def fix_position_def new_queue_def eq_add_def reset_def resetExpandShrink_def
  invisible_def onScroll_def onResized_def call_attached_eq page_def box_def Let_def

definition resized_page :: world where
  "resized_page = the (rs_exec_all [Attach 0 7, Frame, Relayout 0 (box 300 50)] page)"

lemma resized_run: "rs_run page [Attach 0 7, Frame, Relayout 0 (box 300 50)] resized_page"
  by (simp add: rs_exec_run [symmetric] resized_page_def rs_eval)

lemma resized_page_eval:
  "sensor_nodes (elems resized_page 0) = [0]" "lay (elems resized_page 0) = box 300 50" "calls resized_page = []"
  "frames resized_page = []" "sn_owner (sensors resized_page 0) = 0"
  "lastWidth (sensors resized_page 0) = Fin 100" "callbacks (elems resized_page 0) = [7]"
  by (simp_all add: resized_page_def callbacks_def rs_eval)

definition scrolled_page :: world where
  "scrolled_page = the (rs_exec_all [Attach 0 7, Frame, Relayout 0 (box 300 50), Scrolled 0] page)"

lemma scrolled_run: "rs_run page [Attach 0 7, Frame, Relayout 0 (box 300 50), Scrolled 0] scrolled_page"
  by (simp add: rs_exec_run [symmetric] scrolled_page_def rs_eval)

lemma resized_page_queue: "resizedAttached (elems resized_page 0) = Some \<lparr>q = [7], qi = 0, qj = 0\<rparr>"
  by (simp add: resized_page_def rs_eval)





theorem attach_detach_witness:
  "\<exists>w'. rs_run resized_page [Attach 0 9, Detach 0 (Some 9)] w' \<and> callbacks (elems w' 0) = [7]"
proof -
  have "\<exists>w'. rs_exec_all [Attach 0 9, Detach 0 (Some 9)] resized_page = Some w'"
    by simp
  then obtain w' where w': "rs_run resized_page [Attach 0 9, Detach 0 (Some 9)] w'"
    unfolding rs_exec_run by blast
  show ?thesis using attach_detach [OF fresh_page resized_run _ w'] w' by (auto simp: resized_page_eval)
qed

theorem sensors_refine_registry_witness: "callbacks (elems resized_page 0) = [7]"
  using sensors_refine_registry [OF fresh_page resized_run, of 0] by simp

end
