(* ===== verification/Element_Queries.thy ===== *)
theory Element_Queries
  imports Element_Rules Responsive_Images Resize_Sensor
begin

section \<open>ElementQueries: applying the queries to elements\<close>

text \<open>
  \<open>ElementQueries.js\<close>, the part that works on elements: converting lengths, \<open>SetupInformation\<close>
  with its method \<open>call\<close>, \<open>setupElement\<close>, \<open>findElementQueriesElements\<close>, \<open>init\<close> with the
  \<open>animationstart\<close> handler, \<open>update\<close> and \<open>detach\<close>. Elements carry a sensor of
  \<open>Resize_Sensor\<close>; a callback given to it is a new function each time, so it gets a new number.
  What the layout and style engine computes is the parameter \<open>css_env\<close>: font sizes, the
  viewport, the running animation of an element, the minimal width of its sensor, and the query
  functions that are available.
\<close>

named_theorems eq_simps \<comment> \<open>reading the state after an operation\<close>

subsection \<open>Lengths\<close>

record css_env =
  fontSize :: "el \<Rightarrow> string"
  rootFontSize :: string
  clientWidth :: jsnum
  clientHeight :: jsnum
  animation_name :: "el \<Rightarrow> string"
  sensor_min_width :: "el \<Rightarrow> string"
  query_functions :: "(string \<Rightarrow> el list) option list" \<comment> \<open>\<open>querySelectorAll\<close>, \<open>$$\<close>, \<open>jQuery\<close>\<close>

definition getEmSize :: "css_env \<Rightarrow> el option \<Rightarrow> jsnum" where
  "getEmSize env eo =
     (let size = parse_float (case eo of None \<Rightarrow> rootFontSize env | Some e \<Rightarrow> fontSize env e)
      in if num_truthy size then size else Fin 16)"

text \<open>The last piece of \<open>value.split(/\d/)\<close>: what follows the last digit.\<close>

definition units_of :: "string \<Rightarrow> string" where
  "units_of value = rev (takeWhile (\<lambda>c. \<not> is_digit c) (rev value))"

definition convertToPx :: "css_env \<Rightarrow> el \<Rightarrow> string \<Rightarrow> jsnum" where
  "convertToPx env e text =
     (let units = units_of text; value = parse_float text;
          vw = clientWidth env / Fin 100; vh = clientHeight env / Fin 100
      in if units = ''px'' then value
         else if units = ''em'' then value * getEmSize env (Some e)
         else if units = ''rem'' then value * getEmSize env None
         else if units = ''vw'' then value * clientWidth env / Fin 100
         else if units = ''vh'' then value * clientHeight env / Fin 100
         else if units = ''vmin'' then value * Math_min [vw, vh]
         else if units = ''vmax'' then value * Math_max [vw, vh]
         else value)"

subsection \<open>The attributes of an element\<close>

definition query_attr :: "query \<Rightarrow> string" where
  "query_attr qu = qu_mode qu @ ''-'' @ qu_property qu"

definition actual_value :: "size \<Rightarrow> query \<Rightarrow> jsnum" where
  "actual_value sz qu = (if qu_property qu = ''width'' then sz_width sz else sz_height sz)"

definition lookup :: "(string \<times> string) list \<Rightarrow> string \<Rightarrow> string" where
  "lookup av k = (case map_of av k of None \<Rightarrow> [] | Some v \<Rightarrow> v)"

text \<open>One round of the loop of \<open>call\<close> over the queries.\<close>

definition attr_step :: "css_env \<Rightarrow> el \<Rightarrow> size \<Rightarrow> query \<Rightarrow> (string \<times> string) list \<Rightarrow> (string \<times> string) list" where
  "attr_step env e sz qu attrValues =
     (let value = convertToPx env e (qu_value qu);
          actual = actual_value sz qu;
          attrName = query_attr qu;
          attrValue = (if qu_mode qu = ''min'' \<and> value \<le> actual then qu_value qu else [])
                    @ (if qu_mode qu = ''max'' \<and> actual \<le> value then qu_value qu else []);
          current = lookup attrValues attrName
      in AList.update attrName
           (if attrValue \<noteq> [] \<and> \<not> occurs_in ('' '' @ attrValue @ '' '') ('' '' @ current @ '' '')
            then current @ '' '' @ attrValue else current) attrValues)"

definition attr_values :: "css_env \<Rightarrow> el \<Rightarrow> size \<Rightarrow> query list \<Rightarrow> (string \<times> string) list" where
  "attr_values env e sz qs = fold (attr_step env e sz) qs []"

definition attribute_names :: "string list" where
  "attribute_names = [''min-width'', ''min-height'', ''max-width'', ''max-height'']"

text \<open>Setting the four attributes, or removing them where no query applies.\<close>

definition set_attributes :: "(string \<times> string) list \<Rightarrow> (string \<times> string) list \<Rightarrow> (string \<times> string) list" where
  "set_attributes attrValues attrs =
     fold (\<lambda>k attrs. if lookup attrValues k \<noteq> [] then AList.update k (drop 1 (lookup attrValues k)) attrs
                     else AList.delete k attrs) attribute_names attrs"

subsection \<open>The state of the page\<close>

text \<open>What the functions given to the sensors do.\<close>

datatype action = CallSetup | CheckImages

record eq_world =
  rsw :: world
  rls :: rules_state
  setupInformation :: "el \<Rightarrow> string option option" \<comment> \<open>\<open>Some id\<close>: built for the selector \<open>id\<close>\<close>
  queriesSensor :: "el \<Rightarrow> bool"
  resizeSensorInstance :: "el \<Rightarrow> bool"
  attributes :: "el \<Rightarrow> (string \<times> string) list"
  next_cb :: cb
  actions :: "cb \<Rightarrow> action"
  image_sets :: "el \<Rightarrow> images"
  defaultCssInjected :: bool
  listeners :: nat \<comment> \<open>registered \<open>animationstart\<close> handlers\<close>

abbreviation elem_size :: "eq_world \<Rightarrow> el \<Rightarrow> size" where
  "elem_size W e \<equiv> getElementSize (lay (elems (rsw W) e))"

text \<open>\<open>allQueries[id]\<close> for the selector the setup information was built for.\<close>

definition setup_queries :: "eq_world \<Rightarrow> string option \<Rightarrow> query list" where
  "setup_queries W ido = (case ido of None \<Rightarrow> [] | Some sel \<Rightarrow> queries_of sel (rls W))"

text \<open>Without setup information nothing happens; detaching removes the callbacks along with it.\<close>

definition call_setup :: "css_env \<Rightarrow> el \<Rightarrow> eq_world \<Rightarrow> eq_world" where
  "call_setup env e W =
     (case setupInformation W e of
        None \<Rightarrow> W
      | Some ido \<Rightarrow>
          W\<lparr>attributes := (attributes W)(e :=
              set_attributes (attr_values env e (elem_size W e) (setup_queries W ido)) (attributes W e))\<rparr>)"

text \<open>\<open>new ResizeSensor(element, function ...)\<close> with a new function.\<close>

definition new_callback :: "action \<Rightarrow> el \<Rightarrow> eq_world \<Rightarrow> eq_world" where
  "new_callback act e W =
     W\<lparr>rsw := run_attach e (next_cb W) (rsw W), actions := (actions W)(next_cb W := act), next_cb := Suc (next_cb W)\<rparr>"

definition setupElement :: "css_env \<Rightarrow> el \<Rightarrow> string option \<Rightarrow> eq_world \<Rightarrow> eq_world" where
  "setupElement env e ido W =
     (let W1 = (if setupInformation W e = None then W\<lparr>setupInformation := (setupInformation W)(e := Some ido)\<rparr> else W);
          W2 = (if \<not> queriesSensor W1 e
                then (new_callback CallSetup e W1)\<lparr>queriesSensor := (queriesSensor W1)(e := True)\<rparr> else W1)
      in call_setup env e W2)"

text \<open>The first query function there is; \<open>jQuery\<close> and \<open>$$\<close> are fallbacks.\<close>

definition getQuery :: "css_env \<Rightarrow> jserr + (string \<Rightarrow> el list)" where
  "getQuery env =
     (case filter (\<lambda>f. f \<noteq> None) (query_functions env) of
        Some f # _ \<Rightarrow> Inr f
      | _ \<Rightarrow> Inl (Thrown (''No document.querySelectorAll, jQuery or Mootools'' @ [CHR 0x27] @ ''s $$ found.'')))"

definition findElementQueriesElements :: "css_env \<Rightarrow> eq_world \<Rightarrow> jserr + eq_world" where
  "findElementQueriesElements env W =
     (case getQuery env of
        Inl err \<Rightarrow> Inl err
      | Inr query \<Rightarrow>
          Inr (fold (\<lambda>sel W. fold (\<lambda>e W. setupElement env e (Some sel) W) (query sel) W)
                 (map fst (allQueries (rls W))) W))"

subsection \<open>Starting, the handler, and detaching\<close>

text \<open>
  The number in the minimal width of the sensor is looked up in the mapping; without a number, or
  beyond the mapping, the selector is \<open>undefined\<close>.
\<close>

definition selector_of_width :: "rules_state \<Rightarrow> string \<Rightarrow> string option" where
  "selector_of_width st width =
     (case parse_int (replace_first ''px'' [] width) of None \<Rightarrow> None | Some i \<Rightarrow> idx (idToSelectorMapping st) i)"

definition on_animationstart :: "css_env \<Rightarrow> el \<Rightarrow> eq_world \<Rightarrow> eq_world" where
  "on_animationstart env e W =
     (if occurs_in ''element-queries'' (animation_name env e) then
        (let W1 = (new_callback CallSetup e W)\<lparr>queriesSensor := (queriesSensor W)(e := True)\<rparr>
         in setupElement env e (selector_of_width (rls W1) (sensor_min_width env e)) W1)
      else W)"

text \<open>An event reaches every registered handler.\<close>

definition fire_animationstart :: "css_env \<Rightarrow> el \<Rightarrow> eq_world \<Rightarrow> eq_world" where
  "fire_animationstart env e W = (on_animationstart env e ^^ listeners W) W"

definition default_css :: string where
  "default_css = ''[responsive-image] > img, [data-responsive-image] {overflow: hidden; padding: 0; } [responsive-image] > img, [data-responsive-image] > img {width: 100%;}''
     @ nl @ ''@keyframes element-queries { 0% { visibility: inherit; } }''"

text \<open>
  The responsive images of the page: for an element, its children. Reading the rules of a sheet may
  throw (\<open>None\<close>), which \<open>init\<close> ignores.
\<close>

fun attach_images :: "(el \<Rightarrow> child list) \<Rightarrow> el list \<Rightarrow> eq_world \<Rightarrow> jserr + eq_world" where
  "attach_images children [] W = Inr W"
| "attach_images children (e # es) W =
     (let W1 = (new_callback CheckImages e W)\<lparr>resizeSensorInstance := (resizeSensorInstance W)(e := True)\<rparr>
      in case attachResponsiveImage (offsetWidth (lay (elems (rsw W) e))) (children e) of
           Inl err \<Rightarrow> Inl err
         | Inr st \<Rightarrow> attach_images children es (W1\<lparr>image_sets := (image_sets W1)(e := st)\<rparr>))"

text \<open>Running a callback that a sensor calls.\<close>

definition run_callback :: "css_env \<Rightarrow> el \<times> cb \<times> size \<Rightarrow> eq_world \<Rightarrow> eq_world" where
  "run_callback env = (\<lambda>(e, c, sz) W.
     case actions W c of
       CallSetup \<Rightarrow> call_setup env e W
     | CheckImages \<Rightarrow>
         (case check (offsetWidth (lay (elems (rsw W) e))) (image_sets W e) of
            Inl _ \<Rightarrow> W
          | Inr st \<Rightarrow> W\<lparr>image_sets := (image_sets W)(e := st)\<rparr>))"

text \<open>
  The sensors take steps and their calls reach the callbacks, in order; these do not change what
  the sensors see.
\<close>

definition deliver :: "css_env \<Rightarrow> eq_world \<Rightarrow> world \<Rightarrow> eq_world" where
  "deliver env W w' = fold (run_callback env) (drop (length (calls (rsw W))) (calls w')) (W\<lparr>rsw := w'\<rparr>)"

definition findResponsiveImages :: "css_env \<Rightarrow> (el \<Rightarrow> child list) \<Rightarrow> eq_world \<Rightarrow> jserr + eq_world" where
  "findResponsiveImages env children W =
     (case getQuery env of
        Inl err \<Rightarrow> Inl err
      | Inr query \<Rightarrow> attach_images children (query ''[data-responsive-image],[responsive-image]'') W)"

definition read_sheets :: "rules option list \<Rightarrow> rules_state \<Rightarrow> rules_state" where
  "read_sheets sheets st = fold (\<lambda>sheet st. case sheet of None \<Rightarrow> st | Some rs \<Rightarrow> readRules rs st) sheets st"

definition init :: "css_env \<Rightarrow> (el \<Rightarrow> child list) \<Rightarrow> rules option list \<Rightarrow> eq_world \<Rightarrow> jserr + eq_world" where
  "init env children sheets W =
     (let W1 = W\<lparr>listeners := Suc (listeners W)\<rparr>;
          W2 = (if \<not> defaultCssInjected W1
                then W1\<lparr>rls := (rls W1)\<lparr>css_text := default_css\<rparr>, defaultCssInjected := True\<rparr> else W1);
          W3 = W2\<lparr>rls := read_sheets sheets (rls W2)\<rparr>
      in findResponsiveImages env children W3)"

text \<open>The name of the event \<open>init\<close> listens to, by the animation property the browser knows.\<close>

definition animationStart :: "(string \<Rightarrow> bool) \<Rightarrow> string" where
  "animationStart style_knows =
     (if style_knows ''webkitAnimationName'' then ''webkitAnimationStart''
      else if style_knows ''MozAnimationName'' then ''mozanimationstart''
      else if style_knows ''OAnimationName'' then ''oanimationstart''
      else ''animationstart'')"

text \<open>The one instance of the page: created by the first \<open>ElementQueries.init\<close>, then started.\<close>

definition new_instance :: "world \<Rightarrow> (el \<Rightarrow> (string \<times> string) list) \<Rightarrow> eq_world" where
  "new_instance w attrs = \<lparr>rsw = w, rls = no_rules [], setupInformation = (\<lambda>_. None), queriesSensor = (\<lambda>_. False),
     resizeSensorInstance = (\<lambda>_. False), attributes = attrs, next_cb = 0, actions = (\<lambda>_. CallSetup),
     image_sets = (\<lambda>_. collect_images []), defaultCssInjected = False, listeners = 0\<rparr>"

definition ElementQueries_init ::
    "css_env \<Rightarrow> (el \<Rightarrow> child list) \<Rightarrow> rules option list \<Rightarrow> world \<Rightarrow> (el \<Rightarrow> (string \<times> string) list) \<Rightarrow> eq_world option \<Rightarrow> jserr + eq_world" where
  "ElementQueries_init env children sheets w attrs inst =
     init env children sheets (case inst of None \<Rightarrow> new_instance w attrs | Some W \<Rightarrow> W)"

text \<open>How the script waits for the document: \<open>ElementQueries.listen\<close> passes \<open>init\<close> to \<open>domLoaded\<close>.\<close>

datatype load_hook = ContentLoadedEvent | PollReadyState | WindowOnload

definition domLoaded :: "bool \<Rightarrow> string \<Rightarrow> load_hook" where
  "domLoaded has_addEventListener userAgent =
     (if has_addEventListener then ContentLoadedEvent
      else if occurs_in ''khtml'' (toLowerCase userAgent) \<or> occurs_in ''webkit'' (toLowerCase userAgent)
        \<or> occurs_in ''icab'' (toLowerCase userAgent) then PollReadyState
      else WindowOnload)"

definition update_queries :: "css_env \<Rightarrow> (el \<Rightarrow> child list) \<Rightarrow> rules option list \<Rightarrow> eq_world \<Rightarrow> jserr + eq_world" where
  "update_queries env children sheets W = init env children sheets W"

definition detach_queries :: "el \<Rightarrow> eq_world \<Rightarrow> jserr + eq_world" where
  "detach_queries e W =
     (if setupInformation W e \<noteq> None then
        (if queriesSensor W e then
           Inr (W\<lparr>rsw := run_detach e None (rsw W), setupInformation := (setupInformation W)(e := None),
                  queriesSensor := (queriesSensor W)(e := False)\<rparr>)
         else Inl TypeError)
      else if resizeSensorInstance W e then
        Inr (W\<lparr>rsw := run_detach e None (rsw W), resizeSensorInstance := (resizeSensorInstance W)(e := False)\<rparr>)
      else Inr W)"

subsection \<open>What the attributes say\<close>

definition query_matches :: "css_env \<Rightarrow> el \<Rightarrow> size \<Rightarrow> query \<Rightarrow> bool" where
  "query_matches env e sz qu =
     (qu_mode qu = ''min'' \<and> convertToPx env e (qu_value qu) \<le> actual_value sz qu
      \<or> qu_mode qu = ''max'' \<and> actual_value sz qu \<le> convertToPx env e (qu_value qu))"

text \<open>The values of the queries that apply, each once.\<close>

definition matching_values :: "css_env \<Rightarrow> el \<Rightarrow> size \<Rightarrow> query list \<Rightarrow> string \<Rightarrow> string list" where
  "matching_values env e sz qs k = firsts (map qu_value (filter (\<lambda>qu. query_attr qu = k \<and> query_matches env e sz qu) qs))"

definition value_ok :: "query \<Rightarrow> bool" where
  "value_ok qu = (qu_value qu \<noteq> [] \<and> CHR '' '' \<notin> set (qu_value qu))"

lemma lookup_update [simp, eq_simps]: "lookup (AList.update k v av) k' = (if k' = k then v else lookup av k')"
  by (simp add: lookup_def update_conv')

lemma attr_step_lookup:
  "lookup (attr_step env e sz qu av) k =
     (if k = query_attr qu \<and> query_matches env e sz qu \<and> qu_value qu \<noteq> []
         \<and> \<not> occurs_in ('' '' @ qu_value qu @ '' '') ('' '' @ lookup av k @ '' '')
      then lookup av k @ '' '' @ qu_value qu else lookup av k)"
  by (auto simp: attr_step_def query_matches_def Let_def)

lemma matching_values_snoc:
  "matching_values env e sz (qs @ [qu]) k =
     (if query_attr qu = k \<and> query_matches env e sz qu \<and> qu_value qu \<notin> set (matching_values env e sz qs k)
      then matching_values env e sz qs k @ [qu_value qu] else matching_values env e sz qs k)"
  by (auto simp: matching_values_def)

lemma attr_values_lookup:
  assumes "list_all value_ok qs"
  shows "lookup (attr_values env e sz qs) k = words (CHR '' '') (matching_values env e sz qs k)"
  using assms
proof (induction qs rule: rev_induct)
  case Nil
  then show ?case by (simp add: attr_values_def lookup_def matching_values_def)
next
  case (snoc qu qs)
  have ok: "list_all (\<lambda>w. CHR '' '' \<notin> set w) (matching_values env e sz qs k)"
    using snoc.prems by (auto simp: matching_values_def list_all_iff value_ok_def)
  have qu: "CHR '' '' \<notin> set (qu_value qu)" "qu_value qu \<noteq> []" using snoc.prems by (simp_all add: value_ok_def)
  have step: "attr_values env e sz (qs @ [qu]) = attr_step env e sz qu (attr_values env e sz qs)"
    by (simp add: attr_values_def)
  have IH: "lookup (attr_values env e sz qs) k = words (CHR '' '') (matching_values env e sz qs k)"
    using snoc by simp
  show ?case
    unfolding step attr_step_lookup IH matching_values_snoc occurs_in_words [OF ok qu] using qu(2) by simp
qed

lemma set_attributes_map:
  "map_of (set_attributes av attrs) k =
     (if k \<in> set attribute_names then (if lookup av k = [] then None else Some (drop 1 (lookup av k))) else map_of attrs k)"
proof -
  have "map_of (fold (\<lambda>k attrs. if lookup av k \<noteq> [] then AList.update k (drop 1 (lookup av k)) attrs else AList.delete k attrs) ks attrs) k
    = (if k \<in> set ks then (if lookup av k = [] then None else Some (drop 1 (lookup av k))) else map_of attrs k)" for ks
    by (induction ks rule: rev_induct) (auto simp: update_conv' delete_conv')
  then show ?thesis by (simp add: set_attributes_def)
qed

text \<open>
  C8. After \<open>call\<close>, each of the attributes \<open>min-width\<close>, \<open>min-height\<close>, \<open>max-width\<close> and \<open>max-height\<close> lists
  exactly the values of the queries for it that hold at the present size of the element,
  separated by blanks, in the order of the queries and each value once; an attribute for which no
  query holds is removed, and no other attribute and no other element changes.
\<close>

theorem call_sets_attributes:
  assumes "setupInformation W e = Some ido" "list_all value_ok (setup_queries W ido)"
    and "vs = matching_values env e (elem_size W e) (setup_queries W ido) k"
  shows "map_of (attributes (call_setup env e W) e) k =
      (if k \<in> set attribute_names then (if vs = [] then None else Some (join_with '' '' vs)) else map_of (attributes W e) k)
    \<and> (e' = e \<or> attributes (call_setup env e W) e' = attributes W e')"
proof -
  have "words (CHR '' '') vs = [] \<longleftrightarrow> vs = []" by (simp add: words_def)
  then show ?thesis
    using attr_values_lookup [OF assms(2), of env e "elem_size W e" k] assms(1)
    by (simp add: call_setup_def set_attributes_map assms(3) [symmetric] drop_words del: One_nat_def)
qed

subsection \<open>From a resize to the attributes\<close>

lemma layout_run:
  assumes "rs_run w evs w'" "list_all (\<lambda>ev. ev = Frame \<or> (\<exists>s. ev = Scrolled s)) evs"
  shows "lay (elems w' e) = lay (elems w e)"
proof -
  have task: "lay (elems (run_task t w) e) = lay (elems w e)" for t w
    by (cases t) (simp_all add: onResized_def call_attached_eq Let_def split: option.split)
  have step: "rs_step w ev w' \<Longrightarrow> ev = Frame \<or> (\<exists>s. ev = Scrolled s) \<Longrightarrow> lay (elems w' e) = lay (elems w e)" for w ev w'
    by (induction rule: rs_step.induct) (auto simp: task)
  from assms show ?thesis by (induction rule: rs_run.induct) (auto dest: step)
qed

lemma call_setup_sel [simp, eq_simps]:
  "rsw (call_setup env e W) = rsw W" "rls (call_setup env e W) = rls W" "setupInformation (call_setup env e W) = setupInformation W"
  "actions (call_setup env e W) = actions W" "queriesSensor (call_setup env e W) = queriesSensor W"
  "next_cb (call_setup env e W) = next_cb W" "listeners (call_setup env e W) = listeners W"
  by (simp_all add: call_setup_def split: option.split)

lemma run_callback_sel [simp, eq_simps]:
  "rsw (run_callback env x W) = rsw W" "rls (run_callback env x W) = rls W"
  "setupInformation (run_callback env x W) = setupInformation W" "actions (run_callback env x W) = actions W"
  by (simp_all add: run_callback_def split: prod.split action.split sum.split)

lemma run_callback_setup: "actions W c = CallSetup \<Longrightarrow> run_callback env (e, c, sz) W = call_setup env e W"
  by (simp add: run_callback_def)

lemma run_callbacks_sel:
  "rsw (fold (run_callback env) xs W) = rsw W" "rls (fold (run_callback env) xs W) = rls W"
  "setupInformation (fold (run_callback env) xs W) = setupInformation W" "actions (fold (run_callback env) xs W) = actions W"
  by (induction xs arbitrary: W) simp_all

lemma call_setup_attribute:
  assumes "setupInformation W e = Some ido" "list_all value_ok (setup_queries W ido)" "k \<in> set attribute_names"
  shows "map_of (attributes (call_setup env e W) e) k =
    (let vs = matching_values env e (elem_size W e) (setup_queries W ido) k in if vs = [] then None else Some (join_with '' '' vs))"
proof -
  have "words (CHR '' '') vs = [] \<longleftrightarrow> vs = []" for vs by (simp add: words_def)
  then show ?thesis
    using attr_values_lookup [OF assms(2), of env e "elem_size W e" k] assms(1,3)
    by (simp add: call_setup_def set_attributes_map drop_words Let_def del: One_nat_def)
qed

text \<open>
  C4. From the resize to the attributes: when an element that is set up for a selector changes its
  size and the scroll event of its sensor fires, then after at most the frames requested so far
  and one more, its attributes list exactly the queries of the selector that hold at the new size.
\<close>

theorem resize_updates_attributes:
  assumes "fresh_world w0" "rs_run w0 evs (rsw W)" "s \<in> set (sensor_nodes (elems (rsw W) e))"
    and "\<not> num_eq (sz_width (elem_size W e)) (lastWidth (sensors (rsw W) s)) \<or> \<not> num_eq (sz_height (elem_size W e)) (lastHeight (sensors (rsw W) s))"
    and "setupInformation W e = Some ido" "list_all value_ok (setup_queries W ido)"
    and "list_all (\<lambda>c. actions W c = CallSetup) (callbacks (elems (rsw W) e))"
    and "k \<in> set attribute_names" "vs = matching_values env e (elem_size W e) (setup_queries W ido) k"
  shows "\<exists>n w'. n \<le> Suc (length (frames (rsw W))) \<and> rs_run (rsw W) (Scrolled s # replicate n Frame) w'
    \<and> map_of (attributes (deliver env W w') e) k = (if vs = [] then None else Some (join_with '' '' vs))"
proof -
  have ok: "elem_ok (rsw W) e" using rs_inv_run [OF assms(2) rs_inv_fresh [OF assms(1)]] by (simp add: rs_inv_def)
  obtain Q where Q: "resizedAttached (elems (rsw W) e) = Some Q" "q Q \<noteq> []" using ok assms(3) by (auto simp: el_ok_def)
  obtain n w' mid where r: "n \<le> Suc (length (frames (rsw W)))" "rs_run (rsw W) (Scrolled s # replicate n Frame) w'"
    "calls w' = calls (rsw W) @ mid @ map (\<lambda>c. (e, c, elem_size W e)) (q Q)"
    using resize_delivered [OF assms(1,2,3) Q(1) refl assms(4)] by blast
  obtain cs c where cs: "q Q = cs @ [c]" using Q(2) by (cases "q Q" rule: rev_cases) auto
  define W1 where "W1 = fold (run_callback env) (mid @ map (\<lambda>c. (e, c, elem_size W e)) cs) (W\<lparr>rsw := w'\<rparr>)"
  have "deliver env W w' = call_setup env e W1"
    using r(3) assms(7) Q(1)
    by (simp add: deliver_def W1_def cs callbacks_def run_callback_setup run_callbacks_sel)
  moreover have "elem_size W1 e = elem_size W e"
    using layout_run [OF r(2), of e] by (simp add: W1_def run_callbacks_sel list_all_iff)
  moreover have "setup_queries W1 ido = setup_queries W ido" "setupInformation W1 e = Some ido"
    using assms(5) by (simp_all add: W1_def setup_queries_def run_callbacks_sel split: option.split)
  ultimately have "map_of (attributes (deliver env W w') e) k = (if vs = [] then None else Some (join_with '' '' vs))"
    using call_setup_attribute [of W1 e ido k env] assms(6,8,9) by (simp add: Let_def)
  then show ?thesis using r(1,2) by (intro exI [of _ n] exI [of _ w'] conjI)
qed

subsection \<open>Setting up, starting again and detaching\<close>

lemma call_setup_again: "map_of (attributes (call_setup env e (call_setup env e W)) e) = map_of (attributes (call_setup env e W) e)"
  by (auto simp: call_setup_def set_attributes_map setup_queries_def fun_eq_iff split: option.splits)

lemma new_callback_sel [simp, eq_simps]:
  "setupInformation (new_callback act e W) = setupInformation W" "rls (new_callback act e W) = rls W"
  "queriesSensor (new_callback act e W) = queriesSensor W" "next_cb (new_callback act e W) = Suc (next_cb W)"
  "listeners (new_callback act e W) = listeners W" "rsw (new_callback act e W) = run_attach e (next_cb W) (rsw W)"
  by (simp_all add: new_callback_def)

text \<open>
  C23. An element is set up for one selector only: when a second selector with element queries also
  matches it, the element keeps the setup of the first, and its attributes are the same as
  without the second one.
\<close>

theorem first_selector_only:
  assumes "setupInformation W e = None" "W1 = setupElement env e (Some sel1) W" "W2 = setupElement env e (Some sel2) W1"
  shows "setupInformation W2 e = Some (Some sel1) \<and> map_of (attributes W2 e) = map_of (attributes W1 e)
    \<and> callbacks (elems (rsw W2) e) = callbacks (elems (rsw W1) e)"
proof -
  have "setupInformation W1 e = Some (Some sel1)" "queriesSensor W1 e"
    using assms(1,2) by (auto simp: setupElement_def Let_def)
  then have "W2 = call_setup env e W1" using assms(3) by (simp add: setupElement_def Let_def)
  moreover obtain V where "W1 = call_setup env e V" using assms(2) by (simp add: setupElement_def Let_def)
  ultimately show ?thesis using \<open>setupInformation W1 e = Some (Some sel1)\<close> call_setup_again [of env e V] by simp
qed

lemma handler_effect:
  assumes "rs_inv (rsw W)" "occurs_in ''element-queries'' (animation_name env e)"
  shows "rs_inv (rsw (on_animationstart env e W))"
    and "callbacks (elems (rsw (on_animationstart env e W)) e) = callbacks (elems (rsw W) e) @ [next_cb W]"
    and "next_cb (on_animationstart env e W) = Suc (next_cb W)" "listeners (on_animationstart env e W) = listeners W"
    and "queriesSensor (on_animationstart env e W) e"
    and "setupInformation (on_animationstart env e W) e = (case setupInformation W e of
      None \<Rightarrow> Some (selector_of_width (rls W) (sensor_min_width env e)) | Some ido \<Rightarrow> Some ido)"
    and "rls (on_animationstart env e W) = rls W"
  using assms registry.observe_good [OF assms(1), of e "next_cb W"] registry.observers_observe [OF assms(1), of e "next_cb W" e]
  by (simp_all add: on_animationstart_def setupElement_def Let_def split: option.split)

lemma handlers_effect:
  assumes "rs_inv (rsw W)" "occurs_in ''element-queries'' (animation_name env e)"
  shows "rs_inv (rsw ((on_animationstart env e ^^ n) W)) \<and> next_cb ((on_animationstart env e ^^ n) W) = next_cb W + n
    \<and> callbacks (elems (rsw ((on_animationstart env e ^^ n) W)) e) = callbacks (elems (rsw W) e) @ [next_cb W..<next_cb W + n]
    \<and> rls ((on_animationstart env e ^^ n) W) = rls W
    \<and> (n \<noteq> 0 \<longrightarrow> queriesSensor ((on_animationstart env e ^^ n) W) e \<and> setupInformation ((on_animationstart env e ^^ n) W) e =
         (case setupInformation W e of None \<Rightarrow> Some (selector_of_width (rls W) (sensor_min_width env e)) | Some ido \<Rightarrow> Some ido))"
proof (induction n)
  case (Suc n)
  let ?W = "(on_animationstart env e ^^ n) W"
  have "rs_inv (rsw ?W)" using Suc by simp
  note h = handler_effect [OF this assms(2)]
  show ?case using Suc h by (cases n) (simp_all split: option.split)
qed (use assms in simp)

lemma selector_of_width_px: "i < length (idToSelectorMapping st) \<Longrightarrow> selector_of_width st (nat_str i @ ''px'') = Some (idToSelectorMapping st ! i)"
  by (simp add: selector_of_width_def parse_px idx_def)


subsection \<open>Reading the style sheets again\<close>

text \<open>Reading rules queues queries that do not depend on what was queued before.\<close>

lemma extract_queues: "\<exists>Q. \<forall>st. extractQuery css st = queue_all Q st"
  unfolding extractQuery_def queue_all_def by blast

lemma queue_all_append: "queue_all (Q @ Q') st = queue_all Q' (queue_all Q st)"
  by (simp add: queue_all_def)

lemma no_queue: "\<exists>Q. \<forall>st. st = queue_all Q st"
  by (rule exI [of _ "[]"]) (simp add: queue_all_def)

lemma read_list_queues:
  "(\<And>r. r \<in> set rs \<Longrightarrow> \<exists>Q. \<forall>st. read_rule r st = queue_all Q st) \<Longrightarrow> \<exists>Q. \<forall>st. read_list rs st = queue_all Q st"
proof (induction rs)
  case Nil
  then show ?case using no_queue by simp
next
  case (Cons r rs)
  obtain Q where "\<forall>st. read_rule r st = queue_all Q st" using Cons.prems by fastforce
  moreover obtain Q' where "\<forall>st. read_list rs st = queue_all Q' st" using Cons by auto
  ultimately have "\<forall>st. read_list (r # rs) st = queue_all (Q @ Q') st" by (simp add: queue_all_append)
  then show ?case ..
qed

lemma read_selector_queues: "\<exists>Q. \<forall>st. read_selector sel st = queue_all Q st"
proof (cases "occurs_in ''min-height'' sel \<or> occurs_in ''max-height'' sel \<or> occurs_in ''min-width'' sel \<or> occurs_in ''max-width'' sel")
  case True
  then have "read_selector sel st = extractQuery sel st" for st unfolding read_selector_def by (elim disjE; simp)
  then show ?thesis using extract_queues [of sel] by simp
next
  case False
  then have "read_selector sel st = st" for st unfolding read_selector_def de_Morgan_disj by simp
  then show ?thesis using no_queue by simp
qed

lemma read_rule_queues: "\<exists>Q. \<forall>st. read_rule r st = queue_all Q st"
proof (induction r)
  case (StyleRule selectorText cssText)
  then show ?case using read_selector_queues by simp
next
  case (MediaRule rs)
  then show ?case using read_list_queues [of rs] by simp
next
  case (ImportRule own rs)
  then show ?case using read_list_queues [of rs] no_queue by (cases own) simp_all
qed (use no_queue in simp)

lemma readRules_queues: "\<exists>Q. \<forall>st. readRules rs st = queue_all Q st"
proof (cases rs)
  case (RulesText t)
  show ?thesis
  proof (cases "occurs_in ''min-width'' (toLowerCase t) \<or> occurs_in ''max-width'' (toLowerCase t)")
    case True
    then show ?thesis using extract_queues [of "toLowerCase t"] by (simp add: RulesText Let_def)
  next
    case False
    then show ?thesis using no_queue by (simp add: RulesText Let_def)
  qed
next
  case (RuleList rs)
  then show ?thesis using read_list_queues [OF read_rule_queues, of rs] by simp
qed (use no_queue in simp)

lemma read_sheets_queues: "\<exists>Q. \<forall>st. read_sheets sheets st = queue_all Q st"
proof (induction sheets)
  case Nil
  then show ?case using no_queue by (simp add: read_sheets_def)
next
  case (Cons sheet sheets)
  obtain Q' where Q': "\<forall>st. read_sheets sheets st = queue_all Q' st" using Cons by blast
  have "\<exists>Q. \<forall>st. (case sheet of None \<Rightarrow> st | Some rs \<Rightarrow> readRules rs st) = queue_all Q st"
  proof (cases sheet)
    case None
    then show ?thesis using no_queue by simp
  next
    case (Some rs)
    then show ?thesis using readRules_queues [of rs] by simp
  qed
  then obtain Q where "\<forall>st. (case sheet of None \<Rightarrow> st | Some rs \<Rightarrow> readRules rs st) = queue_all Q st" ..
  then have "\<forall>st. read_sheets (sheet # sheets) st = queue_all (Q @ Q') st"
    using Q' by (simp add: read_sheets_def queue_all_append)
  then show ?case ..
qed

lemma matching_values_twice: "matching_values env e sz (qs @ qs) k = matching_values env e sz qs k"
  by (simp add: matching_values_def firsts_append_dup)


subsection \<open>An example\<close>

definition example_css :: css_env where
  "example_css = \<lparr>fontSize = (\<lambda>_. ''16px''), rootFontSize = ''16px'', clientWidth = Fin 1000, clientHeight = Fin 800,
     animation_name = (\<lambda>_. ''element-queries''), sensor_min_width = (\<lambda>_. nat_str 0 @ ''px''), query_functions = []\<rparr>"

definition wide_query :: query where
  "wide_query = \<lparr>qu_mode = ''min'', qu_property = ''width'', qu_value = ''200px''\<rparr>"

definition example_page :: "world \<Rightarrow> string option option \<Rightarrow> eq_world" where
  "example_page w info = \<lparr>rsw = w, rls = queue_all [(''a'', wide_query)] (no_rules []), setupInformation = (\<lambda>_. info),
     queriesSensor = (\<lambda>_. info \<noteq> None), resizeSensorInstance = (\<lambda>_. False), attributes = (\<lambda>_. []), next_cb = 8,
     actions = (\<lambda>_. CallSetup), image_sets = (\<lambda>_. collect_images []), defaultCssInjected = True, listeners = 2\<rparr>"

lemma example_rules: "queries_of ''a'' (queue_all [(''a'', wide_query)] (no_rules [])) = [wide_query]"
  "idToSelectorMapping (queue_all [(''a'', wide_query)] (no_rules [])) = [''a'']"
  using queue_all_inv [of "[(''a'', wide_query)]" "[]" "''a''"] by (simp_all add: firsts_def)

lemma convert_200: "convertToPx env e ''200px'' = Fin 200"
  by (simp add: convertToPx_def units_of_def parse_float_def is_ws_def is_digit_def scan_signed_def scan_decimal_def scan_exp.simps
      digits_val_def digit_val_def Let_def)

abbreviation prepared :: eq_world where
  "prepared \<equiv> example_page resized_page (Some (Some ''a''))"

lemma example_setup:
  "setup_queries prepared (Some ''a'') = [wide_query]" "setupInformation prepared 0 = Some (Some ''a'')"
  "rsw prepared = resized_page" "actions prepared c = CallSetup"
  by (simp_all add: setup_queries_def example_page_def example_rules)

lemma example_ok: "list_all value_ok (setup_queries prepared (Some ''a''))"
  by (simp add: example_setup value_ok_def wide_query_def)

lemma example_matching:
  "[''200px''] = matching_values env e \<lparr>sz_width = Fin 300, sz_height = Fin 50\<rparr> [wide_query] ''min-width''"
  by (simp add: matching_values_def wide_query_def query_attr_def query_matches_def actual_value_def convert_200 firsts_def)

lemma example_size: "elem_size (example_page resized_page info) 0 = \<lparr>sz_width = Fin 300, sz_height = Fin 50\<rparr>"
  by (simp add: example_page_def resized_page_eval getElementSize_def box_def)

lemma example_values:
  "[''200px''] = matching_values env e (elem_size prepared 0) (setup_queries prepared (Some ''a'')) ''min-width''"
  unfolding example_size example_setup(1) by (rule example_matching)

theorem call_sets_attributes_witness:
  "map_of (attributes (call_setup example_css 0 prepared) 0) ''min-width'' = Some ''200px''"
  using call_sets_attributes [OF example_setup(2) example_ok example_values, of example_css] by (simp add: attribute_names_def)

theorem resize_updates_attributes_witness:
  "\<exists>n w'. rs_run resized_page (Scrolled 0 # replicate n Frame) w'
    \<and> map_of (attributes (deliver example_css prepared w') 0) ''min-width'' = Some ''200px''"
proof -
  have "rs_run page [Attach 0 7, Frame, Relayout 0 (box 300 50)] (rsw prepared)" "0 \<in> set (sensor_nodes (elems (rsw prepared) 0))"
    "\<not> num_eq (sz_width (elem_size prepared 0)) (lastWidth (sensors (rsw prepared) 0))
      \<or> \<not> num_eq (sz_height (elem_size prepared 0)) (lastHeight (sensors (rsw prepared) 0))"
    "list_all (\<lambda>c. actions prepared c = CallSetup) (callbacks (elems (rsw prepared) 0))" "''min-width'' \<in> set attribute_names"
    unfolding example_size by (simp_all add: example_setup resized_run resized_page_eval attribute_names_def)
  note p = this
  show ?thesis
    using resize_updates_attributes [OF fresh_page p(1-3) example_setup(2) example_ok p(4,5) example_values, of example_css]
    by (auto simp: example_setup)
qed

theorem first_selector_only_witness:
  "setupInformation (setupElement example_css 0 (Some ''b'') (setupElement example_css 0 (Some ''a'') (example_page resized_page None))) 0
     = Some (Some ''a'')"
  using first_selector_only [of "example_page resized_page None" 0 _ example_css "''a''" _ "''b''", OF _ refl refl]
  by (simp add: example_page_def)



end
