(* ===== verification/Modernizr_Core.thy ===== *)
theory Modernizr_Core
  imports JS_Strings
begin

section \<open>Modernizr: the helpers the feature tests are built from\<close>

text \<open>
  \<open>modernizr-latest.js\<close>, lines 59 to 392 and 1385 to 1392: vendor prefixes, the property tests,
  the event test, injecting a test element with styles, and the shims for \<open>hasOwnProperty\<close> and
  \<open>bind\<close>. The browser is a parameter, the record \<open>ua\<close>: which properties its objects have and
  what they hold, what the style engine answers, and what an injected element measures.
\<close>

named_theorems mod_simps \<comment> \<open>evaluating the helpers\<close>

subsection \<open>The browser\<close>

datatype host =
    Window
  | Document
  | Navigator
  | History
  | ModStyle \<comment> \<open>\<open>mStyle\<close>, the style of the test element\<close>
  | RootStyle \<comment> \<open>\<open>docElement.style\<close>\<close>
  | DivStyle
  | Elem string
  | SvgElem string
  | Context2d

text \<open>What the callback of an injected element can measure.\<close>

record probe =
  pr_offsetTop :: jsnum
  pr_offsetLeft :: jsnum
  pr_offsetHeight :: jsnum
  pr_position :: string
  pr_sheet :: "string option" \<comment> \<open>the text of the injected style sheet, if it can be reached\<close>

record ua =
  has_prop :: "host \<Rightarrow> string \<Rightarrow> bool" \<comment> \<open>\<open>name in object\<close>\<close>
  get_prop :: "host \<Rightarrow> string \<Rightarrow> jsval"
  handler_after :: "host \<Rightarrow> string \<Rightarrow> jsval" \<comment> \<open>the property after setting the attribute\<close>
  ref_type :: "nat \<Rightarrow> string" \<comment> \<open>\<open>typeof\<close> of an object or function\<close>
  style_after :: "string \<Rightarrow> string \<Rightarrow> jsval" \<comment> \<open>a property of \<open>mStyle\<close> after setting \<open>cssText\<close>\<close>
  measure_rule :: "string \<Rightarrow> probe" \<comment> \<open>what the test element measures under a rule\<close>
  media_matches :: "string \<Rightarrow> bool" \<comment> \<open>\<open>matchMedia\<close>, where it exists\<close>
  can_play :: "string \<Rightarrow> string \<Rightarrow> string option" \<comment> \<open>\<open>canPlayType\<close> of an element; \<open>None\<close> throws\<close>
  storage_works :: "string \<Rightarrow> bool"
  input_type :: "string \<Rightarrow> string" \<comment> \<open>\<open>inputElem.type\<close> after setting the attribute\<close>
  input_value :: "string \<Rightarrow> string" \<comment> \<open>the value kept by an input of a type\<close>
  input_valid :: "string \<Rightarrow> bool"
  range_appearance :: string
  range_height :: jsnum
  svg_tag :: "string \<Rightarrow> string" \<comment> \<open>\<open>toString\<close> of a created SVG element\<close>
  inline_svg_ns :: "string option"

fun js_typeof :: "ua \<Rightarrow> jsval \<Rightarrow> string" where
  "js_typeof U JUndef = ''undefined''"
| "js_typeof U JNull = ''object''"
| "js_typeof U (JBool _) = ''boolean''"
| "js_typeof U (JNum _) = ''number''"
| "js_typeof U (JStr _) = ''string''"
| "js_typeof U (JArr _) = ''object''"
| "js_typeof U (JRef n) = ref_type U n"

definition is_type :: "ua \<Rightarrow> jsval \<Rightarrow> string \<Rightarrow> bool" where
  "is_type U v t = (js_typeof U v = t)"

text \<open>\<open>contains(str, substr)\<close>; the values it is applied to are strings or \<open>undefined\<close>.\<close>

fun str_of :: "jsval \<Rightarrow> string" where
  "str_of (JStr s) = s"
| "str_of JUndef = ''undefined''"
| "str_of JNull = ''null''"
| "str_of (JBool b) = (if b then ''true'' else ''false'')"
| "str_of _ = []"

definition contains :: "string \<Rightarrow> string \<Rightarrow> bool" where
  "contains str substr = occurs_in substr str"

subsection \<open>Prefixes\<close>

definition prefixes :: "string list" where
  "prefixes = split_at (CHR '' '') '' -webkit- -moz- -o- -ms- ''"

definition omPrefixes :: string where
  "omPrefixes = ''Webkit Moz O ms''"

definition cssomPrefixes :: "string list" where
  "cssomPrefixes = split_at (CHR '' '') omPrefixes"

definition domPrefixes :: "string list" where
  "domPrefixes = split_at (CHR '' '') (toLowerCase omPrefixes)"

definition setCssAll_text :: "string \<Rightarrow> string \<Rightarrow> string" where
  "setCssAll_text str1 str2 = join_with (str1 @ '';'') prefixes @ str2"

subsection \<open>Property tests\<close>

text \<open>The answers: \<open>false\<close>, \<open>true\<close>, or the name of the property that was found.\<close>

fun testProps :: "ua \<Rightarrow> string list \<Rightarrow> bool \<Rightarrow> jsval" where
  "testProps U [] pfx = JBool False"
| "testProps U (prop # props) pfx =
     (if \<not> contains prop ''-'' \<and> get_prop U ModStyle prop \<noteq> JUndef
      then (if pfx then JStr prop else JBool True)
      else testProps U props pfx)"

text \<open>The third argument of \<open>testDOMProps\<close>: absent, \<open>false\<close>, or an object to bind to.\<close>

datatype bind_to = NoElem | FalseElem | ToElem host

datatype dom_answer =
    NotFound
  | PropName string
  | BoundMethod jsval host
  | PropValue jsval

fun testDOMProps :: "ua \<Rightarrow> string list \<Rightarrow> host \<Rightarrow> bind_to \<Rightarrow> dom_answer" where
  "testDOMProps U [] obj elem = NotFound"
| "testDOMProps U (prop # props) obj elem =
     (let item = get_prop U obj prop
      in if item \<noteq> JUndef then
           (if elem = FalseElem then PropName prop
            else if is_type U item ''function''
                 then BoundMethod item (case elem of ToElem e \<Rightarrow> e | _ \<Rightarrow> obj)
            else PropValue item)
         else testDOMProps U props obj elem)"

definition ucProp :: "string \<Rightarrow> string" where
  "ucProp prop = (case prop of [] \<Rightarrow> [] | c # cs \<Rightarrow> upper_char c # cs)"

text \<open>The list of names, built by joining and splitting strings.\<close>

definition prefixed_names :: "string list \<Rightarrow> string \<Rightarrow> string list" where
  "prefixed_names ps prop = split_at (CHR '' '') (prop @ '' '' @ join_with (ucProp prop @ '' '') ps @ ucProp prop)"

definition testPropsAll :: "ua \<Rightarrow> string \<Rightarrow> bool \<Rightarrow> jsval" where
  "testPropsAll U prop pfx = testProps U (prefixed_names cssomPrefixes prop) pfx"

definition testPropsAll_dom :: "ua \<Rightarrow> string \<Rightarrow> host \<Rightarrow> bind_to \<Rightarrow> dom_answer" where
  "testPropsAll_dom U prop obj elem = testDOMProps U (prefixed_names domPrefixes prop) obj elem"

text \<open>\<open>Modernizr.prefixed\<close>, without and with an object.\<close>

definition prefixed :: "ua \<Rightarrow> string \<Rightarrow> (host \<times> bind_to) option \<Rightarrow> jsval + dom_answer" where
  "prefixed U prop obj =
     (case obj of None \<Rightarrow> Inl (testPropsAll U prop True) | Some (h, elem) \<Rightarrow> Inr (testPropsAll_dom U prop h elem))"

definition testProp :: "ua \<Rightarrow> string \<Rightarrow> jsval" where
  "testProp U prop = testProps U [prop] False"

text \<open>The names as they are meant: the plain one, then one for each vendor.\<close>

lemma join_suffix: "ps \<noteq> [] \<Longrightarrow> join_with (u @ [d]) ps @ u = join_with [d] (map (\<lambda>p. p @ u) ps)"
  by (induction ps rule: list_nonempty_induct) (simp_all add: join_with_Cons)

lemma upper_char_blank: "upper_char c = CHR '' '' \<Longrightarrow> c = CHR '' ''"
proof (rule ccontr)
  assume c: "upper_char c = CHR '' ''" "c \<noteq> CHR '' ''"
  then have *: "97 \<le> (of_char c :: nat)" "(of_char c :: nat) \<le> 122" "upper_char c = char_of (of_char c - 32 :: nat)"
    by (auto simp: upper_char_def split: if_splits)
  have "of_char (upper_char c) = (of_char c - 32 :: nat)" using * by simp
  then show False using c(1) * by simp
qed

lemma prefixed_names_eq:
  assumes "ps \<noteq> []" "list_all (\<lambda>p. CHR '' '' \<notin> set p) ps" "CHR '' '' \<notin> set prop"
  shows "prefixed_names ps prop = prop # map (\<lambda>p. p @ ucProp prop) ps"
proof -
  have uc: "CHR '' '' \<notin> set (ucProp prop)"
    using assms(3) by (cases "prop") (auto simp: ucProp_def dest: upper_char_blank [OF sym])
  have eq: "prop @ '' '' @ join_with (ucProp prop @ '' '') ps @ ucProp prop = join_with '' '' (prop # map (\<lambda>p. p @ ucProp prop) ps)"
    using assms(1) by (simp add: join_suffix join_with_Cons)
  show ?thesis
    unfolding prefixed_names_def eq by (rule split_join) (use assms uc in \<open>auto simp: list_all_iff\<close>)
qed

lemma vendor_prefixes:
  "cssomPrefixes = [''Webkit'', ''Moz'', ''O'', ''ms'']" "domPrefixes = [''webkit'', ''moz'', ''o'', ''ms'']"
  "prefixes = [[], ''-webkit-'', ''-moz-'', ''-o-'', ''-ms-'', []]"
  by (simp_all add: cssomPrefixes_def domPrefixes_def prefixes_def omPrefixes_def lower_char_def char_of_def bit_Suc_0_iff)

lemma testProps_find:
  "testProps U names pfx =
     (case find (\<lambda>n. \<not> contains n ''-'' \<and> get_prop U ModStyle n \<noteq> JUndef) names of
        None \<Rightarrow> JBool False
      | Some n \<Rightarrow> if pfx then JStr n else JBool True)"
  by (induction names) simp_all

lemma list_ex_find: "list_ex P xs = (find P xs \<noteq> None)"
  by (induction xs) auto

text \<open>
  C15. For a property name without blanks, \<open>testPropsAll\<close> tries the plain name and then the names with
  the prefixes \<open>Webkit\<close>, \<open>Moz\<close>, \<open>O\<close> and \<open>ms\<close>, in this order. Its answer is \<open>true\<close> exactly when the
  style object knows one of them that has no dash, and with \<open>'pfx'\<close> it is the first such name.
\<close>

theorem testPropsAll_first:
  assumes "CHR '' '' \<notin> set name"
    and "names = name # map (\<lambda>p. p @ ucProp name) [''Webkit'', ''Moz'', ''O'', ''ms'']"
    and "known = (\<lambda>n. CHR ''-'' \<notin> set n \<and> get_prop U ModStyle n \<noteq> JUndef)"
  shows "testPropsAll U name False = JBool (list_ex known names)
    \<and> testPropsAll U name True = (case find known names of None \<Rightarrow> JBool False | Some n \<Rightarrow> JStr n)"
proof -
  have "prefixed_names cssomPrefixes name = names"
    unfolding assms(2) vendor_prefixes(1) using assms(1) by (intro prefixed_names_eq) simp_all
  moreover have "(\<lambda>n. \<not> contains n ''-'' \<and> get_prop U ModStyle n \<noteq> JUndef) = known"
    unfolding assms(3) contains_def occurs_in_iff by (auto simp: fun_eq_iff in_set_conv_decomp)
  ultimately show ?thesis
    by (simp add: testPropsAll_def testProps_find list_ex_find split: option.split)
qed

subsection \<open>Injecting a test element\<close>

text \<open>
  The part of the document the test touches: the children of the body, if there is one, the
  children of the root element, and the overflow style of the root.
\<close>

datatype node = PageNode nat | TestDiv | FakeBody

record dom =
  dm_body :: "node list option"
  dm_root :: "node list"
  dm_overflow :: string

text \<open>The test element: the ids of the nodes in it, and the style markup in it or beside it.\<close>

record test_div =
  td_ids :: "string list"
  td_style :: string

definition mod_name :: string where
  "mod_name = ''modernizr''"

definition node_ids :: "nat \<Rightarrow> string list option \<Rightarrow> string list" where
  "node_ids n testnames =
     rev (map (\<lambda>i. case testnames of None \<Rightarrow> mod_name @ nat_str (Suc i) | Some ts \<Rightarrow> (if i < length ts then ts ! i else ''undefined'')) [0..<n])"

definition style_markup :: "string \<Rightarrow> string" where
  "style_markup rule = concat [''&#173;'', ''<style id='' @ [CHR 0x22] @ ''s'', mod_name, [CHR 0x22] @ ''>'', rule, ''</style>'']"

text \<open>The document while the callback runs, and after the test element is taken out again.\<close>

definition with_div :: "dom \<Rightarrow> dom" where
  "with_div d =
     (case dm_body d of
        Some cs \<Rightarrow> d\<lparr>dm_body := Some (cs @ [TestDiv])\<rparr>
      | None \<Rightarrow> d\<lparr>dm_overflow := ''hidden'', dm_root := dm_root d @ [FakeBody]\<rparr>)"

definition without_div :: "bool \<Rightarrow> string \<Rightarrow> dom \<Rightarrow> dom" where
  "without_div had_body overflow d =
     (if had_body then d\<lparr>dm_body := map_option (remove1 TestDiv) (dm_body d)\<rparr>
      else d\<lparr>dm_root := remove1 FakeBody (dm_root d), dm_overflow := overflow\<rparr>)"

definition injectElementWithStyles ::
    "string \<Rightarrow> (test_div \<Rightarrow> string \<Rightarrow> dom \<Rightarrow> jsval \<times> dom) \<Rightarrow> nat \<Rightarrow> string list option \<Rightarrow> dom \<Rightarrow> bool \<times> dom" where
  "injectElementWithStyles rule callback nodes testnames d =
     (let dv = \<lparr>td_ids = node_ids nodes testnames, td_style = style_markup rule\<rparr>;
          (ret, d1) = callback dv rule (with_div d)
      in (truthy ret, without_div (dm_body d \<noteq> None) (dm_overflow d) d1))"

text \<open>\<open>Modernizr.mq\<close>: natively where the browser can, otherwise by a rule that may apply.\<close>

definition media_rule :: "string \<Rightarrow> string" where
  "media_rule mq = ''@media '' @ mq @ '' { #'' @ mod_name @ '' { position: absolute; } }''"

definition testMediaQuery :: "ua \<Rightarrow> string \<Rightarrow> bool" where
  "testMediaQuery U mq =
     (if truthy (get_prop U Window ''matchMedia'') \<or> truthy (get_prop U Window ''msMatchMedia'') then media_matches U mq
      else pr_position (measure_rule U (media_rule mq)) = ''absolute'')"

definition page_dom :: "dom \<Rightarrow> bool" where
  "page_dom d = (TestDiv \<notin> set (case dm_body d of None \<Rightarrow> [] | Some cs \<Rightarrow> cs) \<and> FakeBody \<notin> set (dm_root d))"


subsection \<open>Events\<close>

definition event_tag :: "string \<Rightarrow> string" where
  "event_tag name =
     (if name \<in> {''select'', ''change''} then ''input''
      else if name \<in> {''submit'', ''reset''} then ''form''
      else if name \<in> {''error'', ''load'', ''abort''} then ''img'' else ''div'')"

definition isEventSupported :: "ua \<Rightarrow> string \<Rightarrow> host option \<Rightarrow> bool" where
  "isEventSupported U name elem =
     (let el = (case elem of Some h \<Rightarrow> h | None \<Rightarrow> Elem (event_tag name)); ev = ''on'' @ name
      in if has_prop U el ev then True
         else (let el1 = (if truthy (get_prop U el ''setAttribute'') then el else Elem ''div'')
               in truthy (get_prop U el1 ''setAttribute'') \<and> truthy (get_prop U el1 ''removeAttribute'')
                  \<and> is_type U (handler_after U el1 ev) ''function''))"

subsection \<open>Shims\<close>

text \<open>\<open>hasOwnProp\<close>: natively, or by comparing with the prototype of the constructor.\<close>

definition hasOwnProp :: "bool \<Rightarrow> props \<Rightarrow> props \<Rightarrow> string \<Rightarrow> bool" where
  "hasOwnProp native own proto k =
     (if native then has_own own k
      else (has_own own k \<or> has_own proto k) \<and> pget proto k = JUndef)"

text \<open>
  \<open>Function.prototype.bind\<close>: a function takes \<open>this\<close> and the arguments. Called, the bound function
  passes the fixed \<open>this\<close>; constructed, it passes the new object and returns what the target
  returns if that is an object. The shim throws when its receiver is not a function (\<open>None\<close>).
\<close>

type_synonym js_fun = "jsval \<Rightarrow> jsval list \<Rightarrow> jsval"

definition is_object :: "jsval \<Rightarrow> bool" where
  "is_object v = (case v of JRef _ \<Rightarrow> True | JArr _ \<Rightarrow> True | _ \<Rightarrow> False)"

definition bind_shim :: "js_fun option \<Rightarrow> jsval \<Rightarrow> jsval list \<Rightarrow> jserr + js_fun" where
  "bind_shim target that args =
     (case target of None \<Rightarrow> Inl TypeError | Some f \<Rightarrow> Inr (\<lambda>this rest. f that (args @ rest)))"

definition bind_construct :: "js_fun \<Rightarrow> jsval list \<Rightarrow> jsval \<Rightarrow> jsval list \<Rightarrow> jsval" where
  "bind_construct f args self rest =
     (let result = f self (args @ rest) in if is_object result then result else self)"

lemma bind_twice:
  "bind_shim (Some f) a xs = Inr g \<Longrightarrow> bind_shim (Some g) b ys = Inr h \<Longrightarrow> bind_shim (Some f) a (xs @ ys) = Inr h"
  by (auto simp: bind_shim_def)

subsection \<open>Examples\<close>

definition example_ua :: ua where
  "example_ua = \<lparr>has_prop = (\<lambda>h p. h = Elem ''div'' \<and> p = ''onclick''),
     get_prop = (\<lambda>h p. if h = ModStyle \<and> p \<in> {''MozTransform'', ''msTransform'', ''flexWrap''} then JStr [] else JUndef),
     handler_after = (\<lambda>_ _. JUndef), ref_type = (\<lambda>_. ''function''), style_after = (\<lambda>_ _. JStr []),
     measure_rule = (\<lambda>_. \<lparr>pr_offsetTop = Fin 0, pr_offsetLeft = Fin 0, pr_offsetHeight = Fin 0, pr_position = ''static'', pr_sheet = None\<rparr>),
     media_matches = (\<lambda>_. False), can_play = (\<lambda>_ _. Some []), storage_works = (\<lambda>_. True), input_type = (\<lambda>t. t),
     input_value = (\<lambda>_. []), input_valid = (\<lambda>_. False), range_appearance = [], range_height = Fin 0,
     svg_tag = (\<lambda>_. []), inline_svg_ns = None\<rparr>"

theorem testPropsAll_first_witness:
  "testPropsAll example_ua ''transform'' True = JStr ''MozTransform'' \<and> testPropsAll example_ua ''boxReflect'' False = JBool False"
  using testPropsAll_first [of "''transform''" _ _ example_ua, OF _ refl refl]
    testPropsAll_first [of "''boxReflect''" _ _ example_ua, OF _ refl refl]
  by (simp add: example_ua_def ucProp_def upper_char_def char_of_def bit_Suc_0_iff)


end
