(* ===== verification/Modernizr_Tests.thy ===== *)
theory Modernizr_Tests
  imports Modernizr_Core JS_Regex
begin

section \<open>Modernizr: the feature tests and the classes of the page\<close>

text \<open>
  \<open>modernizr-latest.js\<close>, lines 404 to 999 and 1398 to 1401: every entry of \<open>tests\<close>, the tests of
  form inputs, the loop that runs the tests, \<open>addTest\<close>, and the classes of the root element. A
  test reads the browser and, in one case, the results so far. \<open>Modernizr\<close> is a property list.
\<close>

subsection \<open>The tests\<close>

abbreviation style_text :: "ua \<Rightarrow> string \<Rightarrow> string \<Rightarrow> string" where
  "style_text U css name \<equiv> str_of (style_after U css name)"

definition test_flexbox :: "ua \<Rightarrow> jsval" where
  "test_flexbox U = testPropsAll U ''flexWrap'' False"

definition test_flexboxlegacy :: "ua \<Rightarrow> jsval" where
  "test_flexboxlegacy U = testPropsAll U ''boxDirection'' False"

text \<open>\<open>getContext('2d')\<close> is the property \<open>context\<close> of the canvas.\<close>

definition test_canvas :: "ua \<Rightarrow> jsval" where
  "test_canvas U = JBool (truthy (get_prop U (Elem ''canvas'') ''getContext'') \<and> truthy (get_prop U (Elem ''canvas'') ''context''))"

definition test_canvastext :: "ua \<Rightarrow> props \<Rightarrow> jsval" where
  "test_canvastext U M = JBool (truthy (pget M ''canvas'') \<and> is_type U (get_prop U Context2d ''fillText'') ''function'')"

definition test_webgl :: "ua \<Rightarrow> jsval" where
  "test_webgl U = JBool (truthy (get_prop U Window ''WebGLRenderingContext''))"

definition touch_rule :: string where
  "touch_rule = concat [''@media ('', join_with ''touch-enabled),('' prefixes, mod_name, '')'', ''{#modernizr{top:9px;position:absolute}}'']"

text \<open>\<open>document instanceof DocumentTouch\<close> is the property \<open>isDocumentTouch\<close>.\<close>

definition test_touch :: "ua \<Rightarrow> jsval" where
  "test_touch U =
     JBool (if has_prop U Window ''ontouchstart''
              \<or> truthy (get_prop U Window ''DocumentTouch'') \<and> truthy (get_prop U Document ''isDocumentTouch'')
            then True else num_eq (pr_offsetTop (measure_rule U touch_rule)) (Fin 9))"

definition test_geolocation :: "ua \<Rightarrow> jsval" where
  "test_geolocation U = JBool (has_prop U Navigator ''geolocation'')"

definition test_postmessage :: "ua \<Rightarrow> jsval" where
  "test_postmessage U = JBool (truthy (get_prop U Window ''postMessage''))"

definition test_websqldatabase :: "ua \<Rightarrow> jsval" where
  "test_websqldatabase U = JBool (truthy (get_prop U Window ''openDatabase''))"

definition answer_truthy :: "dom_answer \<Rightarrow> bool" where
  "answer_truthy a =
     (case a of NotFound \<Rightarrow> False | PropName n \<Rightarrow> n \<noteq> [] | BoundMethod _ _ \<Rightarrow> True | PropValue v \<Rightarrow> truthy v)"

definition test_indexedDB :: "ua \<Rightarrow> jsval" where
  "test_indexedDB U = JBool (answer_truthy (testPropsAll_dom U ''indexedDB'' Window NoElem))"

definition test_hashchange :: "ua \<Rightarrow> jsval" where
  "test_hashchange U = JBool (isEventSupported U ''hashchange'' (Some Window)
     \<and> (get_prop U Document ''documentMode'' = JUndef \<or> Fin 7 < to_number (get_prop U Document ''documentMode'')))"

definition test_history :: "ua \<Rightarrow> jsval" where
  "test_history U = JBool (truthy (get_prop U Window ''history'') \<and> truthy (get_prop U History ''pushState''))"

definition test_draganddrop :: "ua \<Rightarrow> jsval" where
  "test_draganddrop U = JBool (has_prop U (Elem ''div'') ''draggable''
     \<or> has_prop U (Elem ''div'') ''ondragstart'' \<and> has_prop U (Elem ''div'') ''ondrop'')"

definition test_websockets :: "ua \<Rightarrow> jsval" where
  "test_websockets U = JBool (has_prop U Window ''WebSocket'' \<or> has_prop U Window ''MozWebSocket'')"

definition test_rgba :: "ua \<Rightarrow> jsval" where
  "test_rgba U = JBool (contains (style_text U ''background-color:rgba(150,255,150,.5)'' ''backgroundColor'') ''rgba'')"

definition test_hsla :: "ua \<Rightarrow> jsval" where
  "test_hsla U =
     (let c = style_text U ''background-color:hsla(120,40%,100%,.5)'' ''backgroundColor''
      in JBool (contains c ''rgba'' \<or> contains c ''hsla''))"

text \<open>\<open>/(url\s*\(.*?){3}/\<close>\<close>

fun Exact :: "string \<Rightarrow> re" where
  "Exact [] = Eps"
| "Exact (c # s) = Seq (Chars (\<lambda>x. x = c)) (Exact s)"

definition url_re :: re where
  "url_re = Seq (Exact ''url'') (Seq (Star (Chars is_ws)) (Seq (Exact ''('') (LazyStar (Chars (\<lambda>x. x \<noteq> CHR 0x0A \<and> x \<noteq> CHR 0x0D)))))"

definition three_urls :: "string \<Rightarrow> bool" where
  "three_urls s = (exec (Seq url_re (Seq url_re url_re)) s \<noteq> None)"

definition test_multiplebgs :: "ua \<Rightarrow> jsval" where
  "test_multiplebgs U = JBool (three_urls (style_text U ''background:url(https://),url(https://),red url(https://)'' ''background''))"

definition test_backgroundsize :: "ua \<Rightarrow> jsval" where
  "test_backgroundsize U = testPropsAll U ''backgroundSize'' False"

definition test_borderimage :: "ua \<Rightarrow> jsval" where
  "test_borderimage U = testPropsAll U ''borderImage'' False"

definition test_borderradius :: "ua \<Rightarrow> jsval" where
  "test_borderradius U = testPropsAll U ''borderRadius'' False"

definition test_boxshadow :: "ua \<Rightarrow> jsval" where
  "test_boxshadow U = testPropsAll U ''boxShadow'' False"

definition test_textshadow :: "ua \<Rightarrow> jsval" where
  "test_textshadow U = JBool (get_prop U DivStyle ''textShadow'' = JStr [])"

text \<open>\<open>/^0.55$/\<close>: any character but a line break in the second place.\<close>

definition is_opacity :: "string \<Rightarrow> bool" where
  "is_opacity s = (length s = 4 \<and> s ! 0 = CHR ''0'' \<and> s ! 1 \<noteq> CHR 0x0A \<and> s ! 1 \<noteq> CHR 0x0D \<and> drop 2 s = ''55'')"

definition test_opacity :: "ua \<Rightarrow> jsval" where
  "test_opacity U = JBool (is_opacity (style_text U (setCssAll_text ''opacity:.55'' []) ''opacity''))"

definition test_cssanimations :: "ua \<Rightarrow> jsval" where
  "test_cssanimations U = testPropsAll U ''animationName'' False"

definition test_csscolumns :: "ua \<Rightarrow> jsval" where
  "test_csscolumns U = testPropsAll U ''columnCount'' False"

definition gradient_css :: string where
  "gradient_css =
     (let str1 = ''background-image:'';
          str2 = ''gradient(linear,left top,right bottom,from(#9f9),to(white));'';
          str3 = ''linear-gradient(left top,#9f9, white);'';
          text = str1 @ join_with (str2 @ str1) (split_at (CHR '' '') ''-webkit- '') @ join_with (str3 @ str1) prefixes
      in take (length text - length str1) text)"

definition test_cssgradients :: "ua \<Rightarrow> jsval" where
  "test_cssgradients U = JBool (contains (style_text U gradient_css ''backgroundImage'') ''gradient'')"

definition test_cssreflections :: "ua \<Rightarrow> jsval" where
  "test_cssreflections U = testPropsAll U ''boxReflect'' False"

definition test_csstransforms :: "ua \<Rightarrow> jsval" where
  "test_csstransforms U = JBool (truthy (testPropsAll U ''transform'' False))"

definition transform3d_rule :: string where
  "transform3d_rule = ''@media (transform-3d),(-webkit-transform-3d){#modernizr{left:9px;position:absolute;height:3px;}}''"

definition test_csstransforms3d :: "ua \<Rightarrow> jsval" where
  "test_csstransforms3d U =
     (let ret = truthy (testPropsAll U ''perspective'' False); p = measure_rule U transform3d_rule
      in JBool (if ret \<and> has_prop U RootStyle ''webkitPerspective''
                then num_eq (pr_offsetLeft p) (Fin 9) \<and> num_eq (pr_offsetHeight p) (Fin 3) else ret))"

definition test_csstransitions :: "ua \<Rightarrow> jsval" where
  "test_csstransitions U = testPropsAll U ''transition'' False"

definition fontface_rule :: string where
  "fontface_rule = ''@font-face {font-family:'' @ [CHR 0x22] @ ''font'' @ [CHR 0x22] @ '';src:url('' @ [CHR 0x22] @ ''https://'' @ [CHR 0x22] @ '')}''"

definition test_fontface :: "ua \<Rightarrow> jsval" where
  "test_fontface U =
     (let cssText = (case pr_sheet (measure_rule U fontface_rule) of None \<Rightarrow> [] | Some t \<Rightarrow> t)
      in JBool (occurs_in ''src'' (toLowerCase cssText) \<and> prefix (hd (split_at (CHR '' '') fontface_rule)) cssText))"

definition content_rule :: string where
  "content_rule = concat [''#'', mod_name, ''{font:0/0 a}#'', mod_name, '':after{content:'' @ [CHR 0x22], '':)'', [CHR 0x22] @ '';visibility:hidden;font:3px/1 a}'']"

definition test_generatedcontent :: "ua \<Rightarrow> jsval" where
  "test_generatedcontent U = JBool (Fin 3 \<le> pr_offsetHeight (measure_rule U content_rule))"

text \<open>
  Media elements. The answer is a \<open>Boolean\<close> object with the answers for the codecs as properties,
  \<open>JBool False\<close> where the element cannot play anything. An exception leaves the properties set
  so far; a \<open>Boolean\<close> object is always truthy.
\<close>

datatype media = NoMedia | Media "(string \<times> string) list"

definition strip_no :: "string \<Rightarrow> string" where
  "strip_no s = (if s = ''no'' then [] else s)"

fun add_codecs :: "(string \<times> string option) list \<Rightarrow> (string \<times> string) list" where
  "add_codecs [] = []"
| "add_codecs ((k, None) # cs) = []"
| "add_codecs ((k, Some v) # cs) = (k, strip_no v) # add_codecs cs"

abbreviation codecs :: "string \<Rightarrow> string" where
  "codecs s \<equiv> '' codecs='' @ [CHR 0x22] @ s @ [CHR 0x22]"

definition test_video :: "ua \<Rightarrow> media" where
  "test_video U =
     (if truthy (get_prop U (Elem ''video'') ''canPlayType'') then
        Media (add_codecs [(''ogg'', can_play U ''video'' (''video/ogg;'' @ codecs ''theora'')),
                           (''h264'', can_play U ''video'' (''video/mp4;'' @ codecs ''avc1.42E01E'')),
                           (''webm'', can_play U ''video'' (''video/webm;'' @ codecs ''vp8, vorbis''))])
      else NoMedia)"

text \<open>\<open>canPlayType('audio/x-m4a;') || canPlayType('audio/aac;')\<close>\<close>

definition play_m4a :: "ua \<Rightarrow> string option" where
  "play_m4a U =
     (case can_play U ''audio'' ''audio/x-m4a;'' of
        None \<Rightarrow> None
      | Some v \<Rightarrow> if v \<noteq> [] then Some v else can_play U ''audio'' ''audio/aac;'')"

definition test_audio :: "ua \<Rightarrow> media" where
  "test_audio U =
     (if truthy (get_prop U (Elem ''audio'') ''canPlayType'') then
        Media (add_codecs [(''ogg'', can_play U ''audio'' (''audio/ogg;'' @ codecs ''vorbis'')),
                           (''mp3'', can_play U ''audio'' ''audio/mpeg;''),
                           (''wav'', can_play U ''audio'' (''audio/wav;'' @ codecs ''1'')),
                           (''m4a'', play_m4a U)])
      else NoMedia)"

definition media_value :: "media \<Rightarrow> jsval" where
  "media_value m = (case m of NoMedia \<Rightarrow> JBool False | Media ps \<Rightarrow> JArr (map (\<lambda>(k, v). JStr v) ps))"

definition test_localstorage :: "ua \<Rightarrow> jsval" where
  "test_localstorage U = JBool (storage_works U ''localStorage'')"

definition test_sessionstorage :: "ua \<Rightarrow> jsval" where
  "test_sessionstorage U = JBool (storage_works U ''sessionStorage'')"

definition test_webworkers :: "ua \<Rightarrow> jsval" where
  "test_webworkers U = JBool (truthy (get_prop U Window ''Worker''))"

definition test_applicationcache :: "ua \<Rightarrow> jsval" where
  "test_applicationcache U = JBool (truthy (get_prop U Window ''applicationCache''))"

definition svg_ns :: string where
  "svg_ns = ''http://www.w3.org/2000/svg''"

definition test_svg :: "ua \<Rightarrow> jsval" where
  "test_svg U = JBool (truthy (get_prop U Document ''createElementNS'') \<and> truthy (get_prop U (SvgElem ''svg'') ''createSVGRect''))"

definition test_inlinesvg :: "ua \<Rightarrow> jsval" where
  "test_inlinesvg U = JBool (inline_svg_ns U = Some svg_ns)"

definition test_smil :: "ua \<Rightarrow> jsval" where
  "test_smil U = JBool (truthy (get_prop U Document ''createElementNS'') \<and> occurs_in ''SVGAnimate'' (svg_tag U ''animate''))"

definition test_svgclippaths :: "ua \<Rightarrow> jsval" where
  "test_svgclippaths U = JBool (truthy (get_prop U Document ''createElementNS'') \<and> occurs_in ''SVGClipPath'' (svg_tag U ''clipPath''))"

text \<open>The object \<open>tests\<close>, in the order in which its properties are added.\<close>

definition tests :: "(string \<times> (ua \<Rightarrow> props \<Rightarrow> jsval)) list" where
  "tests =
    [(''flexbox'', \<lambda>U M. test_flexbox U), (''flexboxlegacy'', \<lambda>U M. test_flexboxlegacy U), (''canvas'', \<lambda>U M. test_canvas U),
     (''canvastext'', test_canvastext), (''webgl'', \<lambda>U M. test_webgl U), (''touch'', \<lambda>U M. test_touch U),
     (''geolocation'', \<lambda>U M. test_geolocation U), (''postmessage'', \<lambda>U M. test_postmessage U),
     (''websqldatabase'', \<lambda>U M. test_websqldatabase U), (''indexedDB'', \<lambda>U M. test_indexedDB U),
     (''hashchange'', \<lambda>U M. test_hashchange U), (''history'', \<lambda>U M. test_history U),
     (''draganddrop'', \<lambda>U M. test_draganddrop U), (''websockets'', \<lambda>U M. test_websockets U), (''rgba'', \<lambda>U M. test_rgba U),
     (''hsla'', \<lambda>U M. test_hsla U), (''multiplebgs'', \<lambda>U M. test_multiplebgs U), (''backgroundsize'', \<lambda>U M. test_backgroundsize U),
     (''borderimage'', \<lambda>U M. test_borderimage U), (''borderradius'', \<lambda>U M. test_borderradius U),
     (''boxshadow'', \<lambda>U M. test_boxshadow U), (''textshadow'', \<lambda>U M. test_textshadow U), (''opacity'', \<lambda>U M. test_opacity U),
     (''cssanimations'', \<lambda>U M. test_cssanimations U), (''csscolumns'', \<lambda>U M. test_csscolumns U),
     (''cssgradients'', \<lambda>U M. test_cssgradients U), (''cssreflections'', \<lambda>U M. test_cssreflections U),
     (''csstransforms'', \<lambda>U M. test_csstransforms U), (''csstransforms3d'', \<lambda>U M. test_csstransforms3d U),
     (''csstransitions'', \<lambda>U M. test_csstransitions U), (''fontface'', \<lambda>U M. test_fontface U),
     (''generatedcontent'', \<lambda>U M. test_generatedcontent U), (''video'', \<lambda>U M. media_value (test_video U)),
     (''audio'', \<lambda>U M. media_value (test_audio U)), (''localstorage'', \<lambda>U M. test_localstorage U),
     (''sessionstorage'', \<lambda>U M. test_sessionstorage U), (''webworkers'', \<lambda>U M. test_webworkers U),
     (''applicationcache'', \<lambda>U M. test_applicationcache U), (''svg'', \<lambda>U M. test_svg U),
     (''inlinesvg'', \<lambda>U M. test_inlinesvg U), (''smil'', \<lambda>U M. test_smil U), (''svgclippaths'', \<lambda>U M. test_svgclippaths U)]"

subsection \<open>Form inputs\<close>

definition input_attributes :: "string list" where
  "input_attributes = split_at (CHR '' '') ''autocomplete autofocus list placeholder max min multiple pattern required step''"

definition test_input_attr :: "ua \<Rightarrow> string \<Rightarrow> bool" where
  "test_input_attr U a =
     (if a = ''list'' \<and> has_prop U (Elem ''input'') a then truthy (get_prop U Window ''HTMLDataListElement'')
      else has_prop U (Elem ''input'') a)"

definition webforms_input :: "ua \<Rightarrow> (string \<times> bool) list" where
  "webforms_input U = map (\<lambda>a. (a, test_input_attr U a)) input_attributes"

definition input_types :: "string list" where
  "input_types = split_at (CHR '' '') ''search tel url email datetime date month week time datetime-local number range color''"

definition smile :: string where
  "smile = '':)''"

definition test_input_type :: "ua \<Rightarrow> string \<Rightarrow> bool" where
  "test_input_type U t =
     (if input_type U t \<noteq> ''text'' then
        (if t = ''range'' \<and> get_prop U (Elem ''input'') ''WebkitAppearance'' \<noteq> JUndef then
           truthy (get_prop U Window ''getComputedStyle'') \<and> range_appearance U \<noteq> ''textfield'' \<and> \<not> num_eq (range_height U) (Fin 0)
         else if t \<in> {''search'', ''tel''} then True
         else if t \<in> {''url'', ''email''} then truthy (get_prop U (Elem ''input'') ''checkValidity'') \<and> \<not> input_valid U t
         else input_value U t \<noteq> smile)
      else False)"

definition webforms_types :: "ua \<Rightarrow> (string \<times> bool) list" where
  "webforms_types U = map (\<lambda>t. (t, test_input_type U t)) input_types"

subsection \<open>Running the tests\<close>

record page =
  modernizr :: props
  class_names :: "string list" \<comment> \<open>\<open>classes\<close>, joined at the end\<close>

definition feature_class :: "string \<Rightarrow> jsval \<Rightarrow> string" where
  "feature_class name result = (if truthy result then [] else ''no-'') @ name"

definition run_test :: "ua \<Rightarrow> string \<times> (ua \<Rightarrow> props \<Rightarrow> jsval) \<Rightarrow> page \<Rightarrow> page" where
  "run_test U = (\<lambda>(feature, test) pg.
     let name = toLowerCase feature; result = test U (modernizr pg)
     in pg\<lparr>modernizr := pset name result (modernizr pg), class_names := class_names pg @ [feature_class name result]\<rparr>)"

definition run_tests :: "ua \<Rightarrow> (string \<times> (ua \<Rightarrow> props \<Rightarrow> jsval)) list \<Rightarrow> page \<Rightarrow> page" where
  "run_tests U ts pg = fold (run_test U) ts pg"

definition start_page :: page where
  "start_page = \<lparr>modernizr = [], class_names = []\<rparr>"

subsection \<open>Adding tests\<close>

text \<open>
  The page after start: the object and the class attribute of the root element. A test is a value or
  a function without arguments; either way \<open>addTest\<close> ends with a value.
\<close>

record doc_state =
  mz :: props
  root_class :: string

definition addTest1 :: "string \<Rightarrow> jsval \<Rightarrow> doc_state \<Rightarrow> doc_state" where
  "addTest1 feature test ds =
     (let name = toLowerCase feature
      in if pget (mz ds) name \<noteq> JUndef then ds
         else ds\<lparr>root_class := root_class ds @ '' '' @ feature_class name test, mz := pset name test (mz ds)\<rparr>)"

datatype feature_arg = OneFeature string jsval | FeatureObject "(string \<times> jsval) list"

fun addTest :: "feature_arg \<Rightarrow> doc_state \<Rightarrow> doc_state" where
  "addTest (OneFeature feature test) ds = addTest1 feature test ds"
| "addTest (FeatureObject entries) ds = fold (\<lambda>(k, v). addTest1 k v) entries ds"

subsection \<open>The classes of the root element\<close>

text \<open>
  \<open>replace(/(^|\s)no-js(\s|$)/, '$1$2')\<close>: the first \<open>no-js\<close> between the start or a blank and a blank or
  the end goes, the blanks stay. \<open>edge\<close> says whether the start or a blank comes right before.
\<close>

fun strip_nojs :: "bool \<Rightarrow> string \<Rightarrow> string" where
  "strip_nojs edge [] = []"
| "strip_nojs edge (c # s) =
     (if edge \<and> take 5 (c # s) = ''no-js'' \<and> (drop 5 (c # s) = [] \<or> is_ws (hd (drop 5 (c # s)))) then drop 5 (c # s)
      else c # strip_nojs (is_ws c) s)"

definition root_className :: "string \<Rightarrow> string list \<Rightarrow> string" where
  "root_className old names = strip_nojs True old @ '' js '' @ join_with '' '' names"

text \<open>
  Loading the script: the tests, the input tests, the exposed helpers and the class attribute.
  Objects of flags are lists of pairs; functions are references.
\<close>

definition flags_value :: "(string \<times> bool) list \<Rightarrow> jsval" where
  "flags_value fs = JArr (map (\<lambda>(k, b). JArr [JStr k, JBool b]) fs)"

definition exposed :: props where
  "exposed = [(''addTest'', JRef 1), (''_version'', JStr ''2.8.3''), (''_prefixes'', JArr (map JStr prefixes)),
     (''_domPrefixes'', JArr (map JStr domPrefixes)), (''_cssomPrefixes'', JArr (map JStr cssomPrefixes)), (''mq'', JRef 2),
     (''hasEvent'', JRef 3), (''testProp'', JRef 4), (''testAllProps'', JRef 5), (''testStyles'', JRef 6), (''prefixed'', JRef 7)]"

definition load_modernizr :: "ua \<Rightarrow> string \<Rightarrow> doc_state" where
  "load_modernizr U old =
     (let pg = run_tests U tests start_page;
          M1 = (if truthy (pget (modernizr pg) ''input'') then modernizr pg
                else pset ''inputtypes'' (flags_value (webforms_types U)) (pset ''input'' (flags_value (webforms_input U)) (modernizr pg)))
      in \<lparr>mz = fold (\<lambda>(k, v). pset k v) exposed M1, root_class = root_className old (class_names pg)\<rparr>)"

subsection \<open>The results and the classes\<close>

abbreviation feature_names :: "(string \<times> 'a) list \<Rightarrow> string list" where
  "feature_names ts \<equiv> map (\<lambda>t. toLowerCase (fst t)) ts"

lemma run_tests_snoc: "run_tests U (ts @ [t]) pg = run_test U t (run_tests U ts pg)"
  by (simp add: run_tests_def)

lemma run_tests_keys: "has_own (modernizr (run_tests U ts start_page)) k = (k \<in> set (feature_names ts))"
proof (induction ts rule: rev_induct)
  case Nil
  then show ?case by (simp add: run_tests_def start_page_def has_own_def)
next
  case (snoc t ts)
  then show ?case by (cases t) (auto simp: run_tests_snoc run_test_def Let_def)
qed

lemma run_tests_classes:
  assumes "distinct (feature_names ts)"
  shows "class_names (run_tests U ts start_page) = map (\<lambda>n. feature_class n (pget (modernizr (run_tests U ts start_page)) n)) (feature_names ts)"
  using assms
proof (induction ts rule: rev_induct)
  case Nil
  then show ?case by (simp add: run_tests_def start_page_def)
next
  case (snoc t ts)
  obtain f g where t: "t = (f, g)" by (cases t)
  have "toLowerCase (fst u) \<noteq> toLowerCase f" if "u \<in> set ts" for u
    using snoc.prems that by (auto simp: t image_iff)
  then show ?case using snoc by (simp add: t run_tests_snoc run_test_def Let_def)
qed

text \<open>A result depends on the results before it only; later tests do not change it.\<close>

lemma run_tests_result:
  assumes "distinct (feature_names (ts @ t # us))"
  shows "pget (modernizr (run_tests U (ts @ t # us) start_page)) (toLowerCase (fst t)) = snd t U (modernizr (run_tests U ts start_page))"
  using assms
proof (induction us rule: rev_induct)
  case Nil
  then show ?case by (cases t) (simp add: run_tests_snoc run_test_def Let_def)
next
  case (snoc u us)
  have "run_tests U (ts @ t # us @ [u]) start_page = run_test U u (run_tests U (ts @ t # us) start_page)"
    using run_tests_snoc [of U "ts @ t # us" u] by simp
  then show ?case using snoc by (cases u) (auto simp: run_test_def Let_def)
qed

lemma distinct_tests: "distinct (feature_names tests)"
  unfolding tests_def by code_simp

lemma tests_split:
  "(f, t) \<in> set tests \<Longrightarrow> \<exists>ts us. tests = ts @ (f, t) # us"
  by (meson split_list)


lemmas test_defs =
  test_flexbox_def test_flexboxlegacy_def test_canvas_def test_canvastext_def test_webgl_def
  test_touch_def test_geolocation_def test_postmessage_def test_websqldatabase_def test_indexedDB_def
  test_hashchange_def test_history_def test_draganddrop_def test_websockets_def test_rgba_def
  test_hsla_def test_multiplebgs_def test_backgroundsize_def test_borderimage_def test_borderradius_def
  test_boxshadow_def test_textshadow_def test_opacity_def test_cssanimations_def test_csscolumns_def
  test_cssgradients_def test_cssreflections_def test_csstransforms_def test_csstransforms3d_def test_csstransitions_def
  test_fontface_def test_generatedcontent_def test_localstorage_def test_sessionstorage_def test_webworkers_def
  test_applicationcache_def test_svg_def test_inlinesvg_def test_smil_def test_svgclippaths_def

lemma testPropsAll_bool [simp]: "\<exists>b. testPropsAll U n False = JBool b"
proof -
  have "\<exists>b. testProps U ns False = JBool b" for ns by (induction ns) auto
  then show ?thesis by (simp add: testPropsAll_def)
qed

text \<open>
  Every test answers with a truth value, apart from the two for media elements, whose answer is
  \<open>false\<close> or an object.
\<close>

theorem test_answers:
  assumes "(f, t) \<in> set tests"
  shows "(\<exists>b. t U M = JBool b) \<or> (\<exists>vs. (f = ''video'' \<or> f = ''audio'') \<and> t U M = JArr vs)"
proof -
  have "list_all (\<lambda>(f, t). (\<exists>b. t U M = JBool b) \<or> (f = ''video'' \<or> f = ''audio'') \<and> (\<exists>vs. t U M = JArr vs)) tests"
    unfolding tests_def by (simp add: test_defs media_value_def Let_def split: media.split) (auto intro: exI [of _ False])
  then show ?thesis using assms by (auto simp: list_all_iff)
qed

subsection \<open>Class attributes as lists of names\<close>

fun drop_nojs :: "string list \<Rightarrow> string list" where
  "drop_nojs [] = []"
| "drop_nojs (w # ws) = (if w = ''no-js'' then [] # ws else w # drop_nojs ws)"

lemma filter_drop_nojs: "filter (\<lambda>w. w \<noteq> []) (drop_nojs ws) = remove1 ''no-js'' (filter (\<lambda>w. w \<noteq> []) ws)"
  by (induction ws) auto

lemma strip_inside:
  "list_all (\<lambda>c. \<not> is_ws c) u \<Longrightarrow> strip_nojs False (u @ CHR '' '' # s) = u @ CHR '' '' # strip_nojs True s"
  "list_all (\<lambda>c. \<not> is_ws c) u \<Longrightarrow> strip_nojs False u = u"
  by (induction u) (simp_all add: is_ws_def)

lemma take_word:
  assumes "list_all (\<lambda>c. \<not> is_ws c) w" "take 5 (w @ s) = ''no-js''" "drop 5 (w @ s) = [] \<or> is_ws (hd (drop 5 (w @ s)))"
    and "s = [] \<or> is_ws (hd s)"
  shows "w = ''no-js''"
proof -
  consider "length w = 5" | "5 < length w" | "length w < 5" by linarith
  then show ?thesis
  proof cases
    case 1
    then show ?thesis using assms(2) by simp
  next
    case 2
    then have "hd (drop 5 (w @ s)) = w ! 5" "drop 5 (w @ s) \<noteq> []" by (simp_all add: hd_append hd_drop_conv_nth)
    then show ?thesis using assms(1,3) 2 by (simp add: list_all_length)
  next
    case 3
    then have "s \<noteq> []" using assms(2) by (cases s) (auto dest: arg_cong [of _ _ length])
    then have "''no-js'' ! length w = hd s" using 3 assms(2) [symmetric] by (simp add: nth_append hd_conv_nth)
    then have "is_ws (''no-js'' ! length w)" using assms(4) \<open>s \<noteq> []\<close> by simp
    moreover have "list_all (\<lambda>c. \<not> is_ws c) ''no-js''" by (simp add: is_ws_def)
    ultimately show ?thesis using 3 by (simp add: list_all_length)
  qed
qed

lemma strip_word:
  assumes "list_all (\<lambda>c. \<not> is_ws c) w"
  shows "strip_nojs True (w @ CHR '' '' # s) = (if w = ''no-js'' then CHR '' '' # s else w @ CHR '' '' # strip_nojs True s)"
    and "strip_nojs True w = (if w = ''no-js'' then [] else w)"
proof -
  have blank: "is_ws (CHR '' '')" by (simp add: is_ws_def)
  show "strip_nojs True (w @ CHR '' '' # s) = (if w = ''no-js'' then CHR '' '' # s else w @ CHR '' '' # strip_nojs True s)"
  proof (cases w)
    case Nil
    then show ?thesis by (simp add: blank)
  next
    case (Cons c u)
    have "strip_nojs (is_ws c) (u @ CHR '' '' # s) = u @ CHR '' '' # strip_nojs True s"
      using assms Cons strip_inside(1) by simp
    moreover have "(take 5 (w @ CHR '' '' # s) = ''no-js'' \<and> (drop 5 (w @ CHR '' '' # s) = [] \<or> is_ws (hd (drop 5 (w @ CHR '' '' # s))))) = (w = ''no-js'')"
      using take_word [OF assms, of "CHR '' '' # s"] blank by auto
    ultimately show ?thesis unfolding Cons append_Cons strip_nojs.simps(2) by auto
  qed
  show "strip_nojs True w = (if w = ''no-js'' then [] else w)"
  proof (cases w)
    case (Cons c u)
    have "strip_nojs (is_ws c) u = u" using assms Cons strip_inside(2) by simp
    moreover have "(take 5 w = ''no-js'' \<and> (drop 5 w = [] \<or> is_ws (hd (drop 5 w)))) = (w = ''no-js'')"
      using take_word [OF assms, of "[]"] by auto
    ultimately show ?thesis unfolding Cons strip_nojs.simps(2) by auto
  qed simp
qed

lemma strip_join:
  assumes "ws \<noteq> []" "list_all (list_all (\<lambda>c. \<not> is_ws c)) ws"
  shows "strip_nojs True (join_with '' '' ws) = join_with '' '' (drop_nojs ws)"
  using assms
proof (induction ws rule: list_nonempty_induct)
  case (single w)
  then show ?case by (simp add: strip_word)
next
  case (cons w ws)
  have ne: "drop_nojs ws \<noteq> []" using cons(1) by (cases ws) simp_all
  show ?case
    using cons ne by (simp add: join_with_Cons strip_word)
qed

lemma split_no_ws:
  "list_all (\<lambda>c. is_ws c \<longrightarrow> c = CHR '' '') s \<Longrightarrow> list_all (list_all (\<lambda>c. \<not> is_ws c)) (split_at (CHR '' '') s)"
proof (induction s)
  case (Cons c s)
  then show ?case by (cases "split_at (CHR '' '') s") auto
qed simp

text \<open>
  The class attribute after loading: where names are separated by blanks, the first \<open>no-js\<close> is
  gone, all other names are kept in order, and \<open>js\<close> and the classes of the tests follow.
\<close>

theorem root_class_names:
  assumes "list_all (\<lambda>c. is_ws c \<longrightarrow> c = CHR '' '') old" "list_all (\<lambda>w. w \<noteq> [] \<and> CHR '' '' \<notin> set w) names"
  shows "tokens (root_className old names) = remove1 ''no-js'' (tokens old) @ ''js'' # names"
proof -
  let ?ws = "split_at (CHR '' '') old"
  have ws: "list_all (list_all (\<lambda>c. \<not> is_ws c)) ?ws" using split_no_ws [OF assms(1)] .
  have "strip_nojs True old = join_with '' '' (drop_nojs ?ws)"
    using strip_join [OF split_at_Nil ws] by (simp add: join_split)
  moreover have "list_all (\<lambda>w. CHR '' '' \<notin> set w) (drop_nojs ?ws)"
  proof -
    have "is_ws (CHR '' '')" by (simp add: is_ws_def)
    then have "list_all (\<lambda>w. CHR '' '' \<notin> set w) ?ws" using ws by (auto simp: list_all_iff)
    moreover have "list_all (\<lambda>w. CHR '' '' \<notin> set w) vs \<Longrightarrow> list_all (\<lambda>w. CHR '' '' \<notin> set w) (drop_nojs vs)" for vs
      by (induction vs) auto
    ultimately show ?thesis by blast
  qed
  moreover have "drop_nojs ?ws \<noteq> []" using split_at_Nil [of "CHR '' ''" old] by (cases ?ws) simp_all
  ultimately have "tokens (strip_nojs True old) = remove1 ''no-js'' (tokens old)"
    by (simp add: tokens_def split_join filter_drop_nojs)
  moreover have "root_className old names = strip_nojs True old @ '' '' @ ''js'' @ '' '' @ join_with '' '' names"
    by (simp add: root_className_def)
  moreover have "tokens (''js'' @ '' '' @ join_with '' '' names) = ''js'' # names"
    unfolding tokens_append tokens_join [OF assms(2)] by (simp add: tokens_word)
  ultimately show ?thesis by (simp only: tokens_append)
qed

subsection \<open>Adding tests keeps the two views in step\<close>

lemma addTest1_known: "pget (mz ds) (toLowerCase f) \<noteq> JUndef \<Longrightarrow> addTest1 f v ds = ds"
  by (simp add: addTest1_def Let_def)

lemma addTest1_keeps: "pget (mz ds) k \<noteq> JUndef \<Longrightarrow> pget (mz (addTest1 f v ds)) k = pget (mz ds) k"
  by (auto simp: addTest1_def Let_def)

lemma addTest1_prefix: "prefix (root_class ds) (root_class (addTest1 f v ds))"
  by (simp add: addTest1_def Let_def)

definition class_name :: "string \<Rightarrow> bool" where
  "class_name n = (n \<noteq> [] \<and> CHR '' '' \<notin> set (toLowerCase n))"

text \<open>The entries that count: those whose feature is not known yet, and of these the first one.\<close>

fun new_features :: "props \<Rightarrow> (string \<times> jsval) list \<Rightarrow> (string \<times> jsval) list" where
  "new_features M [] = []"
| "new_features M ((f, v) # fs) =
     (if pget M (toLowerCase f) \<noteq> JUndef then new_features M fs
      else (toLowerCase f, v) # new_features (pset (toLowerCase f) v M) fs)"

lemma addTest_object:
  assumes "list_all (\<lambda>(f, v). class_name f) fs"
  shows "tokens (root_class (addTest (FeatureObject fs) ds)) = tokens (root_class ds) @ map (\<lambda>(n, v). feature_class n v) (new_features (mz ds) fs)"
  using assms
proof (induction fs arbitrary: ds)
  case (Cons x fs)
  obtain f v where x: "x = (f, v)" by (cases x)
  have "tokens (feature_class (toLowerCase f) v) = [feature_class (toLowerCase f) v]"
    using Cons.prems by (intro tokens_word) (auto simp: x feature_class_def class_name_def)
  then show ?case
    using Cons by (auto simp: x addTest1_def Let_def tokens_append [simplified])
qed simp

lemma addTest_keeps: "pget (mz ds) k \<noteq> JUndef \<Longrightarrow> pget (mz (addTest (FeatureObject fs) ds)) k = pget (mz ds) k"
proof (induction fs arbitrary: ds)
  case (Cons x fs)
  then show ?case by (cases x) (simp add: addTest1_keeps)
qed simp

lemma new_features_known:
  "list_all (\<lambda>(f, v). v \<noteq> JUndef) fs \<Longrightarrow> (f, v) \<in> set fs \<Longrightarrow> pget (mz (addTest (FeatureObject fs) ds)) (toLowerCase f) \<noteq> JUndef"
proof (induction fs arbitrary: ds)
  case (Cons x fs)
  obtain g w where x: "x = (g, w)" by (cases x)
  show ?case
  proof (cases "(f, v) = x")
    case True
    then have "pget (mz (addTest1 f v ds)) (toLowerCase f) \<noteq> JUndef"
      using Cons.prems by (auto simp: x addTest1_def Let_def)
    then show ?thesis using True addTest_keeps [of "addTest1 f v ds"] by (auto simp: x)
  next
    case False
    then show ?thesis using Cons by (auto simp: x)
  qed
qed simp

lemma addTest_all_known:
  "(\<And>f v. (f, v) \<in> set fs \<Longrightarrow> pget (mz ds) (toLowerCase f) \<noteq> JUndef) \<Longrightarrow> addTest (FeatureObject fs) ds = ds"
proof (induction fs)
  case (Cons x fs)
  obtain f v where x: "x = (f, v)" by (cases x)
  have "addTest1 f v ds = ds" using Cons.prems [of f v] by (intro addTest1_known) (simp add: x)
  moreover have "addTest (FeatureObject fs) ds = ds"
    using Cons.prems by (intro Cons.IH) auto
  ultimately show ?case by (simp add: x)
qed simp

text \<open>
  C18. Adding an object of tests never changes a feature that is known, adds to the class attribute
  one class for each new feature, in order, and nothing for the others; adding the same object
  again changes nothing, provided no test answers \<open>undefined\<close>.
\<close>

theorem addTest_spec:
  assumes "list_all (\<lambda>(f, v). class_name f \<and> v \<noteq> JUndef) fs" "ds' = addTest (FeatureObject fs) ds"
  shows "tokens (root_class ds') = tokens (root_class ds) @ map (\<lambda>(n, v). feature_class n v) (new_features (mz ds) fs)
    \<and> (pget (mz ds) k = JUndef \<or> pget (mz ds') k = pget (mz ds) k)
    \<and> addTest (FeatureObject fs) ds' = ds'"
proof -
  have "list_all (\<lambda>(f, v). class_name f) fs" "list_all (\<lambda>(f, v). v \<noteq> JUndef) fs"
    using assms(1) by (auto simp: list_all_iff)
  then show ?thesis
    using addTest_object [of fs ds] addTest_keeps [of ds k fs] addTest_all_known [of fs ds'] new_features_known [of fs _ _ ds]
    unfolding assms(2) by blast
qed

text \<open>With a test that answers \<open>undefined\<close> the class is added every time.\<close>

lemma addTest_undefined_repeats:
  assumes "pget (mz ds) (toLowerCase f) = JUndef"
  shows "root_class (addTest1 f JUndef (addTest1 f JUndef ds)) =
    root_class ds @ '' no-'' @ toLowerCase f @ '' no-'' @ toLowerCase f"
  using assms by (simp add: addTest1_def feature_class_def Let_def)

text \<open>A browser that says \<open>no\<close> to one audio type is not asked about the other.\<close>

lemma m4a_no_hides_aac:
  assumes "truthy (get_prop U (Elem ''audio'') ''canPlayType'')" "can_play U ''audio'' ''audio/x-m4a;'' = Some ''no''"
    and "can_play U ''audio'' ''audio/aac;'' = Some ''maybe''"
    and "can_play U ''audio'' (''audio/ogg;'' @ codecs ''vorbis'') = Some a" "can_play U ''audio'' ''audio/mpeg;'' = Some b"
    and "can_play U ''audio'' (''audio/wav;'' @ codecs ''1'') = Some c"
  shows "test_audio U = Media [(''ogg'', strip_no a), (''mp3'', strip_no b), (''wav'', strip_no c), (''m4a'', [])]"
  using assms by (simp add: test_audio_def play_m4a_def strip_no_def)

subsection \<open>Examples\<close>

theorem test_answers_witness: "\<exists>b. test_canvastext example_ua [] = JBool b"
proof -
  have "(''canvastext'', test_canvastext) \<in> set tests" by (simp add: tests_def)
  from test_answers [OF this, of example_ua "[]"] show ?thesis by simp
qed

theorem root_class_names_witness: "tokens (root_className ''a no-js  b'' [''no-svg'']) = [''a'', ''b'', ''js'', ''no-svg'']"
  using root_class_names [of "''a no-js  b''" "[''no-svg'']"] by (simp add: is_ws_def tokens_def)

definition example_state :: doc_state where
  "example_state = \<lparr>mz = [(''svg'', JBool True)], root_class = ''js svg''\<rparr>"

theorem addTest_spec_witness:
  "tokens (root_class (addTest (FeatureObject [(''svg'', JBool False), (''dart'', JBool False)]) example_state)) = [''js'', ''svg'', ''no-dart'']"
  using addTest_spec [of "[(''svg'', JBool False), (''dart'', JBool False)]" _ example_state, OF _ refl]
  by (simp add: example_state_def class_name_def lower_char_def tokens_def feature_class_def)

end
