(* ===== verification/JS_Monad.thy ===== *)
theory JS_Monad
  imports JS_Values
begin

section \<open>Stateful code that may throw\<close>

text \<open>
  Code that changes a state and may throw returns its result or the exception, and in both cases the
  state it leaves: what was done before an exception is not undone. The rules at the end carry the
  preservation proofs: a computation is \<open>quiet\<close> for a view of the state when it leaves the view as
  it is, whether it returns or throws.
\<close>

type_synonym ('s, 'a) js = "'s \<Rightarrow> (jserr + 'a) \<times> 's"

definition ret :: "'a \<Rightarrow> ('s, 'a) js" where
  "ret x s = (Inr x, s)"

definition throw :: "jserr \<Rightarrow> ('s, 'a) js" where
  "throw e s = (Inl e, s)"

definition bnd :: "('s, 'a) js \<Rightarrow> ('a \<Rightarrow> ('s, 'b) js) \<Rightarrow> ('s, 'b) js" where
  "bnd m f s = (case m s of (r, s') \<Rightarrow> (case r of Inl e \<Rightarrow> (Inl e, s') | Inr x \<Rightarrow> f x s'))"

definition modify :: "('s \<Rightarrow> 's) \<Rightarrow> ('s, unit) js" where
  "modify f s = (Inr (), f s)"

definition get :: "('s \<Rightarrow> 'a) \<Rightarrow> ('s, 'a) js" where
  "get f s = (Inr (f s), s)"

text \<open>Using a property that must be there: a call or a member access of \<open>undefined\<close> throws.\<close>

definition req :: "('s \<Rightarrow> 'a option) \<Rightarrow> ('s, 'a) js" where
  "req f s = (case f s of None \<Rightarrow> (Inl TypeError, s) | Some x \<Rightarrow> (Inr x, s))"

fun each_js :: "('a \<Rightarrow> ('s, unit) js) \<Rightarrow> 'a list \<Rightarrow> ('s, unit) js" where
  "each_js f [] = ret ()"
| "each_js f (x # xs) = bnd (f x) (\<lambda>_. each_js f xs)"

lemmas js_ops = ret_def throw_def bnd_def modify_def get_def req_def

lemma bnd_Inr [simp]: "m s = (Inr x, s') \<Longrightarrow> bnd m f s = f x s'"
  by (simp add: bnd_def)

lemma bnd_Inl [simp]: "m s = (Inl e, s') \<Longrightarrow> bnd m f s = (Inl e, s')"
  by (simp add: bnd_def)

lemma js_steps [simp]:
  "ret x s = (Inr x, s)" "throw e s = (Inl e, s)" "modify g s = (Inr (), g s)" "get h s = (Inr (h s), s)"
  "bnd (ret x) f s = f x s" "bnd (modify g) f' s = f' () (g s)" "bnd (get h) f'' s = f'' (h s) s"
  by (simp_all add: js_ops)

lemma req_simps [simp]: "h s = Some x \<Longrightarrow> req h s = (Inr x, s)" "h s = None \<Longrightarrow> req h s = (Inl TypeError, s)"
  by (simp_all add: req_def)

subsection \<open>Computations that leave a view of the state as it is\<close>

definition quiet :: "('s \<Rightarrow> 'v) \<Rightarrow> ('v \<Rightarrow> bool) \<Rightarrow> ('s, 'a) js \<Rightarrow> bool" where
  "quiet view P m = (\<forall>s. P (view s) \<longrightarrow> view (snd (m s)) = view s)"

named_theorems quiet_rules \<comment> \<open>introduction rules for \<open>quiet\<close>\<close>

lemma quietD: "quiet view P m \<Longrightarrow> P (view s) \<Longrightarrow> view (snd (m s)) = view s"
  unfolding quiet_def by blast

lemma quiet_basic [quiet_rules]:
  "quiet view P (ret x)" "quiet view P (throw e)" "quiet view P (get h)" "quiet view P (req h')"
  by (simp_all add: quiet_def req_def split: option.split)

lemma quiet_modify: "(\<And>s. view (g s) = view s) \<Longrightarrow> quiet view P (modify g)"
  by (simp add: quiet_def)

lemma quiet_bnd [quiet_rules]:
  assumes "quiet view P m" "\<And>x. quiet view P (f x)"
  shows "quiet view P (bnd m f)"
  unfolding quiet_def
proof (intro allI impI)
  fix s
  assume P: "P (view s)"
  obtain r s' where m: "m s = (r, s')" by fastforce
  then have v: "view s' = view s" using assms(1) P unfolding quiet_def by (metis snd_conv)
  show "view (snd (bnd m f s)) = view s"
    using m v P assms(2) by (cases r) (auto simp: bnd_def quiet_def)
qed

lemma quiet_each [quiet_rules]: "(\<And>x. quiet view P (f x)) \<Longrightarrow> quiet view P (each_js f xs)"
  by (induction xs) (auto intro: quiet_rules)

end
