(* ===== verification/Html5_Shiv.thy ===== *)
theory Html5_Shiv
  imports JS_Monad JS_Strings
begin

section \<open>The HTML5 shiv inside Modernizr\<close>

text \<open>
  \<open>modernizr-latest.js\<close>, lines 1010 to 1307: the methods \<open>createElement\<close> and
  \<open>createDocumentFragment\<close> of a document are replaced by methods that make an old browser know the
  HTML5 elements. A document is a number, the page's \<open>document\<close> is 0; \<open>docs\<close> holds the properties
  of the documents, \<open>expandoData\<close> the data kept for each of them. Every operation returns its
  result or the exception together with the state, which keeps what was done before an exception.
  A method is a value: the native one of a document, or the closure that \<open>shivMethods\<close> made; the
  saved method may again be such a closure, so calls carry the depth of the stack that is left, and
  running out of it is the \<open>RangeError\<close> of the language. What the browser answers is the record
  \<open>engine\<close>.
\<close>

subsection \<open>State\<close>

type_synonym docid = nat

record node =
  node_id :: nat
  node_name :: string

text \<open>\<open>Shived d i\<close>: the method made by \<open>shivMethods\<close> for document \<open>d\<close> and the data \<open>i\<close>;
  \<open>Unrolled f ns\<close>: the one that clones the fragment \<open>f\<close> and creates the elements \<open>ns\<close> in the clone.\<close>

datatype create_method = Native docid | Shived docid nat

datatype frag_method = NativeFrag docid | Unrolled nat "string list"

text \<open>An absent property is \<open>None\<close>.\<close>

record data =
  cache :: "(string \<times> node) list option"
  createElem :: "create_method option"
  createFrag :: "frag_method option"
  frag :: "nat option"
  hasCSS :: bool

text \<open>\<open>created\<close> are the names for which the native method of the document was called, \<open>sheets\<close> the
  texts of the style elements put in front of the children of the head (or the root) element.\<close>

record doc =
  expando :: "nat option"
  create_m :: create_method
  frag_m :: frag_method
  created :: "string list"
  sheets :: "string list"

record fragment =
  frag_created :: "string list"
  frag_kids :: "node list"

text \<open>\<open>html5.elements\<close> is a text or an array.\<close>

datatype element_names = Spaced string | Names "string list"

record html5 =
  elements :: element_names
  shivCSS :: bool
  shivMethods_on :: bool

record shiv =
  docs :: "docid \<Rightarrow> doc"
  expanID :: nat
  expandoData :: "nat \<Rightarrow> data option"
  frags :: "nat \<Rightarrow> fragment"
  next_frag :: nat
  next_node :: nat
  h5 :: html5

record engine =
  supportsHtml5Styles :: bool
  supportsUnknownElements :: bool
  canHaveChildren :: "string \<Rightarrow> bool"
  tagUrn :: "string \<Rightarrow> bool"

definition no_data :: data where
  "no_data = \<lparr>cache = None, createElem = None, createFrag = None, frag = None, hasCSS = False\<rparr>"

definition data_of :: "shiv \<Rightarrow> nat \<Rightarrow> data" where
  "data_of s i = (case expandoData s i of None \<Rightarrow> no_data | Some D \<Rightarrow> D)"

definition set_doc :: "docid \<Rightarrow> (doc \<Rightarrow> doc) \<Rightarrow> shiv \<Rightarrow> shiv" where
  "set_doc d f s = s\<lparr>docs := (docs s)(d := f (docs s d))\<rparr>"

definition set_data :: "nat \<Rightarrow> (data \<Rightarrow> data) \<Rightarrow> shiv \<Rightarrow> shiv" where
  "set_data i f s = s\<lparr>expandoData := (expandoData s)(i := Some (f (data_of s i)))\<rparr>"

definition set_frag :: "nat \<Rightarrow> (fragment \<Rightarrow> fragment) \<Rightarrow> shiv \<Rightarrow> shiv" where
  "set_frag f g s = s\<lparr>frags := (frags s)(f := g (frags s f))\<rparr>"

subsection \<open>Detecting what the browser supports\<close>

text \<open>What the probe finds, or the exception it runs into.\<close>

record probe_result =
  hidden_in_a :: bool
  xyz_children :: nat
  has_cloneNode :: bool
  has_createDocumentFragment :: bool
  has_createElement :: bool

definition detect :: "jserr + probe_result \<Rightarrow> bool \<times> bool" where
  "detect r =
     (case r of
        Inl e \<Rightarrow> (True, True)
      | Inr p \<Rightarrow> (hidden_in_a p, xyz_children p = 1 \<or>
          (\<not> has_cloneNode p \<or> \<not> has_createDocumentFragment p \<or> \<not> has_createElement p)))"

subsection \<open>Names\<close>

text \<open>The two regular expressions, which ignore the case.\<close>

definition reSkip :: "string \<Rightarrow> bool" where
  "reSkip n = (take 1 n = ''<'' \<or>
     toLowerCase n \<in> {''button'', ''map'', ''select'', ''textarea'', ''object'', ''iframe'', ''option'', ''optgroup''})"

definition saveClones :: "string \<Rightarrow> bool" where
  "saveClones n = (toLowerCase n \<in> {''a'', ''b'', ''code'', ''div'', ''fieldset'', ''h1'', ''h2'', ''h3'', ''h4'',
     ''h5'', ''h6'', ''i'', ''label'', ''li'', ''ol'', ''p'', ''q'', ''span'', ''strong'', ''style'', ''table'',
     ''tbody'', ''td'', ''th'', ''tr'', ''ul''})"

fun getElements :: "element_names \<Rightarrow> string list" where
  "getElements (Spaced t) = split_at (CHR '' '') t"
| "getElements (Names ns) = ns"

text \<open>The characters of \<open>[\w\-]\<close>, and the matches of \<open>/[\w\-]+/g\<close>.\<close>

definition word_char :: "char \<Rightarrow> bool" where
  "word_char c = (let n = of_char c :: nat
     in (48 \<le> n \<and> n \<le> 57) \<or> (65 \<le> n \<and> n \<le> 90) \<or> (97 \<le> n \<and> n \<le> 122) \<or> n = 95 \<or> n = 45)"

definition word_runs :: "string \<Rightarrow> string list" where
  "word_runs t = filter (\<lambda>w. w \<noteq> []) (split_at (CHR '','') (map (\<lambda>c. if word_char c then c else CHR '','') t))"

text \<open>The source text made from the names is a comma expression of calls. With no name, or with an
  empty one (two spaces in the text), it does not parse. Names of other characters than those above
  are not considered.\<close>

definition calls_parse :: "string list \<Rightarrow> bool" where
  "calls_parse ns = (ns \<noteq> [] \<and> [] \<notin> set ns)"

subsection \<open>Elements\<close>

definition native_create :: "docid \<Rightarrow> string \<Rightarrow> (shiv, node) js" where
  "native_create d name s =
     (Inr \<lparr>node_id = next_node s, node_name = name\<rparr>,
      set_doc d (\<lambda>D. D\<lparr>created := created D @ [name]\<rparr>) (s\<lparr>next_node := Suc (next_node s)\<rparr>))"

definition cloneNode :: "node \<Rightarrow> (shiv, node) js" where
  "cloneNode n s = (Inr \<lparr>node_id = next_node s, node_name = node_name n\<rparr>, s\<lparr>next_node := Suc (next_node s)\<rparr>)"

definition new_data :: "docid \<Rightarrow> shiv \<Rightarrow> shiv" where
  "new_data d s =
     (let i = Suc (expanID s)
      in set_data i (\<lambda>_. no_data) (set_doc d (\<lambda>D. D\<lparr>expando := Some i\<rparr>) (s\<lparr>expanID := i\<rparr>)))"

definition getExpandoData :: "docid \<Rightarrow> (shiv, nat) js" where
  "getExpandoData d s =
     (case expando (docs s d) of
        Some i \<Rightarrow> if expandoData s i \<noteq> None then (Inr i, s) else (Inr (Suc (expanID s)), new_data d s)
      | None \<Rightarrow> (Inr (Suc (expanID s)), new_data d s))"

text \<open>\<open>data.cache[nodeName]\<close>: an own entry, a method that the cache object inherits, or nothing.\<close>

datatype cached = Missing | Inherited | Cached node

definition object_members :: "string list" where
  "object_members = [''constructor'', ''toString'', ''toLocaleString'', ''valueOf'', ''hasOwnProperty'',
     ''isPrototypeOf'', ''propertyIsEnumerable'']"

definition cache_get :: "(string \<times> node) list \<Rightarrow> string \<Rightarrow> cached" where
  "cache_get c n = (case map_of c n of Some x \<Rightarrow> Cached x
     | None \<Rightarrow> if n \<in> set object_members then Inherited else Missing)"

definition cache_put :: "nat \<Rightarrow> string \<Rightarrow> node \<Rightarrow> (shiv, unit) js" where
  "cache_put i n x = modify (set_data i (\<lambda>D. D\<lparr>cache := map_option (AList.update n x) (cache D)\<rparr>))"

text \<open>\<open>data.createElem(nodeName)\<close>, with the way to run a method.\<close>

definition call_saved :: "(create_method \<Rightarrow> string \<Rightarrow> (shiv, node) js) \<Rightarrow> nat \<Rightarrow> string \<Rightarrow> (shiv, node) js" where
  "call_saved run i name = bnd (req (\<lambda>s. createElem (data_of s i))) (\<lambda>m. run m name)"

definition make_node :: "(create_method \<Rightarrow> string \<Rightarrow> (shiv, node) js) \<Rightarrow> nat \<Rightarrow> string \<Rightarrow> (shiv, node) js" where
  "make_node run i name =
     bnd (req (\<lambda>s. cache (data_of s i))) (\<lambda>c.
       case cache_get c name of
         Cached x \<Rightarrow> cloneNode x
       | Inherited \<Rightarrow> throw TypeError
       | Missing \<Rightarrow>
           if saveClones name then
             bnd (call_saved run i name) (\<lambda>x. bnd (cache_put i name x) (\<lambda>_. cloneNode x))
           else call_saved run i name)"

definition place_node :: "engine \<Rightarrow> nat \<Rightarrow> string \<Rightarrow> node \<Rightarrow> (shiv, node) js" where
  "place_node E i name x =
     (if canHaveChildren E (node_name x) \<and> \<not> reSkip name \<and> \<not> tagUrn E (node_name x) then
        bnd (req (\<lambda>s. frag (data_of s i))) (\<lambda>f.
          bnd (modify (set_frag f (\<lambda>F. F\<lparr>frag_kids := frag_kids F @ [x]\<rparr>))) (\<lambda>_. ret x))
      else ret x)"

definition owner :: "docid option \<Rightarrow> docid" where
  "owner od = (case od of None \<Rightarrow> 0 | Some d \<Rightarrow> d)"

definition createElement ::
  "engine \<Rightarrow> (create_method \<Rightarrow> string \<Rightarrow> (shiv, node) js) \<Rightarrow> string \<Rightarrow> docid option \<Rightarrow> nat option \<Rightarrow> (shiv, node) js" where
  "createElement E run name od dat =
     (if supportsUnknownElements E then bnd (get (\<lambda>s. create_m (docs s (owner od)))) (\<lambda>m. run m name)
      else bnd (case dat of None \<Rightarrow> getExpandoData (owner od) | Some i \<Rightarrow> ret i) (\<lambda>i.
             bnd (make_node run i name) (\<lambda>x. place_node E i name x)))"

text \<open>Calling a method with a stack of the given depth.\<close>

primrec call_method :: "engine \<Rightarrow> nat \<Rightarrow> create_method \<Rightarrow> string \<Rightarrow> (shiv, node) js" where
  "call_method E 0 = (\<lambda>m name. throw (Thrown ''RangeError''))"
| "call_method E (Suc k) = (\<lambda>m name.
     case m of
       Native d \<Rightarrow> native_create d name
     | Shived d i \<Rightarrow>
         bnd (get (\<lambda>s. shivMethods_on (h5 s))) (\<lambda>on.
           if \<not> on then call_saved (call_method E k) i name
           else createElement E (call_method E k) name (Some d) (Some i)))"

declare call_method.simps [simp del]

definition document_createElement :: "engine \<Rightarrow> nat \<Rightarrow> docid \<Rightarrow> string \<Rightarrow> (shiv, node) js" where
  "document_createElement E k d name = bnd (get (\<lambda>s. create_m (docs s d))) (\<lambda>m. call_method E k m name)"

definition html5_createElement :: "engine \<Rightarrow> nat \<Rightarrow> docid option \<Rightarrow> string \<Rightarrow> (shiv, node) js" where
  "html5_createElement E k od name = createElement E (call_method E k) name od None"

subsection \<open>Fragments\<close>

definition new_frag :: "string list \<Rightarrow> (shiv, nat) js" where
  "new_frag ns s =
     (Inr (next_frag s), s\<lparr>frags := (frags s)(next_frag s := \<lparr>frag_created = ns, frag_kids = []\<rparr>),
        next_frag := Suc (next_frag s)\<rparr>)"

text \<open>\<open>cloneNode()\<close> copies no children, so a clone is a new fragment.\<close>

definition call_frag :: "frag_method \<Rightarrow> (shiv, nat) js" where
  "call_frag m =
     (case m of
        NativeFrag d \<Rightarrow> new_frag []
      | Unrolled f ns \<Rightarrow> bnd (get (\<lambda>s. shivMethods_on (h5 s))) (\<lambda>on. new_frag (if on then ns else [])))"

definition frag_createElement :: "nat \<Rightarrow> string \<Rightarrow> (shiv, unit) js" where
  "frag_createElement f name = modify (set_frag f (\<lambda>F. F\<lparr>frag_created := frag_created F @ [name]\<rparr>))"

definition createDocumentFragment :: "engine \<Rightarrow> docid option \<Rightarrow> nat option \<Rightarrow> (shiv, nat) js" where
  "createDocumentFragment E od dat =
     (if supportsUnknownElements E then bnd (get (\<lambda>s. frag_m (docs s (owner od)))) call_frag
      else bnd (case dat of None \<Rightarrow> getExpandoData (owner od) | Some i \<Rightarrow> ret i) (\<lambda>i.
             bnd (req (\<lambda>s. frag (data_of s i))) (\<lambda>_.
             bnd (new_frag []) (\<lambda>clone.
             bnd (get (\<lambda>s. getElements (elements (h5 s)))) (\<lambda>elems.
             bnd (each_js (frag_createElement clone) elems) (\<lambda>_. ret clone))))))"

definition document_createDocumentFragment :: "docid \<Rightarrow> (shiv, nat) js" where
  "document_createDocumentFragment d = bnd (get (\<lambda>s. frag_m (docs s d))) call_frag"

subsection \<open>Shiving a document\<close>

definition save_methods :: "docid \<Rightarrow> nat \<Rightarrow> (shiv, unit) js" where
  "save_methods d i =
     bnd (get (\<lambda>s. cache (data_of s i))) (\<lambda>c.
       if c \<noteq> None then ret ()
       else
         bnd (get (\<lambda>s. docs s d)) (\<lambda>D.
         bnd (modify (set_data i (\<lambda>A. A\<lparr>cache := Some [], createElem := Some (create_m D), createFrag := Some (frag_m D)\<rparr>))) (\<lambda>_.
         bnd (call_frag (frag_m D)) (\<lambda>f. modify (set_data i (\<lambda>A. A\<lparr>frag := Some f\<rparr>))))))"

text \<open>The function given to \<open>replace\<close>, for one name.\<close>

definition announce :: "engine \<Rightarrow> nat \<Rightarrow> nat \<Rightarrow> string \<Rightarrow> (shiv, unit) js" where
  "announce E k i name =
     bnd (call_saved (call_method E k) i name) (\<lambda>_.
     bnd (req (\<lambda>s. frag (data_of s i))) (\<lambda>f. frag_createElement f name))"

definition shivMethods :: "engine \<Rightarrow> nat \<Rightarrow> docid \<Rightarrow> nat \<Rightarrow> (shiv, unit) js" where
  "shivMethods E k d i =
     bnd (save_methods d i) (\<lambda>_.
     bnd (modify (set_doc d (\<lambda>D. D\<lparr>create_m := Shived d i\<rparr>))) (\<lambda>_.
     bnd (get (\<lambda>s. getElements (elements (h5 s)))) (\<lambda>elems.
     bnd (each_js (announce E k i) (word_runs (join_with '','' elems))) (\<lambda>_.
       if \<not> calls_parse elems then throw (Thrown ''SyntaxError'')
       else bnd (req (\<lambda>s. frag (data_of s i))) (\<lambda>f.
              modify (set_doc d (\<lambda>D. D\<lparr>frag_m := Unrolled f (word_runs (join_with '','' elems))\<rparr>)))))))"

definition addStyleSheet :: "engine \<Rightarrow> nat \<Rightarrow> docid \<Rightarrow> string \<Rightarrow> (shiv, unit) js" where
  "addStyleSheet E k d cssText =
     bnd (document_createElement E k d ''p'') (\<lambda>p. modify (set_doc d (\<lambda>D. D\<lparr>sheets := cssText # sheets D\<rparr>)))"

definition shiv_css :: string where
  "shiv_css = ''article,aside,dialog,figcaption,figure,footer,header,hgroup,main,nav,section{display:block}'' @
     ''mark{background:#FF0;color:#000}'' @ ''template{display:none}''"

definition shiv_styles :: "engine \<Rightarrow> nat \<Rightarrow> docid \<Rightarrow> nat \<Rightarrow> (shiv, unit) js" where
  "shiv_styles E k d i =
     bnd (get (\<lambda>s. shivCSS (h5 s) \<and> \<not> supportsHtml5Styles E \<and> \<not> hasCSS (data_of s i))) (\<lambda>b.
       if b then bnd (addStyleSheet E k d shiv_css) (\<lambda>_. modify (set_data i (\<lambda>A. A\<lparr>hasCSS := True\<rparr>)))
       else ret ())"

definition shivDocument :: "engine \<Rightarrow> nat \<Rightarrow> docid option \<Rightarrow> (shiv, docid) js" where
  "shivDocument E k od =
     bnd (getExpandoData (owner od)) (\<lambda>i.
     bnd (shiv_styles E k (owner od) i) (\<lambda>_.
     bnd (if supportsUnknownElements E then ret () else shivMethods E k (owner od) i) (\<lambda>_. ret (owner od))))"

subsection \<open>The object \<open>html5\<close>\<close>

text \<open>The options found in \<open>window.html5\<close>: an absent or empty list of elements is replaced by the default.\<close>

record shiv_options =
  opt_elements :: "element_names option"
  opt_shivCSS :: jsval
  opt_shivMethods :: jsval

definition default_elements :: string where
  "default_elements = ''abbr article aside audio bdi canvas data datalist details dialog figcaption figure footer '' @
     ''header hgroup main mark meter nav output progress section summary template time video''"

definition html5_object :: "shiv_options \<Rightarrow> html5" where
  "html5_object opts =
     \<lparr>elements = (case opt_elements opts of
         None \<Rightarrow> Spaced default_elements
       | Some e \<Rightarrow> if e = Spaced [] then Spaced default_elements else e),
      shivCSS = (\<not> strict_eq (opt_shivCSS opts) (JBool False)),
      shivMethods_on = (\<not> strict_eq (opt_shivMethods opts) (JBool False))\<rparr>"

text \<open>Running the script: detection gave the engine, then \<open>html5\<close> is made and the page is shived.\<close>

definition run_shiv :: "engine \<Rightarrow> nat \<Rightarrow> shiv_options \<Rightarrow> (shiv, docid) js" where
  "run_shiv E k opts = bnd (modify (\<lambda>s. s\<lparr>h5 := html5_object opts\<rparr>)) (\<lambda>_. shivDocument E k None)"

subsection \<open>Using the shiv\<close>

datatype shiv_event =
    ShivDocument "docid option"
  | CreateElement docid string
  | CreateFragment docid
  | Html5CreateElement "docid option" string
  | Html5CreateFragment "docid option"
  | SetHtml5 html5

fun shiv_exec :: "engine \<Rightarrow> nat \<Rightarrow> shiv_event \<Rightarrow> shiv \<Rightarrow> shiv" where
  "shiv_exec E k (ShivDocument od) s = snd (shivDocument E k od s)"
| "shiv_exec E k (CreateElement d n) s = snd (document_createElement E k d n s)"
| "shiv_exec E k (CreateFragment d) s = snd (document_createDocumentFragment d s)"
| "shiv_exec E k (Html5CreateElement od n) s = snd (html5_createElement E k od n s)"
| "shiv_exec E k (Html5CreateFragment od) s = snd (createDocumentFragment E od None s)"
| "shiv_exec E k (SetHtml5 h) s = s\<lparr>h5 := h\<rparr>"

definition fresh_shiv :: "shiv \<Rightarrow> bool" where
  "fresh_shiv s = (expanID s = 0 \<and> expandoData s = (\<lambda>_. None) \<and>
     (\<forall>d. docs s d = \<lparr>expando = None, create_m = Native d, frag_m = NativeFrag d, created = [], sheets = []\<rparr>))"

subsection \<open>The state that the invariant speaks of\<close>

text \<open>Everything but the log of native calls, the nodes and the fragments.\<close>

definition view :: "shiv \<Rightarrow> nat \<times> (nat \<Rightarrow> data option) \<times> html5 \<times> (docid \<Rightarrow> doc)" where
  "view s = (expanID s, expandoData s, h5 s, \<lambda>d. (docs s d)\<lparr>created := []\<rparr>)"

lemma view_docs:
  assumes "view s = view s'"
  shows "expando (docs s d) = expando (docs s' d)" "create_m (docs s d) = create_m (docs s' d)"
    "frag_m (docs s d) = frag_m (docs s' d)" "sheets (docs s d) = sheets (docs s' d)"
proof -
  have "(docs s d)\<lparr>created := []\<rparr> = (docs s' d)\<lparr>created := []\<rparr>"
    using assms unfolding view_def by (metis prod.inject)
  then show "expando (docs s d) = expando (docs s' d)" "create_m (docs s d) = create_m (docs s' d)"
    "frag_m (docs s d) = frag_m (docs s' d)" "sheets (docs s d) = sheets (docs s' d)"
    by (metis doc.select_convs doc.surjective doc.update_convs(4))+
qed

lemma view_data:
  assumes "view s = view s'"
  shows "expanID s = expanID s'" "expandoData s = expandoData s'" "h5 s = h5 s'" "data_of s i = data_of s' i"
  using assms by (simp_all add: view_def data_of_def)

lemma quiet_nodes [quiet_rules]:
  "quiet view P (native_create d n)" "quiet view P (cloneNode x)" "quiet view P (new_frag ns)"
  "quiet view P (frag_createElement f n)"
  by (auto simp: quiet_def view_def native_create_def cloneNode_def new_frag_def frag_createElement_def set_frag_def set_doc_def)

lemma quiet_call_frag [quiet_rules]: "quiet view P (call_frag m)"
  by (cases m) (auto simp: call_frag_def intro!: quiet_rules)

lemma quiet_place [quiet_rules]: "quiet view P (place_node E i n x)"
  by (auto simp: place_node_def set_frag_def view_def intro!: quiet_rules quiet_modify)

lemma set_data_of [simp]:
  "data_of (set_data i f s) j = (if j = i then f (data_of s i) else data_of s j)" "docs (set_data i f s) = docs s"
  "expanID (set_data i f s) = expanID s" "h5 (set_data i f s) = h5 s"
  "expandoData (set_data i f s) = (expandoData s)(i := Some (f (data_of s i)))"
  by (simp_all add: set_data_def data_of_def)

lemma set_doc_of [simp]:
  "docs (set_doc d f s) d' = (if d' = d then f (docs s d) else docs s d')" "data_of (set_doc d f s) i = data_of s i"
  "expanID (set_doc d f s) = expanID s" "expandoData (set_doc d f s) = expandoData s" "h5 (set_doc d f s) = h5 s"
  by (simp_all add: set_doc_def data_of_def)

subsection \<open>The invariant\<close>

definition data_ok :: "engine \<Rightarrow> docid \<Rightarrow> data \<Rightarrow> bool" where
  "data_ok E d A =
     (case cache A of
        None \<Rightarrow> createElem A = None \<and> createFrag A = None \<and> frag A = None
      | Some c \<Rightarrow> \<not> supportsUnknownElements E \<and> createElem A = Some (Native d) \<and> createFrag A = Some (NativeFrag d)
          \<and> frag A \<noteq> None \<and> list_all (\<lambda>(n, x). node_name x = n) c)"

definition methods_ok :: "docid \<Rightarrow> nat \<Rightarrow> doc \<Rightarrow> data \<Rightarrow> bool" where
  "methods_ok d i D A =
     ((create_m D = Native d \<or> create_m D = Shived d i \<and> cache A \<noteq> None) \<and>
      (case frag_m D of NativeFrag d' \<Rightarrow> d' = d | Unrolled f ns \<Rightarrow> cache A \<noteq> None \<and> frag A = Some f))"

definition doc_ok :: "engine \<Rightarrow> shiv \<Rightarrow> docid \<Rightarrow> bool" where
  "doc_ok E s d =
     (case expando (docs s d) of
        None \<Rightarrow> create_m (docs s d) = Native d \<and> frag_m (docs s d) = NativeFrag d \<and> sheets (docs s d) = []
      | Some i \<Rightarrow> i \<le> expanID s \<and> expandoData s i \<noteq> None \<and> data_ok E d (data_of s i)
          \<and> methods_ok d i (docs s d) (data_of s i)
          \<and> sheets (docs s d) = (if hasCSS (data_of s i) then [shiv_css] else []))"

definition shiv_inv :: "engine \<Rightarrow> shiv \<Rightarrow> bool" where
  "shiv_inv E s =
     ((\<forall>d. doc_ok E s d) \<and> (\<forall>i. expanID s < i \<longrightarrow> expandoData s i = None) \<and>
      (\<forall>d d' i. expando (docs s d) = Some i \<longrightarrow> expando (docs s d') = Some i \<longrightarrow> d = d'))"

text \<open>The document \<open>d\<close> owns the data \<open>i\<close>.\<close>

abbreviation owns :: "shiv \<Rightarrow> docid \<Rightarrow> nat \<Rightarrow> bool" where
  "owns s d i \<equiv> expando (docs s d) = Some i"

lemma inv_view:
  assumes "view s = view s'"
  shows "shiv_inv E s = shiv_inv E s'"
  unfolding shiv_inv_def doc_ok_def methods_ok_def view_docs [OF assms] view_data [OF assms] ..

lemma fresh_inv: "fresh_shiv s \<Longrightarrow> shiv_inv E s"
  by (simp add: fresh_shiv_def shiv_inv_def doc_ok_def)

lemma inv_owns:
  assumes "shiv_inv E s" "owns s d i"
  shows "data_ok E d (data_of s i)" "methods_ok d i (docs s d) (data_of s i)" "i \<le> expanID s" "expandoData s i \<noteq> None"
    "sheets (docs s d) = (if hasCSS (data_of s i) then [shiv_css] else [])" "owns s d' i \<Longrightarrow> d' = d"
proof -
  have "doc_ok E s d" using assms(1) unfolding shiv_inv_def by blast
  then show "data_ok E d (data_of s i)" "methods_ok d i (docs s d) (data_of s i)" "i \<le> expanID s" "expandoData s i \<noteq> None"
    "sheets (docs s d) = (if hasCSS (data_of s i) then [shiv_css] else [])"
    unfolding doc_ok_def assms(2) by simp_all
  show "owns s d' i \<Longrightarrow> d' = d" using assms unfolding shiv_inv_def by blast
qed

text \<open>Changing the data and the properties of one document, with the same identifier.\<close>

lemma inv_update:
  assumes "shiv_inv E s" "owns s d i"
    and "\<And>d'. d' \<noteq> d \<Longrightarrow> docs s' d' = docs s d'" "\<And>j. j \<noteq> i \<Longrightarrow> expandoData s' j = expandoData s j"
    and "expanID s' = expanID s" "owns s' d i" "expandoData s' i \<noteq> None"
    and "data_ok E d (data_of s' i)" "methods_ok d i (docs s' d) (data_of s' i)"
    and "sheets (docs s' d) = (if hasCSS (data_of s' i) then [shiv_css] else [])"
  shows "shiv_inv E s'"
proof -
  have ow: "owns s' d' j \<longleftrightarrow> owns s d' j" for d' j
    using assms(2,3,6) by (cases "d' = d") simp_all
  have "doc_ok E s' d'" for d'
  proof (cases "d' = d")
    case True
    then show ?thesis using assms inv_owns(3) [OF assms(1,2)] by (simp add: doc_ok_def)
  next
    case False
    then have "expando (docs s d') \<noteq> Some i" using inv_owns(6) [OF assms(1,2)] by blast
    then have "data_of s' j = data_of s j" "expandoData s' j = expandoData s j" if "owns s d' j" for j
      using that assms(4) [of j] by (auto simp: data_of_def)
    moreover have "doc_ok E s d'" using assms(1) unfolding shiv_inv_def by blast
    ultimately show ?thesis using False assms(3,5) by (simp add: doc_ok_def split: option.splits)
  qed
  moreover have "expandoData s' j = None" if "expanID s' < j" for j
    using that assms(1,4,5) inv_owns(3) [OF assms(1,2)] unfolding shiv_inv_def by (metis leD)
  ultimately show ?thesis using assms(1) unfolding shiv_inv_def ow by blast
qed

subsection \<open>Every operation keeps the invariant\<close>

text \<open>What later states keep, and a result with the right name and a new identity, in a state that
  satisfies the invariant.\<close>

definition later :: "shiv \<Rightarrow> shiv \<Rightarrow> bool" where
  "later s s' = ((\<forall>d i. owns s d i \<longrightarrow> owns s' d i \<and> hasCSS (data_of s' i) = hasCSS (data_of s i) \<and>
       (cache (data_of s i) \<noteq> None \<longrightarrow> cache (data_of s' i) \<noteq> None)) \<and> h5 s' = h5 s \<and>
     next_node s \<le> next_node s')"

definition makes :: "engine \<Rightarrow> shiv \<Rightarrow> string \<Rightarrow> (jserr + node) \<times> shiv \<Rightarrow> bool" where
  "makes E s n res = (shiv_inv E (snd res) \<and> later s (snd res) \<and>
     (case fst res of Inl e \<Rightarrow> True | Inr x \<Rightarrow> node_name x = n \<and> next_node s \<le> node_id x \<and> node_id x < next_node (snd res)))"

lemma later_refl [simp]: "later s s"
  by (simp add: later_def)

lemma later_trans: "later s s1 \<Longrightarrow> later s1 s2 \<Longrightarrow> later s s2"
  unfolding later_def by (metis order_trans)

lemma later_view: "view s' = view s \<Longrightarrow> next_node s \<le> next_node s' \<Longrightarrow> later s s'"
  using view_docs(1) [of s' s] view_data(3,4) [of s' s] by (simp add: later_def)

lemma makes_later:
  assumes "makes E s1 n res" "later s s1"
  shows "makes E s n res"
  using assms later_trans [OF assms(2), of "snd res"] by (auto simp: makes_def later_def [of s s1] split: sum.splits)

lemma quiet_inv: "quiet view (\<lambda>_. True) m \<Longrightarrow> shiv_inv E s \<Longrightarrow> shiv_inv E (snd (m s))"
  using quietD [of view "\<lambda>_. True" m s] inv_view by blast

lemma quiet_later: "quiet view (\<lambda>_. True) m \<Longrightarrow> next_node s \<le> next_node (snd (m s)) \<Longrightarrow> later s (snd (m s))"
  using quietD [of view "\<lambda>_. True" m s] later_view by blast

lemma native_makes: "shiv_inv E s \<Longrightarrow> makes E s n (native_create d n s)"
  using quiet_inv [OF quiet_nodes(1)] quiet_later [OF quiet_nodes(1), of s d n] by (simp add: makes_def native_create_def set_doc_def)

lemma clone_makes: "shiv_inv E s \<Longrightarrow> node_name x = n \<Longrightarrow> makes E s n (cloneNode x s)"
  using quiet_inv [OF quiet_nodes(2)] quiet_later [OF quiet_nodes(2), of s x] by (simp add: makes_def cloneNode_def)

lemma makes_throw: "shiv_inv E s \<Longrightarrow> makes E s n (Inl e, s)"
  by (simp add: makes_def)

text \<open>The saved method is the native one: a closure of \<open>shivMethods\<close> is never saved.\<close>

lemma call_saved_native:
  assumes "shiv_inv E s" "owns s d i"
  shows "call_saved (call_method E k) i n s =
    (if cache (data_of s i) = None then (Inl TypeError, s)
     else if k = 0 then (Inl (Thrown ''RangeError''), s) else native_create d n s)"
  using inv_owns(1) [OF assms] by (cases k) (auto simp: call_saved_def call_method.simps data_ok_def split: option.splits)

lemma call_saved_view:
  assumes "shiv_inv E s" "owns s d i"
  shows "view (snd (call_saved (call_method E k) i n s)) = view s"
  using quietD [OF quiet_nodes(1) [of "\<lambda>_. True" d n], of s] by (simp add: call_saved_native [OF assms])

lemma call_saved_makes:
  assumes "shiv_inv E s" "owns s d i"
  shows "makes E s n (call_saved (call_method E k) i n s)"
  using native_makes [OF assms(1)] makes_throw [OF assms(1)] by (simp add: call_saved_native [OF assms])

definition put_cache :: "string \<Rightarrow> node \<Rightarrow> data \<Rightarrow> data" where
  "put_cache n x A = A\<lparr>cache := map_option (AList.update n x) (cache A)\<rparr>"

lemma update_named: "list_all (\<lambda>(n, x). node_name x = n) c \<Longrightarrow> list_all (\<lambda>(n, x). node_name x = n) (AList.update (node_name x) x c)"
  by (induction c) auto

lemma put_cache_ok: "data_ok E d A \<Longrightarrow> node_name x = n \<Longrightarrow> data_ok E d (put_cache n x A)"
  by (cases "cache A") (auto simp: data_ok_def put_cache_def update_named)

lemma put_cache_methods: "methods_ok d i D A \<Longrightarrow> methods_ok d i D (put_cache n x A)" "hasCSS (put_cache n x A) = hasCSS A"
    "(cache (put_cache n x A) = None) = (cache A = None)"
  by (simp_all add: methods_ok_def put_cache_def split: frag_method.splits)

lemma cache_put_step: "cache_put i n x s = (Inr (), set_data i (put_cache n x) s)"
  by (simp add: cache_put_def put_cache_def [abs_def])

lemma cache_put_inv:
  assumes "shiv_inv E s" "owns s d i" "node_name x = n"
  shows "shiv_inv E (set_data i (put_cache n x) s)"
proof (rule inv_update [OF assms(1,2)])
  show "data_ok E d (data_of (set_data i (put_cache n x) s) i)"
    using put_cache_ok [OF inv_owns(1) [OF assms(1,2)] assms(3)] by simp
  show "methods_ok d i (docs (set_data i (put_cache n x) s) d) (data_of (set_data i (put_cache n x) s) i)"
    using put_cache_methods(1) [OF inv_owns(2) [OF assms(1,2)]] by simp
  show "sheets (docs (set_data i (put_cache n x) s) d) = (if hasCSS (data_of (set_data i (put_cache n x) s) i) then [shiv_css] else [])"
    using inv_owns(5) [OF assms(1,2)] by (simp add: put_cache_methods(2))
qed (use assms(2) in simp_all)

lemma cache_put_later: "later s (set_data i (put_cache n x) s)"
  by (simp add: later_def put_cache_methods(2,3) del: not_None_eq) (simp add: set_data_def)

lemma make_node_makes:
  assumes "shiv_inv E s" "owns s d i"
  shows "makes E s n (make_node (call_method E k) i n s)"
proof (cases "cache (data_of s i)")
  case None
  then show ?thesis using assms by (simp add: make_node_def makes_def)
next
  case (Some c)
  have c: "list_all (\<lambda>(n, x). node_name x = n) c" using inv_owns(1) [OF assms] by (simp add: data_ok_def Some)
  show ?thesis
  proof (cases "cache_get c n")
    case Missing
    obtain r s1 where r: "call_saved (call_method E k) i n s = (r, s1)" by fastforce
    have m: "makes E s n (r, s1)" using call_saved_makes [OF assms, of n k] by (simp add: r)
    then have s1: "shiv_inv E s1" "later s s1" "owns s1 d i" using assms(2) by (auto simp: makes_def later_def)
    show ?thesis
    proof (cases "saveClones n \<and> (\<exists>x. r = Inr x)")
      case True
      then obtain x where x: "r = Inr x" "saveClones n" by blast
      then have nx: "node_name x = n" using m by (simp add: makes_def)
      have "make_node (call_method E k) i n s = cloneNode x (set_data i (put_cache n x) s1)"
        using Some Missing r x by (simp add: make_node_def cache_put_step)
      then show ?thesis
        using makes_later [OF clone_makes [OF cache_put_inv [OF s1(1,3) nx] nx] later_trans [OF s1(2) cache_put_later]] by simp
    next
      case False
      then have "make_node (call_method E k) i n s = (r, s1)"
        using Some Missing r by (cases r) (auto simp: make_node_def)
      then show ?thesis using m by simp
    qed
  next
    case Inherited
    then show ?thesis using assms Some by (simp add: make_node_def makes_def)
  next
    case (Cached x)
    then have "(n, x) \<in> set c" by (auto simp: cache_get_def split: option.splits if_splits dest: map_of_SomeD)
    then have "node_name x = n" using c by (auto simp: list_all_iff)
    then show ?thesis using Some Cached clone_makes [OF assms(1), of x n] by (simp add: make_node_def)
  qed
qed

lemma new_data_of [simp]:
  "docs (new_data d s) d' = (if d' = d then (docs s d)\<lparr>expando := Some (Suc (expanID s))\<rparr> else docs s d')"
  "data_of (new_data d s) i = (if i = Suc (expanID s) then no_data else data_of s i)"
  "expanID (new_data d s) = Suc (expanID s)" "h5 (new_data d s) = h5 s" "next_node (new_data d s) = next_node s"
  "expandoData (new_data d s) = (expandoData s)(Suc (expanID s) := Some no_data)"
  by (simp_all add: new_data_def Let_def set_doc_def set_data_def data_of_def)

lemma new_data_inv:
  assumes "shiv_inv E s" "expando (docs s d) = None"
  shows "shiv_inv E (new_data d s)"
proof -
  have ids: "i \<le> expanID s" if "owns s d' i" for d' i using inv_owns(3) [OF assms(1) that] .
  have "doc_ok E (new_data d s) d'" for d'
  proof -
    have "doc_ok E s d'" using assms(1) unfolding shiv_inv_def by blast
    then show ?thesis
      using assms(2) ids [of d'] by (cases "d' = d") (auto simp: doc_ok_def data_ok_def methods_ok_def no_data_def split: option.splits)
  qed
  moreover have "\<forall>i. expanID (new_data d s) < i \<longrightarrow> expandoData (new_data d s) i = None"
    using assms(1) unfolding shiv_inv_def by simp
  moreover have "d1 = d2" if "owns (new_data d s) d1 i" "owns (new_data d s) d2 i" for d1 d2 i
    using that ids [of d1 i] ids [of d2 i] assms(1) unfolding shiv_inv_def by (auto split: if_splits)
  ultimately show ?thesis unfolding shiv_inv_def by blast
qed

text \<open>The data of a document: those it owns, or new ones.\<close>

lemma getExpandoData_owned: "shiv_inv E s \<Longrightarrow> owns s d i \<Longrightarrow> getExpandoData d s = (Inr i, s)"
  using inv_owns(4) by (auto simp: getExpandoData_def)

lemma getExpandoData_ok:
  assumes "shiv_inv E s"
  obtains i s1 where "getExpandoData d s = (Inr i, s1)" "shiv_inv E s1" "owns s1 d i" "later s s1"
proof (cases "expando (docs s d)")
  case None
  have "i \<noteq> Suc (expanID s) \<and> d' \<noteq> d" if "owns s d' i" for d' i using inv_owns(3) [OF assms that] that None by auto
  then have "later s (new_data d s)" by (simp add: later_def)
  then show thesis using that [of "Suc (expanID s)" "new_data d s"] new_data_inv [OF assms None] None by (simp add: getExpandoData_def)
next
  case (Some i)
  then show thesis using that getExpandoData_owned [OF assms Some] assms later_refl by blast
qed

lemma place_makes:
  assumes "makes E s n (Inr x, s1)"
  shows "makes E s n (place_node E i n x s1)"
proof -
  let ?r = "place_node E i n x s1"
  have r: "next_node (snd ?r) = next_node s1" "fst ?r = Inr x \<or> fst ?r = Inl TypeError"
    by (cases "frag (data_of s1 i)"; simp add: place_node_def set_frag_def)+
  have "shiv_inv E (snd ?r)" using assms quiet_inv [OF quiet_place] by (simp add: makes_def)
  moreover have "later s (snd ?r)"
    using assms r(1) by (intro later_trans [OF _ quiet_later [OF quiet_place]]) (simp_all add: makes_def)
  ultimately show ?thesis using assms r by (auto simp: makes_def)
qed

text \<open>The part of \<open>createElement\<close> that follows the choice of the data.\<close>

lemma create_with_makes:
  assumes "shiv_inv E s" "owns s d i"
  shows "makes E s n (bnd (make_node (call_method E k) i n) (place_node E i n) s)"
proof -
  obtain r s1 where r: "make_node (call_method E k) i n s = (r, s1)" by fastforce
  have m: "makes E s n (r, s1)" using make_node_makes [OF assms, of n k] by (simp add: r)
  show ?thesis
  proof (cases r)
    case (Inl e)
    then show ?thesis using m r by simp
  next
    case (Inr x)
    then show ?thesis using place_makes [of E s n x s1 i] m r by simp
  qed
qed

lemma call_method_makes:
  assumes "shiv_inv E s"
  shows "makes E s n (call_method E k (create_m (docs s d)) n s)"
proof (cases k)
  case 0
  then show ?thesis using makes_throw [OF assms] by (simp add: call_method.simps)
next
  case (Suc k')
  show ?thesis
  proof (cases "create_m (docs s d)")
    case (Native d')
    then show ?thesis using native_makes [OF assms] Suc by (simp add: call_method.simps)
  next
    case (Shived d' i)
    have "doc_ok E s d" using assms unfolding shiv_inv_def by blast
    then have o: "owns s d i" "d' = d" "cache (data_of s i) \<noteq> None"
      using Shived by (auto simp: doc_ok_def methods_ok_def split: option.splits)
    then have "\<not> supportsUnknownElements E" using inv_owns(1) [OF assms o(1)] by (auto simp: data_ok_def)
    then show ?thesis
      using Suc Shived o create_with_makes [OF assms o(1), of n k'] call_saved_makes [OF assms o(1), of n k']
      by (simp add: call_method.simps createElement_def)
  qed
qed

lemma createElement_makes:
  assumes "shiv_inv E s"
  shows "makes E s n (html5_createElement E k od n s)"
proof (cases "supportsUnknownElements E")
  case True
  then show ?thesis using call_method_makes [OF assms] by (simp add: html5_createElement_def createElement_def)
next
  case False
  obtain i s1 where g: "getExpandoData (owner od) s = (Inr i, s1)" "shiv_inv E s1" "owns s1 (owner od) i" "later s s1"
    using getExpandoData_ok [OF assms] by blast
  then have "html5_createElement E k od n s = bnd (make_node (call_method E k) i n) (place_node E i n) s1"
    using False by (simp add: html5_createElement_def createElement_def)
  then show ?thesis using makes_later [OF create_with_makes [OF g(2,3), of n k] g(4)] by simp
qed

lemma document_createElement_makes: "shiv_inv E s \<Longrightarrow> makes E s n (document_createElement E k d n s)"
  using call_method_makes by (simp add: document_createElement_def)

text \<open>Fragments do not touch what the invariant speaks of.\<close>

lemma document_fragment_inv: "shiv_inv E s \<Longrightarrow> shiv_inv E (snd (document_createDocumentFragment d s))"
  unfolding document_createDocumentFragment_def by (intro quiet_inv quiet_rules)

lemma createDocumentFragment_inv:
  assumes "shiv_inv E s"
  shows "shiv_inv E (snd (createDocumentFragment E od None s))"
proof (cases "supportsUnknownElements E")
  case True
  then have "createDocumentFragment E od None s = document_createDocumentFragment (owner od) s"
    by (simp add: createDocumentFragment_def document_createDocumentFragment_def)
  then show ?thesis using document_fragment_inv [OF assms] by simp
next
  case False
  obtain i s1 where g: "getExpandoData (owner od) s = (Inr i, s1)" "shiv_inv E s1" "owns s1 (owner od) i"
    using getExpandoData_ok [OF assms] by blast
  let ?rest = "bnd (req (\<lambda>s. frag (data_of s i))) (\<lambda>_. bnd (new_frag []) (\<lambda>clone.
    bnd (get (\<lambda>s. getElements (elements (h5 s)))) (\<lambda>elems. bnd (each_js (frag_createElement clone) elems) (\<lambda>_. ret clone))))"
  have "createDocumentFragment E od None s = ?rest s1"
    using False by (simp only: createDocumentFragment_def if_False option.case bnd_Inr [where m = "getExpandoData (owner od)", OF g(1)])
  moreover have "quiet view (\<lambda>_. True) ?rest" by (intro quiet_rules)
  ultimately show ?thesis using quiet_inv [of ?rest E s1] g(2) by (simp only:)
qed

subsection \<open>Shiving keeps the invariant\<close>

definition owned :: "engine \<Rightarrow> docid \<Rightarrow> nat \<Rightarrow> nat \<times> (nat \<Rightarrow> data option) \<times> html5 \<times> (docid \<Rightarrow> doc) \<Rightarrow> bool" where
  "owned E d i V = (\<exists>s. view s = V \<and> shiv_inv E s \<and> owns s d i)"

lemma owned_view: "owned E d i (view s) \<longleftrightarrow> shiv_inv E s \<and> owns s d i"
  unfolding owned_def using inv_view view_docs(1) by metis

lemma quiet_announce: "quiet view (owned E d i) (announce E k i n)"
  unfolding announce_def
proof (intro quiet_rules)
  show "quiet view (owned E d i) (call_saved (call_method E k) i n)"
    unfolding quiet_def owned_view using call_saved_view by blast
qed

lemma announce_returns:
  assumes "shiv_inv E s" "owns s d i" "cache (data_of s i) \<noteq> None"
  shows "fst (announce E (Suc k) i n s) = Inr ()"
proof -
  let ?s = "snd (native_create d n s)"
  have "view ?s = view s" using quietD [OF quiet_nodes(1) [of "\<lambda>_. True"]] by blast
  then have "frag (data_of ?s i) \<noteq> None" using inv_owns(1) [OF assms(1,2)] assms(3) view_data(4) [of ?s s i] by (auto simp: data_ok_def)
  then obtain f where "frag (data_of ?s i) = Some f" by blast
  moreover have "call_saved (call_method E (Suc k)) i n s = (Inr \<lparr>node_id = next_node s, node_name = n\<rparr>, ?s)"
    using assms(3) by (simp add: call_saved_native [OF assms(1,2)] native_create_def)
  ultimately show ?thesis by (simp add: announce_def frag_createElement_def)
qed

lemma announce_all_returns:
  assumes "shiv_inv E s" "owns s d i" "cache (data_of s i) \<noteq> None"
  shows "fst (each_js (announce E (Suc k) i) ns s) = Inr ()"
  using assms
proof (induction ns arbitrary: s)
  case (Cons n ns)
  obtain s1 where s1: "announce E (Suc k) i n s = (Inr (), s1)"
    using announce_returns [OF Cons.prems, of k n] by (metis prod.collapse)
  then have v: "view s1 = view s" using quietD [OF quiet_announce, of E d i s "Suc k" n] Cons.prems by (simp add: owned_view)
  then have "fst (each_js (announce E (Suc k) i) ns s1) = Inr ()"
    using Cons.prems inv_view [OF v] view_docs(1) [OF v] view_data(4) [OF v] by (intro Cons.IH) simp_all
  then show ?case using s1 by simp
qed simp

text \<open>After the methods are saved, the data have a cache and a fragment; the next step installs the
  method of the document.\<close>

definition saving :: "doc \<Rightarrow> nat \<Rightarrow> data \<Rightarrow> data" where
  "saving D f A = A\<lparr>cache := Some [], createElem := Some (create_m D), createFrag := Some (frag_m D), frag := Some f\<rparr>"

lemma saving_of [simp]:
  "cache (saving D f A) = Some []" "createElem (saving D f A) = Some (create_m D)" "createFrag (saving D f A) = Some (frag_m D)"
  "frag (saving D f A) = Some f" "hasCSS (saving D f A) = hasCSS A"
  by (simp_all add: saving_def)

lemma new_frag_of [simp]:
  "docs (snd (new_frag ns s)) = docs s" "data_of (snd (new_frag ns s)) i = data_of s i" "expanID (snd (new_frag ns s)) = expanID s"
  "h5 (snd (new_frag ns s)) = h5 s" "next_node (snd (new_frag ns s)) = next_node s" "expandoData (snd (new_frag ns s)) = expandoData s"
  by (simp_all add: new_frag_def data_of_def)

lemma save_methods_ok:
  assumes "shiv_inv E s" "owns s d i" "\<not> supportsUnknownElements E"
  obtains s1 where "save_methods d i s = (Inr (), s1)" "shiv_inv E s1" "later s s1" "cache (data_of s1 i) \<noteq> None"
    "docs s1 = docs s" "cache (data_of s i) \<noteq> None \<longrightarrow> s1 = s"
proof (cases "cache (data_of s i)")
  case None
  have n: "create_m (docs s d) = Native d" "frag_m (docs s d) = NativeFrag d"
    using inv_owns(2) [OF assms(1,2)] None by (auto simp: methods_ok_def split: frag_method.splits)
  let ?s = "set_data i (saving (docs s d) (next_frag s)) (snd (new_frag [] s))"
  have e: "save_methods d i s = (Inr (), ?s)"
    using None n by (simp add: save_methods_def call_frag_def new_frag_def saving_def set_data_def data_of_def)
  have nn: "next_node ?s = next_node s" by (simp add: set_data_def)
  have "shiv_inv E ?s"
  proof (rule inv_update [OF assms(1,2)])
    show "data_ok E d (data_of ?s i)" using assms(3) n by (simp add: data_ok_def)
    show "methods_ok d i (docs ?s d) (data_of ?s i)" using n by (simp add: methods_ok_def)
    show "sheets (docs ?s d) = (if hasCSS (data_of ?s i) then [shiv_css] else [])"
      using inv_owns(5) [OF assms(1,2)] by simp
  qed (use assms(2) in simp_all)
  moreover have "later s ?s" using nn by (simp add: later_def)
  ultimately show thesis using that e None by simp
next
  case (Some c)
  then show thesis using that [of s] assms(1) by (simp add: save_methods_def)
qed

lemma install_inv:
  assumes "shiv_inv E s" "owns s d i" "cache (data_of s i) \<noteq> None"
  shows "shiv_inv E (set_doc d (\<lambda>D. D\<lparr>create_m := Shived d i\<rparr>) s)"
    and "frag (data_of s i) = Some f \<Longrightarrow> shiv_inv E (set_doc d (\<lambda>D. D\<lparr>frag_m := Unrolled f ns\<rparr>) s)"
proof -
  show "shiv_inv E (set_doc d (\<lambda>D. D\<lparr>create_m := Shived d i\<rparr>) s)"
    by (rule inv_update [OF assms(1,2)]) (use assms inv_owns(1,2,4,5) [OF assms(1,2)] in \<open>simp_all add: methods_ok_def\<close>)
  show "frag (data_of s i) = Some f \<Longrightarrow> shiv_inv E (set_doc d (\<lambda>D. D\<lparr>frag_m := Unrolled f ns\<rparr>) s)"
    by (rule inv_update [OF assms(1,2)]) (use assms inv_owns(1,2,4,5) [OF assms(1,2)] in \<open>simp_all add: methods_ok_def\<close>)
qed

definition unrolled_names :: "shiv \<Rightarrow> string list" where
  "unrolled_names s = word_runs (join_with '','' (getElements (elements (h5 s))))"

definition install :: "docid \<Rightarrow> nat \<Rightarrow> shiv \<Rightarrow> shiv" where
  "install d i = set_doc d (\<lambda>D. D\<lparr>create_m := Shived d i\<rparr>)"

definition install_frag :: "docid \<Rightarrow> nat \<Rightarrow> string list \<Rightarrow> shiv \<Rightarrow> shiv" where
  "install_frag d f ns = set_doc d (\<lambda>D. D\<lparr>frag_m := Unrolled f ns\<rparr>)"

lemma install_of [simp]:
  "docs (install d i s) = (docs s)(d := (docs s d)\<lparr>create_m := Shived d i\<rparr>)" "data_of (install d i s) j = data_of s j" "h5 (install d i s) = h5 s"
  "docs (install_frag d f ns s) = (docs s)(d := (docs s d)\<lparr>frag_m := Unrolled f ns\<rparr>)" "data_of (install_frag d f ns s) j = data_of s j"
  "h5 (install_frag d f ns s) = h5 s"
  by (simp_all add: install_def install_frag_def set_doc_def data_of_def)

lemma install_same:
  "create_m (docs s d) = Shived d i \<Longrightarrow> install d i s = s" "frag_m (docs s d) = Unrolled f ns \<Longrightarrow> install_frag d f ns s = s"
  by (simp_all add: install_def install_frag_def set_doc_def fun_upd_idem)

text \<open>The course of \<open>shivMethods\<close>: saving and installing always succeed, announcing the names leaves
  the view, and only then the fragment method is compiled.\<close>

lemma shivMethods_run:
  assumes "shiv_inv E s" "owns s d i" "\<not> supportsUnknownElements E"
  obtains s1 r s3 f where
    "save_methods d i s = (Inr (), s1)" "shiv_inv E s1" "later s s1" "cache (data_of s1 i) \<noteq> None" "docs s1 = docs s"
    "cache (data_of s i) \<noteq> None \<longrightarrow> s1 = s"
    "view s3 = view (install d i s1)" "shiv_inv E s3" "owns s3 d i" "frag (data_of s3 i) = Some f" "0 < k \<longrightarrow> r = Inr ()"
    "shivMethods E k d i s = (case r of Inl e \<Rightarrow> (Inl e, s3) | Inr _ \<Rightarrow>
       if \<not> calls_parse (getElements (elements (h5 s))) then (Inl (Thrown ''SyntaxError''), s3)
       else (Inr (), install_frag d f (unrolled_names s) s3))"
proof -
  obtain s1 where s1: "save_methods d i s = (Inr (), s1)" "shiv_inv E s1" "later s s1" "cache (data_of s1 i) \<noteq> None"
    "docs s1 = docs s" "cache (data_of s i) \<noteq> None \<longrightarrow> s1 = s"
    using save_methods_ok [OF assms] by blast
  have h: "h5 s1 = h5 s" using s1(3) by (simp add: later_def)
  have o1: "owns s1 d i" using assms(2) s1(5) by simp
  have o2: "owns (install d i s1) d i" using o1 by simp
  have i2: "shiv_inv E (install d i s1)" using install_inv(1) [OF s1(2) o1 s1(4)] by (simp add: install_def)
  obtain r s3 where r: "each_js (announce E k i) (unrolled_names s) (install d i s1) = (r, s3)" by fastforce
  have v: "view s3 = view (install d i s1)"
    using quietD [of view "owned E d i" "each_js (announce E k i) (unrolled_names s)" "install d i s1"]
      quiet_each [of view "owned E d i" "announce E k i"] quiet_announce i2 o2 r by (simp add: owned_view del: install_of)
  have 3: "shiv_inv E s3" "owns s3 d i" "cache (data_of s3 i) \<noteq> None"
    using inv_view [OF v] i2 view_docs(1) [OF v] o2 view_data(4) [OF v] s1(4) by simp_all
  obtain f where f: "frag (data_of s3 i) = Some f"
    using inv_owns(1) [OF 3(1,2)] 3(3) by (auto simp: data_ok_def)
  have 0: "0 < k \<longrightarrow> r = Inr ()"
    using announce_all_returns [OF i2 o2, of "k - 1" "unrolled_names s"] s1(4) r by auto
  have "shivMethods E k d i s = (case r of Inl e \<Rightarrow> (Inl e, s3) | Inr _ \<Rightarrow>
       if \<not> calls_parse (getElements (elements (h5 s))) then (Inl (Thrown ''SyntaxError''), s3)
       else (Inr (), install_frag d f (unrolled_names s) s3))"
  proof -
    let ?then = "\<lambda>_. if \<not> calls_parse (getElements (elements (h5 s))) then throw (Thrown ''SyntaxError'')
       else bnd (req (\<lambda>s. frag (data_of s i))) (\<lambda>f. modify (set_doc d (\<lambda>D. D\<lparr>frag_m := Unrolled f (unrolled_names s)\<rparr>)))"
    have "shivMethods E k d i s = bnd (each_js (announce E k i) (unrolled_names s)) ?then (install d i s1)"
      using s1(1) h by (simp add: shivMethods_def unrolled_names_def install_def [symmetric] bnd_Inr [where m = "save_methods d i" and s = s])
    then show ?thesis using r f by (cases r) (auto simp: install_frag_def)
  qed
  then show thesis by (rule that [OF s1 v 3(1,2) f 0])
qed

lemma shivMethods_inv:
  assumes "shiv_inv E s" "owns s d i" "\<not> supportsUnknownElements E"
  shows "shiv_inv E (snd (shivMethods E k d i s))"
proof -
  obtain s1 r s3 f where "save_methods d i s = (Inr (), s1)" "shiv_inv E s1" "later s s1" and c: "cache (data_of s1 i) \<noteq> None"
    and "docs s1 = docs s" "cache (data_of s i) \<noteq> None \<longrightarrow> s1 = s" and r: "view s3 = view (install d i s1)" "shiv_inv E s3" "owns s3 d i"
    "frag (data_of s3 i) = Some f" "0 < k \<longrightarrow> r = Inr ()" "shivMethods E k d i s = (case r of Inl e \<Rightarrow> (Inl e, s3) | Inr _ \<Rightarrow>
       if \<not> calls_parse (getElements (elements (h5 s))) then (Inl (Thrown ''SyntaxError''), s3)
       else (Inr (), install_frag d f (unrolled_names s) s3))"
    by (rule shivMethods_run [OF assms, of k])
  have "shiv_inv E (install_frag d f (unrolled_names s) s3)"
    using install_inv(2) [OF r(2,3) _ r(4)] c view_data(4) [OF r(1)] by (simp add: install_frag_def)
  then show ?thesis using r(2,6) by (cases r) auto
qed

definition styled :: "docid \<Rightarrow> nat \<Rightarrow> shiv \<Rightarrow> shiv" where
  "styled d i s = set_data i (\<lambda>A. A\<lparr>hasCSS := True\<rparr>) (set_doc d (\<lambda>D. D\<lparr>sheets := shiv_css # sheets D\<rparr>) s)"

lemma styled_inv:
  assumes "shiv_inv E s" "owns s d i" "\<not> hasCSS (data_of s i)"
  shows "shiv_inv E (styled d i s)" "owns (styled d i s) d i" "hasCSS (data_of (styled d i s) i)" "h5 (styled d i s) = h5 s"
proof -
  show "owns (styled d i s) d i" "hasCSS (data_of (styled d i s) i)" "h5 (styled d i s) = h5 s"
    using assms(2) by (simp_all add: styled_def)
  show "shiv_inv E (styled d i s)"
    by (rule inv_update [OF assms(1,2)])
      (use assms inv_owns(1,2,5) [OF assms(1,2)] in \<open>simp_all add: styled_def data_ok_def methods_ok_def split: option.splits frag_method.splits\<close>)
qed

text \<open>With a stack of depth two, elements are created for every name that is not a member of all objects.\<close>

lemma document_createElement_returns:
  assumes "shiv_inv E s" "n \<notin> set object_members"
  shows "\<exists>x. fst (document_createElement E (Suc (Suc k)) d n s) = Inr x"
proof (cases "create_m (docs s d)")
  case (Native d')
  then show ?thesis by (simp add: document_createElement_def call_method.simps native_create_def)
next
  case (Shived d' i)
  have "doc_ok E s d" using assms(1) unfolding shiv_inv_def by blast
  then have o: "owns s d i" "d' = d" "cache (data_of s i) \<noteq> None"
    using Shived by (auto simp: doc_ok_def methods_ok_def split: option.splits)
  then have u: "\<not> supportsUnknownElements E" using inv_owns(1) [OF assms(1) o(1)] by (auto simp: data_ok_def)
  have sv: "call_saved (call_method E (Suc k)) i n s = native_create d n s"
    using o(3) by (auto simp: call_saved_native [OF assms(1) o(1)])
  obtain c where c: "cache (data_of s i) = Some c" using o(3) by blast
  obtain x s1 where x: "make_node (call_method E (Suc k)) i n s = (Inr x, s1)"
    using assms(2) c sv
    by (cases "cache_get c n"; cases "saveClones n")
      (auto simp: make_node_def cache_get_def cloneNode_def native_create_def cache_put_step split: option.splits if_splits)
  then have "makes E s n (Inr x, s1)" using make_node_makes [OF assms(1) o(1), of n "Suc k"] by simp
  then have "shiv_inv E s1" "owns s1 d i" "cache (data_of s1 i) \<noteq> None" using o by (auto simp: makes_def later_def)
  then obtain f where f: "frag (data_of s1 i) = Some f" using inv_owns(1) [of E s1 d i] by (auto simp: data_ok_def)
  show ?thesis
  proof (cases "shivMethods_on (h5 s)")
    case True
    have "document_createElement E (Suc (Suc k)) d n s = place_node E i n x s1"
      using Shived True u o(2) x by (simp add: document_createElement_def call_method.simps(2) [of E "Suc k"] createElement_def)
    then show ?thesis using f by (simp add: place_node_def)
  next
    case False
    then have "document_createElement E (Suc (Suc k)) d n s = native_create d n s"
      using Shived sv by (simp add: document_createElement_def call_method.simps(2) [of E "Suc k"])
    then show ?thesis by (simp add: native_create_def)
  qed
qed

lemma shiv_styles_ok:
  assumes "shiv_inv E s" "owns s d i"
  shows "shiv_inv E (snd (shiv_styles E k d i s))" "owns (snd (shiv_styles E k d i s)) d i"
    and "2 \<le> k \<Longrightarrow> fst (shiv_styles E k d i s) = Inr ()"
    and "2 \<le> k \<Longrightarrow> shivCSS (h5 s) \<Longrightarrow> \<not> supportsHtml5Styles E \<Longrightarrow> hasCSS (data_of (snd (shiv_styles E k d i s)) i)"
    and "h5 (snd (shiv_styles E k d i s)) = h5 s"
proof -
  let ?r = "shiv_styles E k d i s"
  obtain r s1 where r: "document_createElement E k d ''p'' s = (r, s1)" by fastforce
  have m: "shiv_inv E s1" "later s s1" using document_createElement_makes [OF assms(1), of "''p''" k d] by (simp_all add: r makes_def)
  then have o: "owns s1 d i" "hasCSS (data_of s1 i) = hasCSS (data_of s i)" "h5 s1 = h5 s" using assms(2) by (auto simp: later_def)
  have ok: "\<exists>x. r = Inr x" if "2 \<le> k"
    using document_createElement_returns [OF assms(1), of "''p''" "k - 2" d] that r by (simp add: object_members_def numeral_2_eq_2 Suc_diff_Suc)
  have e: "?r = (if shivCSS (h5 s) \<and> \<not> supportsHtml5Styles E \<and> \<not> hasCSS (data_of s i)
      then (case r of Inl e \<Rightarrow> (Inl e, s1) | Inr _ \<Rightarrow> (Inr (), styled d i s1)) else (Inr (), s))"
    using r by (cases r) (simp_all add: shiv_styles_def addStyleSheet_def styled_def)
  note st = styled_inv [OF m(1) o(1)]
  show "shiv_inv E (snd ?r)" "owns (snd ?r) d i" "h5 (snd ?r) = h5 s"
    unfolding e using assms m o st by (auto split: sum.split)
  show "2 \<le> k \<Longrightarrow> fst ?r = Inr ()" unfolding e using ok by (auto split: sum.split)
  show "2 \<le> k \<Longrightarrow> shivCSS (h5 s) \<Longrightarrow> \<not> supportsHtml5Styles E \<Longrightarrow> hasCSS (data_of (snd ?r) i)"
    unfolding e using ok st o by (auto split: sum.split)
qed

lemma shivDocument_inv:
  assumes "shiv_inv E s"
  shows "shiv_inv E (snd (shivDocument E k od s))"
proof -
  obtain i s1 where g: "getExpandoData (owner od) s = (Inr i, s1)" "shiv_inv E s1" "owns s1 (owner od) i"
    using getExpandoData_ok [OF assms] by blast
  obtain r s2 where r: "shiv_styles E k (owner od) i s1 = (r, s2)" by fastforce
  have 2: "shiv_inv E s2" "owns s2 (owner od) i" using shiv_styles_ok(1,2) [OF g(2,3), of k] by (simp_all add: r)
  have "snd (shivDocument E k od s) = (if r = Inr () \<and> \<not> supportsUnknownElements E then snd (shivMethods E k (owner od) i s2) else s2)"
    using g(1) r by (cases r) (auto simp: shivDocument_def bnd_def split: prod.split sum.split)
  then show ?thesis using 2 shivMethods_inv [OF 2] by simp
qed

lemma html5_inv: "shiv_inv E (s\<lparr>h5 := h\<rparr>) = shiv_inv E s"
proof -
  have "data_of (s\<lparr>h5 := h\<rparr>) = data_of s" by (simp add: data_of_def fun_eq_iff)
  then have "doc_ok E (s\<lparr>h5 := h\<rparr>) d = doc_ok E s d" for d by (simp add: doc_ok_def split: option.split)
  then show ?thesis by (simp add: shiv_inv_def)
qed

lemma shiv_exec_inv: "shiv_inv E s \<Longrightarrow> shiv_inv E (shiv_exec E k ev s)"
proof (cases ev)
  case (SetHtml5 h)
  then show "shiv_inv E s \<Longrightarrow> ?thesis" by (simp add: html5_inv)
qed (use shivDocument_inv document_createElement_makes document_fragment_inv createElement_makes createDocumentFragment_inv in
      \<open>auto simp: makes_def\<close>)

lemma shiv_execs_inv: "shiv_inv E s \<Longrightarrow> shiv_inv E (fold (shiv_exec E k) evs s)"
  by (induction evs arbitrary: s) (simp_all add: shiv_exec_inv)

text \<open>
  C5. Through every sequence of calls, exceptions and changes of \<open>html5\<close> included, different
  documents have different data, a document holds the style sheet of the shiv at most once, and its
  \<open>createElement\<close> is its own native method or the method made from its own data, in which the
  native method of the same document is saved.
\<close>

theorem shiv_invariant:
  assumes "fresh_shiv s0" "s = fold (shiv_exec E k) evs s0"
  shows "(expando (docs s d) = expando (docs s d') \<longrightarrow> expando (docs s d) = None \<or> d = d')
    \<and> (sheets (docs s d) = [] \<or> sheets (docs s d) = [shiv_css])
    \<and> (create_m (docs s d) = Native d \<or>
       (\<exists>i. expando (docs s d) = Some i \<and> create_m (docs s d) = Shived d i \<and> createElem (data_of s i) = Some (Native d)))"
proof -
  have inv: "shiv_inv E s" using shiv_execs_inv [OF fresh_inv [OF assms(1)]] assms(2) by simp
  then have "doc_ok E s d" unfolding shiv_inv_def by blast
  then have "sheets (docs s d) = [] \<or> sheets (docs s d) = [shiv_css]"
    "create_m (docs s d) = Native d \<or>
       (\<exists>i. expando (docs s d) = Some i \<and> create_m (docs s d) = Shived d i \<and> createElem (data_of s i) = Some (Native d))"
    by (auto simp: doc_ok_def data_ok_def methods_ok_def split: option.splits if_splits)
  moreover have "expando (docs s d) = expando (docs s d') \<longrightarrow> expando (docs s d) = None \<or> d = d'"
    using inv unfolding shiv_inv_def by (metis not_None_eq)
  ultimately show ?thesis by blast
qed



subsection \<open>A shived document\<close>

lemma join_chars: "set (join_with '','' ns) \<subseteq> insert (CHR '','') (\<Union> (set ` set ns))"
  by (induction ns rule: induct_list012) auto

lemma word_char_comma: "\<not> word_char (CHR '','')"
  by (simp add: word_char_def)

lemma word_runs_names:
  assumes "list_all (\<lambda>n. n \<noteq> [] \<and> list_all word_char n) ns"
  shows "word_runs (join_with '','' ns) = ns"
proof (cases "ns = []")
  case False
  have "map (\<lambda>c. if word_char c then c else CHR '','') (join_with '','' ns) = join_with '','' ns"
  proof (rule map_idI)
    fix c
    assume "c \<in> set (join_with '','' ns)"
    then have "c = CHR '','' \<or> word_char c" using join_chars [of ns] assms by (auto simp: list_all_iff)
    then show "(if word_char c then c else CHR '','') = c" by auto
  qed
  moreover have "split_at (CHR '','') (join_with '','' ns) = ns"
    using assms False word_char_comma by (intro split_join) (auto simp: list_all_iff)
  ultimately show ?thesis using assms by (simp add: word_runs_def list_all_iff)
qed (simp add: word_runs_def)

text \<open>What \<open>shivDocument\<close> leaves, when the text of the names compiles.\<close>

lemma shivDocument_done:
  assumes "shiv_inv E s" "\<not> supportsUnknownElements E" "2 \<le> k" "calls_parse (getElements (elements (h5 s)))" "d = owner od"
  obtains i f s' where "shivDocument E k od s = (Inr d, s')" "shiv_inv E s'" "owns s' d i" "create_m (docs s' d) = Shived d i"
    "frag_m (docs s' d) = Unrolled f (unrolled_names s)" "cache (data_of s' i) \<noteq> None" "frag (data_of s' i) = Some f" "h5 s' = h5 s"
    "shivCSS (h5 s) \<and> \<not> supportsHtml5Styles E \<longrightarrow> hasCSS (data_of s' i)"
proof -
  obtain i s1 where g: "getExpandoData d s = (Inr i, s1)" "shiv_inv E s1" "owns s1 d i" "later s s1"
    using getExpandoData_ok [OF assms(1)] by blast
  note st = shiv_styles_ok [OF g(2,3), of k]
  obtain s2 where s2: "shiv_styles E k d i s1 = (Inr (), s2)" using st(3) [OF assms(3)] by (metis prod.collapse)
  have h: "h5 s1 = h5 s" "h5 s2 = h5 s" "unrolled_names s2 = unrolled_names s" using g(4) st(5) s2 by (simp_all add: later_def unrolled_names_def)
  have i2: "shiv_inv E s2" "owns s2 d i" using st(1,2) s2 by simp_all
  obtain s3 r s4 f where m: "save_methods d i s2 = (Inr (), s3)" "shiv_inv E s3" "later s2 s3" "cache (data_of s3 i) \<noteq> None" "docs s3 = docs s2"
    "cache (data_of s2 i) \<noteq> None \<longrightarrow> s3 = s2"
    "view s4 = view (install d i s3)" "shiv_inv E s4" "owns s4 d i" "frag (data_of s4 i) = Some f" "0 < k \<longrightarrow> r = Inr ()"
    "shivMethods E k d i s2 = (case r of Inl e \<Rightarrow> (Inl e, s4) | Inr _ \<Rightarrow>
       if \<not> calls_parse (getElements (elements (h5 s2))) then (Inl (Thrown ''SyntaxError''), s4)
       else (Inr (), install_frag d f (unrolled_names s2) s4))"
    by (rule shivMethods_run [OF i2 assms(2), of k])
  let ?s = "install_frag d f (unrolled_names s) s4"
  have sm: "shivMethods E k d i s2 = (Inr (), ?s)" using m(11,12) assms(3,4) h by simp
  then have "shivDocument E k od s = (Inr d, ?s)"
    using g(1) s2 assms(2,5) by (simp add: shivDocument_def)
  moreover have "shiv_inv E ?s" using shivMethods_inv [OF i2 assms(2), of k] sm by simp
  moreover have "owns ?s d i" "frag_m (docs ?s d) = Unrolled f (unrolled_names s)" "frag (data_of ?s i) = Some f" using m(9,10) by simp_all
  moreover have "create_m (docs ?s d) = Shived d i" using view_docs(2) [OF m(7), of d] by simp
  moreover have "cache (data_of ?s i) \<noteq> None" using m(4) view_data(4) [OF m(7), of i] by simp
  moreover have "h5 ?s = h5 s" using view_data(3) [OF m(7)] m(3) h(2) by (simp add: later_def)
  moreover have "shivCSS (h5 s) \<and> \<not> supportsHtml5Styles E \<longrightarrow> hasCSS (data_of ?s i)"
    using st(4) [OF assms(3)] s2 h(1) m(3) i2(2) view_data(4) [OF m(7), of i] by (auto simp: later_def)
  ultimately show thesis using that by blast
qed

lemma create_in_frag:
  "each_js (frag_createElement c) ns s = (Inr (), set_frag c (\<lambda>F. F\<lparr>frag_created := frag_created F @ ns\<rparr>) s)"
  by (induction ns arbitrary: s) (simp_all add: frag_createElement_def set_frag_def)


text \<open>
  Shiving a document a second time changes nothing but the log of created elements and the
  fragments: no second style sheet, no new data, the same methods and the same saved methods.
\<close>

theorem shiving_again:
  assumes "fresh_shiv s0" "t = fold (shiv_exec E k) evs s0" "s = shiv_exec E k (ShivDocument (Some d)) t"
    and "2 \<le> k" "calls_parse (getElements (elements (h5 t)))" "\<not> supportsUnknownElements E"
  shows "view (shiv_exec E k (ShivDocument (Some d)) s) = view s"
proof -
  have inv: "shiv_inv E t" using shiv_execs_inv [OF fresh_inv [OF assms(1)]] assms(2) by simp
  obtain i f s' where "shivDocument E k (Some d) t = (Inr d, s')" and d: "shiv_inv E s'" "owns s' d i" "create_m (docs s' d) = Shived d i"
    "frag_m (docs s' d) = Unrolled f (unrolled_names t)" "cache (data_of s' i) \<noteq> None" "frag (data_of s' i) = Some f" "h5 s' = h5 t"
    "shivCSS (h5 t) \<and> \<not> supportsHtml5Styles E \<longrightarrow> hasCSS (data_of s' i)"
    by (rule shivDocument_done [OF inv assms(6,4,5), of d "Some d"]) (simp_all add: owner_def)
  then have s: "s' = s" using assms(3) by simp
  note d = d [unfolded s]
  have g: "getExpandoData d s = (Inr i, s)" using getExpandoData_owned [OF d(1,2)] .
  have st: "shiv_styles E k d i s = (Inr (), s)" using d(7,8) by (auto simp: shiv_styles_def)
  have nm: "unrolled_names s = unrolled_names t" using d(7) by (simp add: unrolled_names_def)
  obtain s3 r s4 f' where m: "save_methods d i s = (Inr (), s3)" "shiv_inv E s3" "later s s3" "cache (data_of s3 i) \<noteq> None" "docs s3 = docs s"
    "cache (data_of s i) \<noteq> None \<longrightarrow> s3 = s"
    "view s4 = view (install d i s3)" "shiv_inv E s4" "owns s4 d i" "frag (data_of s4 i) = Some f'" "0 < k \<longrightarrow> r = Inr ()"
    "shivMethods E k d i s = (case r of Inl e \<Rightarrow> (Inl e, s4) | Inr _ \<Rightarrow>
       if \<not> calls_parse (getElements (elements (h5 s))) then (Inl (Thrown ''SyntaxError''), s4)
       else (Inr (), install_frag d f' (unrolled_names s) s4))"
    by (rule shivMethods_run [OF d(1,2) assms(6), of k])
  have v: "view s4 = view s" using m(6,7) d(5) install_same(1) [OF d(3)] by simp
  then have "f' = f" "frag_m (docs s4 d) = Unrolled f (unrolled_names s)"
    using m(10) d(6) view_data(4) [OF v] view_docs(3) [OF v] d(4) nm by simp_all
  then have "shivMethods E k d i s = (Inr (), s4)"
    using m(11,12) assms(4,5) d(7) install_same(2) by simp
  then have "shivDocument E k (Some d) s = (Inr d, s4)" using g st assms(6) by (simp add: shivDocument_def owner_def)
  then show ?thesis using v by simp
qed

subsection \<open>Examples\<close>

definition old_browser :: engine where
  "old_browser = \<lparr>supportsHtml5Styles = False, supportsUnknownElements = False, canHaveChildren = (\<lambda>n. n \<noteq> ''br''), tagUrn = (\<lambda>_. False)\<rparr>"

definition two_elements :: html5 where
  "two_elements = \<lparr>elements = Spaced ''nav main'', shivCSS = True, shivMethods_on = True\<rparr>"

definition blank :: shiv where
  "blank = \<lparr>docs = (\<lambda>d. \<lparr>expando = None, create_m = Native d, frag_m = NativeFrag d, created = [], sheets = []\<rparr>), expanID = 0,
     expandoData = (\<lambda>_. None), frags = (\<lambda>_. \<lparr>frag_created = [], frag_kids = []\<rparr>), next_frag = 0, next_node = 0, h5 = two_elements\<rparr>"

lemma blank_fresh: "fresh_shiv blank"
  by (simp add: fresh_shiv_def blank_def)

lemma two_names: "getElements (elements (h5 blank)) = [''nav'', ''main'']"
  by (simp add: blank_def two_elements_def)

theorem shiv_invariant_witness:
  "sheets (docs (fold (shiv_exec old_browser 2) [ShivDocument None, ShivDocument None] blank) 0) = []
   \<or> sheets (docs (fold (shiv_exec old_browser 2) [ShivDocument None, ShivDocument None] blank) 0) = [shiv_css]"
  using shiv_invariant [OF blank_fresh refl, where E = old_browser and k = 2 and evs = "[ShivDocument None, ShivDocument None]" and d = 0] by blast




theorem shiving_again_witness:
  "view (shiv_exec old_browser 2 (ShivDocument (Some 0)) (shiv_exec old_browser 2 (ShivDocument (Some 0)) blank))
   = view (shiv_exec old_browser 2 (ShivDocument (Some 0)) blank)"
  using shiving_again [OF blank_fresh, where t = blank and E = old_browser and k = 2 and evs = "[]" and d = 0, OF _ refl] two_names
  by (simp add: old_browser_def calls_parse_def)

end
