(* ===== verification/JQ_Classes.thy ===== *)
theory JQ_Classes
  imports JS_Values JS_Strings
begin

section \<open>Class names in jQuery\<close>

text \<open>
  \<open>addClass\<close>, \<open>removeClass\<close>, \<open>toggleClass\<close> and \<open>hasClass\<close> of \<open>jquery.min.js\<close> (version 1.11.1), as
  the scripts of the theme call them: with a string. They work on the text of the class attribute;
  the locale \<open>class_list\<close> says what they promise about the list of its names, and the
  interpretation discharges it for the texts. A selection is the list of the class attributes of
  its elements.
\<close>

subsection \<open>The functions\<close>

text \<open>\<open>/[\t\r\n\f]/g\<close> replaced by blanks, and the matches of \<open>/\S+/g\<close>.\<close>

definition uc_blank :: "char \<Rightarrow> char" where
  "uc_blank c = (if (of_char c :: nat) \<in> {9, 10, 12, 13} then CHR '' '' else c)"

definition words_of :: "string \<Rightarrow> string list" where
  "words_of a = tokens (map (\<lambda>c. if is_ws c then CHR '' '' else c) a)"

definition padded :: "string \<Rightarrow> string" where
  "padded c = map uc_blank ('' '' @ c @ '' '')"

definition hasClass1 :: "string \<Rightarrow> string \<Rightarrow> bool" where
  "hasClass1 e c = occurs_in ('' '' @ e @ '' '') (padded c)"

definition add_name :: "string \<Rightarrow> string \<Rightarrow> string" where
  "add_name e d = (if occurs_in ('' '' @ e @ '' '') d then d else d @ e @ '' '')"

definition addClass1 :: "string \<Rightarrow> string \<Rightarrow> string" where
  "addClass1 names c =
     (if names = [] then c else trim (fold add_name (words_of names) (if c \<noteq> [] then padded c else '' '')))"

function remove_name :: "string \<Rightarrow> string \<Rightarrow> string" where
  "remove_name e d =
     (if occurs_in ('' '' @ e @ '' '') d then remove_name e (replace_first ('' '' @ e @ '' '') '' '' d) else d)"
  by pat_completeness auto
termination
proof (relation "measure (length \<circ> snd)")
  fix e d :: string
  assume "occurs_in ('' '' @ e @ '' '') d"
  then obtain x y where "d = x @ ('' '' @ e @ '' '') @ y" "replace_first ('' '' @ e @ '' '') '' '' d = x @ '' '' @ y"
    by (rule replace_first_occurs)
  then show "((e, replace_first ('' '' @ e @ '' '') '' '' d), e, d) \<in> measure (length \<circ> snd)" by simp
qed simp

declare remove_name.simps [simp del]

definition removeClass1 :: "string \<Rightarrow> string \<Rightarrow> string" where
  "removeClass1 names c =
     (if names = [] \<or> c = [] then c else trim (fold remove_name (words_of names) (padded c)))"

definition toggleClass1 :: "string \<Rightarrow> string \<Rightarrow> string" where
  "toggleClass1 names c =
     fold (\<lambda>e c. if hasClass1 e c then removeClass1 e c else addClass1 e c) (words_of names) c"

text \<open>On a selection.\<close>

definition hasClass :: "string \<Rightarrow> string list \<Rightarrow> bool" where
  "hasClass e cs = list_ex (hasClass1 e) cs"

definition addClass :: "string \<Rightarrow> string list \<Rightarrow> string list" where
  "addClass names cs = map (addClass1 names) cs"

definition removeClass :: "string \<Rightarrow> string list \<Rightarrow> string list" where
  "removeClass names cs = map (removeClass1 names) cs"

definition toggleClass :: "string \<Rightarrow> string list \<Rightarrow> string list" where
  "toggleClass names cs = map (toggleClass1 names) cs"

subsection \<open>What they promise\<close>

text \<open>A text with names: \<open>classes\<close> reads them, \<open>good\<close> are the texts for which the laws hold, \<open>name\<close>
  the names one may add, remove and look for.\<close>

locale class_list =
  fixes classes :: "'c \<Rightarrow> string list"
    and good :: "'c \<Rightarrow> bool"
    and name :: "string \<Rightarrow> bool"
    and has :: "string \<Rightarrow> 'c \<Rightarrow> bool"
    and add :: "string \<Rightarrow> 'c \<Rightarrow> 'c"
    and rem :: "string \<Rightarrow> 'c \<Rightarrow> 'c"
  assumes has_law: "good c \<Longrightarrow> name e \<Longrightarrow> has e c \<longleftrightarrow> e \<in> set (classes c)"
    and add_law: "good c \<Longrightarrow> name e \<Longrightarrow> classes (add e c) = (if e \<in> set (classes c) then classes c else classes c @ [e])"
    and rem_law: "good c \<Longrightarrow> name e \<Longrightarrow> classes (rem e c) = filter (\<lambda>n. n \<noteq> e) (classes c)"
    and add_good: "good c \<Longrightarrow> name e \<Longrightarrow> good (add e c)"
    and rem_good: "good c \<Longrightarrow> name e \<Longrightarrow> good (rem e c)"
begin

definition toggle :: "string \<Rightarrow> 'c \<Rightarrow> 'c" where
  "toggle e c = (if has e c then rem e c else add e c)"

lemma toggle_good: "good c \<Longrightarrow> name e \<Longrightarrow> good (toggle e c)"
  by (simp add: toggle_def add_good rem_good)

lemma toggle_has: "good c \<Longrightarrow> name e \<Longrightarrow> name n \<Longrightarrow> has n (toggle e c) \<longleftrightarrow> (if n = e then \<not> has e c else has n c)"
  by (auto simp: toggle_def has_law add_good rem_good add_law rem_law)

lemma toggles:
  assumes "good c" "list_all name es" "distinct es" "name n"
  shows "good (fold toggle es c)" "has n (fold toggle es c) \<longleftrightarrow> (if n \<in> set es then \<not> has n c else has n c)"
proof -
  have "good (fold toggle es c) \<and> (has n (fold toggle es c) \<longleftrightarrow> (if n \<in> set es then \<not> has n c else has n c))"
    using assms
  proof (induction es arbitrary: c)
    case (Cons e es)
    have "good (toggle e c)" using Cons.prems toggle_good by simp
    then show ?case using Cons.prems Cons.IH [of "toggle e c"] toggle_has [of c e n] by auto
  qed simp
  then show "good (fold toggle es c)" "has n (fold toggle es c) \<longleftrightarrow> (if n \<in> set es then \<not> has n c else has n c)" by blast+
qed

text \<open>Toggling the same names twice gives the same names, up to their order.\<close>

lemma toggle_toggle:
  assumes "good c" "name e"
  shows "set (classes (toggle e (toggle e c))) = set (classes c)"
  using assms by (auto simp: toggle_def has_law add_good rem_good add_law rem_law)

end

subsection \<open>The texts keep the promise\<close>

definition classes1 :: "string \<Rightarrow> string list" where
  "classes1 c = tokens (map uc_blank c)"

text \<open>Class attributes in which vertical tabs and no-break spaces, which \<open>trim\<close> removes but which do
  not separate names, do not occur; and names without white space.\<close>

definition good1 :: "string \<Rightarrow> bool" where
  "good1 c = list_all (\<lambda>x. is_ws x \<longrightarrow> (of_char x :: nat) \<in> {9, 10, 12, 13, 32}) c"

definition name1 :: "string \<Rightarrow> bool" where
  "name1 e = (e \<noteq> [] \<and> list_all (\<lambda>x. \<not> is_ws x) e)"

definition flat :: "string \<Rightarrow> bool" where
  "flat d = list_all (\<lambda>x. is_ws x \<longrightarrow> x = CHR '' '') d"

definition framed :: "string \<Rightarrow> bool" where
  "framed d = (d = '' '' \<or> (\<exists>t. d = '' '' @ t @ '' ''))"

lemma blank_ws [simp]: "is_ws (CHR '' '')"
  by (simp add: is_ws_def)

lemma name_no_blank: "name1 e \<Longrightarrow> CHR '' '' \<notin> set e"
  by (auto simp: name1_def list_all_iff)

lemma words_of_name: "name1 e \<Longrightarrow> words_of e = [e]"
proof -
  assume e: "name1 e"
  then have "map (\<lambda>c. if is_ws c then CHR '' '' else c) e = e" by (intro map_idI) (auto simp: name1_def list_all_iff)
  then show ?thesis using e tokens_word [of e] name_no_blank [OF e] by (simp add: words_of_def name1_def)
qed

lemma char_blank: "of_char c = (32 :: nat) \<Longrightarrow> c = CHR '' ''"
proof -
  assume "of_char c = (32 :: nat)"
  then have "of_char c = (of_char (CHR '' '') :: nat)" by simp
  then show ?thesis by (simp only: of_char_eq_iff)
qed

lemma flat_uc: "good1 c \<Longrightarrow> flat (map uc_blank c)"
  by (auto simp: good1_def flat_def list_all_iff uc_blank_def dest: char_blank)

lemma uc_flat: "flat d \<Longrightarrow> map uc_blank d = d"
  by (rule map_idI) (auto simp: flat_def list_all_iff uc_blank_def is_ws_def)

lemma flat_good: "flat d \<Longrightarrow> good1 d"
  unfolding good1_def list_all_iff
proof (intro ballI impI)
  fix x
  assume "flat d" "x \<in> set d" "is_ws x"
  then have "x = CHR '' ''" unfolding flat_def list_all_iff by blast
  then show "(of_char x :: nat) \<in> {9, 10, 12, 13, 32}" by simp
qed

lemma uc_blank_blank [simp]: "uc_blank (CHR '' '') = CHR '' ''"
  by (simp add: uc_blank_def)

lemma padded_eq: "padded c = '' '' @ map uc_blank c @ '' ''"
  by (simp add: padded_def)

lemma flat_append [simp]: "flat (x @ y) \<longleftrightarrow> flat x \<and> flat y" "flat (CHR '' '' # x) = flat x" "flat []"
  by (simp_all add: flat_def)

lemma name_flat: "name1 e \<Longrightarrow> flat e"
  by (auto simp: flat_def name1_def list_all_iff)

lemma tokens_frame: "tokens ('' '' @ t @ '' '') = tokens t"
  by simp

lemma framed_iff: "framed d \<longleftrightarrow> d \<noteq> [] \<and> hd d = CHR '' '' \<and> last d = CHR '' ''"
proof
  assume "d \<noteq> [] \<and> hd d = CHR '' '' \<and> last d = CHR '' ''"
  then show "framed d"
    unfolding framed_def by (cases d; cases "tl d" rule: rev_cases) auto
qed (auto simp: framed_def)

lemma framed_occurs:
  assumes "framed d" "name1 e"
  shows "occurs_in ('' '' @ e @ '' '') d \<longleftrightarrow> e \<in> set (tokens d)"
proof -
  consider "d = '' ''" | t where "d = '' '' @ t @ '' ''" using assms(1) unfolding framed_def by blast
  then show ?thesis
  proof cases
    case 1
    have "\<not> occurs_in ('' '' @ e @ '' '') d"
      unfolding occurs_in_iff 1 by (metis append_is_Nil_conv append_Cons list.discI list.inject append_Nil neq_Nil_conv)
    then show ?thesis by (simp add: 1)
  next
    case 2
    then show ?thesis
      using occurs_token [OF _ name_no_blank [OF assms(2)], of t] assms(2) unfolding 2 tokens_frame name1_def by blast
  qed
qed

lemma hasClass1_iff: "name1 e \<Longrightarrow> hasClass1 e c \<longleftrightarrow> e \<in> set (classes1 c)"
  using occurs_token [of e "map uc_blank c"] name_no_blank [of e] by (simp add: hasClass1_def padded_eq classes1_def name1_def)

lemma add_name_ok:
  assumes "framed d" "flat d" "name1 e"
  shows "framed (add_name e d)" "flat (add_name e d)"
    "tokens (add_name e d) = (if e \<in> set (tokens d) then tokens d else tokens d @ [e])"
proof -
  obtain t where t: "d = t @ '' ''" using assms(1) unfolding framed_iff by (cases d rule: rev_cases) auto
  have "tokens (d @ e @ '' '') = tokens d @ [e]"
    using tokens_append [of t "e @ '' ''"] tokens_word [of e] name_no_blank [OF assms(3)] assms(3) by (simp add: t name1_def)
  then show "tokens (add_name e d) = (if e \<in> set (tokens d) then tokens d else tokens d @ [e])"
    using framed_occurs [OF assms(1,3)] by (simp add: add_name_def)
  show "framed (add_name e d)" using assms(1) by (auto simp: add_name_def framed_iff)
  show "flat (add_name e d)" using assms(2) name_flat [OF assms(3)] by (simp add: add_name_def)
qed

lemma remove_name_ok:
  assumes "framed d" "flat d" "name1 e"
  shows "framed (remove_name e d) \<and> flat (remove_name e d) \<and> tokens (remove_name e d) = filter (\<lambda>n. n \<noteq> e) (tokens d)"
  using assms
proof (induction e d rule: remove_name.induct)
  case (1 e d)
  show ?case
  proof (cases "occurs_in ('' '' @ e @ '' '') d")
    case True
    obtain x y where xy: "d = x @ ('' '' @ e @ '' '') @ y" "replace_first ('' '' @ e @ '' '') '' '' d = x @ '' '' @ y"
      using replace_first_occurs [OF True] by blast
    have "framed (x @ '' '' @ y)"
      using "1.prems"(1) xy(1) unfolding framed_iff by (cases x; cases "y = []") auto
    moreover have "flat (x @ '' '' @ y)" using "1.prems"(2) by (simp add: xy(1))
    moreover have "tokens d = tokens x @ e # tokens y"
      using tokens_append [of x "e @ '' '' @ y"] tokens_append [of e y] tokens_word [of e] name_no_blank "1.prems"(3)
      by (simp add: xy(1) name1_def)
    moreover have "tokens (x @ '' '' @ y) = tokens x @ tokens y" by (rule tokens_append)
    moreover have "remove_name e d = remove_name e (x @ '' '' @ y)"
      using remove_name.simps [of e d] True unfolding xy(2) by (simp only: if_True not_False_eq_True)
    ultimately show ?thesis
      using "1.IH" [OF True] "1.prems"(3) unfolding xy(2) by (simp only:) simp
  next
    case False
    then have "filter (\<lambda>n. n \<noteq> e) (tokens d) = tokens d"
      using "1.prems" framed_occurs [of d e] by (auto simp: filter_id_conv)
    then show ?thesis using "1.prems" False by (simp add: remove_name.simps [of e d])
  qed
qed

lemma trim_flat:
  assumes "flat d"
  shows "tokens (trim d) = tokens d" "flat (trim d)"
proof -
  have l: "tokens (dropWhile is_ws d) = tokens d \<and> flat (dropWhile is_ws d)" if "flat d" for d
    using that by (induction d) (auto simp: flat_def)
  have r: "tokens (rev (dropWhile is_ws (rev d))) = tokens d \<and> flat (rev (dropWhile is_ws (rev d)))" if "flat d" for d
    using that by (induction d rule: rev_induct) (auto simp: flat_def)
  show "tokens (trim d) = tokens d" "flat (trim d)" using l [OF assms] r by (simp_all add: trim_def)
qed

lemma addClass1_ok:
  assumes "good1 c" "name1 e"
  shows "classes1 (addClass1 e c) = (if e \<in> set (classes1 c) then classes1 c else classes1 c @ [e])" "good1 (addClass1 e c)"
proof -
  let ?d = "if c \<noteq> [] then padded c else '' ''"
  have d: "framed ?d" "flat ?d" "tokens ?d = classes1 c"
    using flat_uc [OF assms(1)] by (auto simp: framed_iff padded_eq classes1_def)
  have "addClass1 e c = trim (add_name e ?d)"
    using assms(2) by (simp add: addClass1_def words_of_name [OF assms(2)]) (auto simp: name1_def)
  then show "classes1 (addClass1 e c) = (if e \<in> set (classes1 c) then classes1 c else classes1 c @ [e])" "good1 (addClass1 e c)"
    using trim_flat [OF add_name_ok(2) [OF d(1,2) assms(2)]] add_name_ok(3) [OF d(1,2) assms(2)] d(3) uc_flat flat_good
    by (simp_all add: classes1_def)
qed

lemma removeClass1_ok:
  assumes "good1 c" "name1 e"
  shows "classes1 (removeClass1 e c) = filter (\<lambda>n. n \<noteq> e) (classes1 c)" "good1 (removeClass1 e c)"
proof -
  have d: "framed (padded c)" "flat (padded c)" "tokens (padded c) = classes1 c"
    using flat_uc [OF assms(1)] by (auto simp: framed_iff padded_eq classes1_def)
  note r = remove_name_ok [OF d(1,2) assms(2)]
  have "removeClass1 e c = (if c = [] then c else trim (remove_name e (padded c)))"
    using assms(2) by (auto simp: removeClass1_def words_of_name [OF assms(2)] name1_def)
  then show "classes1 (removeClass1 e c) = filter (\<lambda>n. n \<noteq> e) (classes1 c)" "good1 (removeClass1 e c)"
    using trim_flat [of "remove_name e (padded c)"] r d(3) uc_flat flat_good assms(1)
    by (auto simp: classes1_def)
qed

interpretation jq: class_list classes1 good1 name1 hasClass1 addClass1 removeClass1
  by unfold_locales (simp_all add: hasClass1_iff addClass1_ok removeClass1_ok)

lemma toggleClass1_toggles: "toggleClass1 names c = fold jq.toggle (words_of names) c"
  by (simp add: toggleClass1_def jq.toggle_def [abs_def])

end
