(* ===== verification/Site_Scripts.thy ===== *)
theory Site_Scripts
  imports JQ_Classes
begin

section \<open>The scripts of the theme\<close>

text \<open>
  \<open>main.js\<close> of the theme (the cover panel and the mobile menu, on top of jQuery's class functions) and
  \<open>toc.js\<close> (the table of contents). A page holds the class attributes of the elements each selector
  of the script finds; the widths come from the layout and animations are only recorded. A table of
  contents is a list of DOM nodes. Then the lightboxes of the theme \<open>grid-side\<close>.
\<close>

subsection \<open>The panel and the menu\<close>

text \<open>\<open>panel_width\<close> is \<open>None\<close> where no panel is found: \<open>width()\<close> returns \<open>null\<close>, and \<open>null < 960\<close>.\<close>

record panel_page =
  body :: "string list"
  panel :: "string list"
  content_wrapper :: "string list"
  navigation :: "string list"
  menu_icon :: "string list"
  close_icon :: "string list"
  panel_width :: "jsnum option"
  panel_max_width :: "jsnum option"
  animations :: "(string \<times> string) list list"

definition collapse :: "panel_page \<Rightarrow> panel_page" where
  "collapse P = P\<lparr>panel := addClass ''panel-cover--collapsed'' (panel P)\<rparr>"

definition on_ready :: "string \<Rightarrow> string \<Rightarrow> panel_page \<Rightarrow> panel_page" where
  "on_ready hash pathname P =
     (let P1 = P\<lparr>body := removeClass ''no-js'' (body P)\<rparr>;
          P2 = (if hash \<noteq> [] \<and> hash = ''#blog'' then collapse P1 else P1)
      in if take 5 pathname = ''/tag/'' then collapse P2 else P2)"

definition narrow :: "jsnum option \<Rightarrow> bool" where
  "narrow w = (case w of None \<Rightarrow> True | Some x \<Rightarrow> x < Fin 960)"

definition click_blog :: "panel_page \<Rightarrow> panel_page" where
  "click_blog P =
     (if hasClass ''panel-cover--collapsed'' (panel P) then P
      else if narrow (panel_width P) then
        (collapse P)\<lparr>content_wrapper := addClass ''animated slideInRight'' (content_wrapper P)\<rparr>
      else P\<lparr>panel_max_width := panel_width P,
             animations := animations P @ [[(''max-width'', ''530px''), (''width'', ''40%'')]]\<rparr>)"

definition toggle_icons :: "panel_page \<Rightarrow> panel_page" where
  "toggle_icons P = P\<lparr>menu_icon := toggleClass ''hidden'' (menu_icon P), close_icon := toggleClass ''hidden'' (close_icon P)\<rparr>"

definition click_menu :: "panel_page \<Rightarrow> panel_page" where
  "click_menu P = toggle_icons (P\<lparr>navigation := toggleClass ''visible animated bounceInDown'' (navigation P)\<rparr>)"

definition click_nav_blog :: "panel_page \<Rightarrow> panel_page" where
  "click_nav_blog P = toggle_icons (P\<lparr>navigation := toggleClass ''visible'' (navigation P)\<rparr>)"

text \<open>A click runs the handlers of the selectors that match the element, in the order in which the
  script registered them: a link with the class \<open>blog-button\<close> inside the navigation matches two.\<close>

datatype click = BlogButton | MenuButton | NavBlogButton bool

fun click_on :: "click \<Rightarrow> panel_page \<Rightarrow> panel_page" where
  "click_on BlogButton P = click_blog P"
| "click_on MenuButton P = click_menu P"
| "click_on (NavBlogButton link) P = click_nav_blog (if link then click_blog P else P)"

subsection \<open>The menu and its icons\<close>

definition menu_good :: "panel_page \<Rightarrow> bool" where
  "menu_good P = (list_all good1 (navigation P) \<and> list_all good1 (menu_icon P) \<and> list_all good1 (close_icon P))"

definition all_show :: "string \<Rightarrow> bool \<Rightarrow> string list \<Rightarrow> bool" where
  "all_show n b cs = list_all (\<lambda>c. hasClass1 n c = b) cs"

definition in_step :: "bool \<Rightarrow> panel_page \<Rightarrow> bool" where
  "in_step visible P = (all_show ''visible'' visible (navigation P) \<and> all_show ''hidden'' visible (menu_icon P)
     \<and> all_show ''hidden'' (\<not> visible) (close_icon P))"

definition menu_names :: "string list" where
  "menu_names = [''visible'', ''animated'', ''bounceInDown'']"

lemma menu_words: "words_of ''visible animated bounceInDown'' = menu_names" "words_of ''visible'' = [''visible'']" "words_of ''hidden'' = [''hidden'']"
  by (simp_all add: words_of_def is_ws_def tokens_def menu_names_def)

lemma menu_name: "list_all name1 menu_names" "name1 ''hidden''" "name1 ''visible''" "name1 ''animated''" "distinct menu_names"
  by (simp_all add: name1_def is_ws_def menu_names_def)

lemma toggleClass_shows:
  assumes "list_all good1 cs" "list_all name1 (words_of names)" "distinct (words_of names)" "name1 n"
  shows "list_all good1 (toggleClass names cs)"
    and "all_show n b cs \<Longrightarrow> all_show n (if n \<in> set (words_of names) then \<not> b else b) (toggleClass names cs)"
  using assms jq.toggles [of _ "words_of names" n]
  by (auto simp: toggleClass_def all_show_def list_all_iff toggleClass1_toggles)

lemma click_blog_menu:
  "navigation (click_blog P) = navigation P" "menu_icon (click_blog P) = menu_icon P" "close_icon (click_blog P) = close_icon P"
  by (simp_all add: click_blog_def collapse_def)

lemma toggle_icons_step:
  assumes "menu_good P" "all_show ''hidden'' v (menu_icon P)" "all_show ''hidden'' (\<not> v) (close_icon P)"
  shows "menu_good (toggle_icons P)" "all_show ''hidden'' (\<not> v) (menu_icon (toggle_icons P))" "all_show ''hidden'' v (close_icon (toggle_icons P))"
  using assms toggleClass_shows(1) [of _ "''hidden''" "''hidden''"] toggleClass_shows(2) [of _ "''hidden''" "''hidden''" v]
    toggleClass_shows(2) [of _ "''hidden''" "''hidden''" "\<not> v"] menu_name
  by (simp_all add: toggle_icons_def menu_good_def menu_words)

fun menu_click :: "click \<Rightarrow> bool" where
  "menu_click BlogButton = False"
| "menu_click _ = True"

lemma click_step:
  assumes "menu_good P" "in_step v P" "all_show ''animated'' a (navigation P)"
  shows "menu_good (click_on k P) \<and> in_step (v \<noteq> menu_click k) (click_on k P)
    \<and> all_show ''animated'' (a \<noteq> (k = MenuButton)) (navigation (click_on k P))"
proof -
  have menu: "menu_good (click_menu P) \<and> in_step (\<not> v) (click_menu P) \<and> all_show ''animated'' (\<not> a) (navigation (click_menu P))"
  proof -
    let ?P = "P\<lparr>navigation := toggleClass ''visible animated bounceInDown'' (navigation P)\<rparr>"
    have n: "list_all good1 (navigation ?P)" "all_show ''visible'' (\<not> v) (navigation ?P)" "all_show ''animated'' (\<not> a) (navigation ?P)"
      using assms toggleClass_shows(1) [of "navigation P" "''visible animated bounceInDown''" "''visible''"]
        toggleClass_shows(2) [of "navigation P" "''visible animated bounceInDown''" "''visible''" v]
        toggleClass_shows(2) [of "navigation P" "''visible animated bounceInDown''" "''animated''" a] menu_name
      by (simp_all add: menu_words menu_good_def in_step_def menu_names_def)
    then show ?thesis
      using assms toggle_icons_step [of ?P v] unfolding click_menu_def
      by (auto simp: menu_good_def in_step_def toggle_icons_def)
  qed
  have nav: "menu_good (click_nav_blog Q) \<and> in_step (\<not> v) (click_nav_blog Q) \<and> all_show ''animated'' a (navigation (click_nav_blog Q))"
    if "menu_good Q" "in_step v Q" "all_show ''animated'' a (navigation Q)" for Q
  proof -
    let ?P = "Q\<lparr>navigation := toggleClass ''visible'' (navigation Q)\<rparr>"
    have n: "list_all good1 (navigation ?P)" "all_show ''visible'' (\<not> v) (navigation ?P)" "all_show ''animated'' a (navigation ?P)"
      using that toggleClass_shows(1) [of "navigation Q" "''visible''" "''visible''"] toggleClass_shows(2) [of "navigation Q" "''visible''" "''visible''" v]
        toggleClass_shows(2) [of "navigation Q" "''visible''" "''animated''" a] menu_name
      by (simp_all add: menu_words menu_good_def in_step_def)
    then show ?thesis
      using that toggle_icons_step [of ?P v] unfolding click_nav_blog_def
      by (auto simp: menu_good_def in_step_def toggle_icons_def)
  qed
  have blog: "menu_good (click_blog P)" "in_step v (click_blog P)" "all_show ''animated'' a (navigation (click_blog P))"
    using assms by (simp_all add: menu_good_def in_step_def click_blog_menu)
  show ?thesis using assms menu nav [OF blog] nav blog by (cases k) auto
qed

text \<open>
  C24. The menu and its two icons stay in step: after any clicks the navigation is visible exactly
  when the menu icon is hidden and the closing icon is not, and both changed as often as the menu
  button or a blog button of the navigation was clicked. The animation classes change with the
  menu button only, so after closing the menu by a blog button they are out of step with it.
\<close>

theorem menu_in_step:
  assumes "menu_good P" "in_step v P" "all_show ''animated'' a (navigation P)" "P' = fold click_on ks P"
  shows "in_step (v \<noteq> odd (length (filter menu_click ks))) P'
    \<and> all_show ''animated'' (a \<noteq> odd (count_list ks MenuButton)) (navigation P')"
proof -
  have "menu_good (fold click_on ks P) \<and> in_step (v \<noteq> odd (length (filter menu_click ks))) (fold click_on ks P)
      \<and> all_show ''animated'' (a \<noteq> odd (count_list ks MenuButton)) (navigation (fold click_on ks P))"
    using assms(1-3)
  proof (induction ks arbitrary: P v a)
    case (Cons k ks)
    note s = click_step [OF Cons.prems, of k]
    have "((v \<noteq> menu_click k) \<noteq> odd (length (filter menu_click ks))) = (v \<noteq> odd (length (filter menu_click (k # ks))))"
      "((a \<noteq> (k = MenuButton)) \<noteq> odd (count_list ks MenuButton)) = (a \<noteq> odd (count_list (k # ks) MenuButton))"
      by auto
    then show ?case using Cons.IH [of "click_on k P" "v \<noteq> menu_click k" "a \<noteq> (k = MenuButton)"] s by simp
  qed simp
  then show ?thesis using assms(4) by simp
qed

subsection \<open>The table of contents\<close>

text \<open>Elements carry their tag name, in upper case as \<open>tagName\<close> has it, and the text of their attributes.\<close>

datatype tree = Elem string string "tree list" | Text string

fun is_elem :: "tree \<Rightarrow> bool" where
  "is_elem (Elem t a cs) = True"
| "is_elem (Text s) = False"

abbreviation children :: "tree list \<Rightarrow> tree list" where
  "children cs \<equiv> filter is_elem cs"

text \<open>\<open>querySelector('ul')\<close> finds the first list in document order; \<open>put_ul\<close> replaces it by other nodes,
  as assigning its \<open>outerHTML\<close> does.\<close>

fun first_ul :: "tree \<Rightarrow> tree list option" and first_ul_in :: "tree list \<Rightarrow> tree list option" where
  "first_ul (Elem t a cs) = (if t = ''UL'' then Some cs else first_ul_in cs)"
| "first_ul (Text s) = None"
| "first_ul_in [] = None"
| "first_ul_in (x # xs) = (case first_ul x of Some cs \<Rightarrow> Some cs | None \<Rightarrow> first_ul_in xs)"

fun put_ul :: "tree list \<Rightarrow> tree \<Rightarrow> tree list" and put_ul_in :: "tree list \<Rightarrow> tree list \<Rightarrow> tree list" where
  "put_ul new (Elem t a cs) = (if t = ''UL'' then new else [Elem t a (put_ul_in new cs)])"
| "put_ul new (Text s) = [Text s]"
| "put_ul_in new [] = []"
| "put_ul_in new (x # xs) = (if first_ul x \<noteq> None then put_ul new x @ xs else x # put_ul_in new xs)"

fun elem_count :: "tree \<Rightarrow> nat" and elems_count :: "tree list \<Rightarrow> nat" where
  "elem_count (Elem t a cs) = Suc (elems_count cs)"
| "elem_count (Text s) = 0"
| "elems_count [] = 0"
| "elems_count (x # xs) = elem_count x + elems_count xs"

lemma elems_count_append [simp]: "elems_count (xs @ ys) = elems_count xs + elems_count ys"
  by (induction xs) simp_all

lemma put_ul_count:
  "first_ul x = Some cs \<Longrightarrow> elems_count new < Suc (elems_count cs) \<Longrightarrow> elems_count (put_ul new x) < elem_count x"
  "first_ul_in xs = Some cs \<Longrightarrow> elems_count new < Suc (elems_count cs) \<Longrightarrow> elems_count (put_ul_in new xs) < elems_count xs"
  by (induction x and xs rule: first_ul_first_ul_in.induct) (auto split: if_splits option.splits)

lemma elems_count_children: "elems_count (children cs) = elems_count cs"
  by (induction cs) (auto elim: is_elem.elims)

lemma unwrap_less:
  assumes "first_ul_in toc = Some ul" "children ul = [Elem t a li]"
  shows "elems_count (put_ul_in li toc) < elems_count toc"
  using put_ul_count(2) [OF assms(1), of li] elems_count_children [of ul] by (simp add: assms(2))

text \<open>The loop. The result is the exception, if there is one, and the nodes that are left.\<close>

function unwrap :: "tree list \<Rightarrow> jserr option \<times> tree list" where
  "unwrap toc =
     (case first_ul_in toc of
        None \<Rightarrow> (Some TypeError, toc)
      | Some ul \<Rightarrow>
          (case children ul of
             [Elem t a li] \<Rightarrow>
               if t \<noteq> ''LI'' then (None, toc)
               else (let toc' = put_ul_in li toc in if 1 \<le> length (children toc') then unwrap toc' else (None, toc'))
           | _ \<Rightarrow> (None, toc)))"
  by pat_completeness auto
termination
  by (relation "measure elems_count") (auto intro: unwrap_less)

declare unwrap.simps [simp del]

definition toc_script :: "tree list option \<Rightarrow> jserr option \<times> tree list option" where
  "toc_script toc = (case toc of None \<Rightarrow> (None, None) | Some cs \<Rightarrow> map_prod id Some (unwrap cs))"

definition toggle_toc :: "string option \<Rightarrow> string option" where
  "toggle_toc display = map_option (\<lambda>d. if d = ''none'' then ''block'' else ''none'') display"

subsection \<open>What unwrapping does\<close>

text \<open>The elements other than list and item elements, in document order.\<close>

fun entries :: "tree \<Rightarrow> (string \<times> string) list" and entries_in :: "tree list \<Rightarrow> (string \<times> string) list" where
  "entries (Elem t a cs) = (if t = ''UL'' \<or> t = ''LI'' then entries_in cs else (t, a) # entries_in cs)"
| "entries (Text s) = []"
| "entries_in [] = []"
| "entries_in (x # xs) = entries x @ entries_in xs"

lemma entries_append [simp]: "entries_in (xs @ ys) = entries_in xs @ entries_in ys"
  by (induction xs) simp_all

lemma entries_children: "entries_in (children cs) = entries_in cs"
  by (induction cs) (auto elim: is_elem.elims)

lemma put_ul_entries:
  "first_ul x = Some cs \<Longrightarrow> entries_in new = entries_in cs \<Longrightarrow> entries_in (put_ul new x) = entries x"
  "first_ul_in xs = Some cs \<Longrightarrow> entries_in new = entries_in cs \<Longrightarrow> entries_in (put_ul_in new xs) = entries_in xs"
  by (induction x and xs rule: first_ul_first_ul_in.induct) (auto split: if_splits option.splits)

text \<open>Where the loop stops: a list with several items or something else than an item, or no
  element at all; with an exception exactly when no list is left.\<close>

definition stops :: "tree list \<Rightarrow> bool" where
  "stops toc = (children toc = [] \<or> (\<exists>ul. first_ul_in toc = Some ul \<and> (\<forall>a li. children ul \<noteq> [Elem ''LI'' a li])))"

lemma unwrap_ends:
  "entries_in (snd (unwrap toc)) = entries_in toc \<and>
   (case fst (unwrap toc) of None \<Rightarrow> stops (snd (unwrap toc)) | Some e \<Rightarrow> e = TypeError \<and> first_ul_in (snd (unwrap toc)) = None)"
proof (induction toc rule: unwrap.induct)
  case (1 toc)
  show ?case
  proof (cases "\<exists>ul a li. first_ul_in toc = Some ul \<and> children ul = [Elem ''LI'' a li]")
    case True
    then obtain ul a li where ul: "first_ul_in toc = Some ul" "children ul = [Elem ''LI'' a li]" by blast
    let ?toc = "put_ul_in li toc"
    have "entries_in li = entries_in ul" using entries_children [of ul] by (simp add: ul(2))
    then have e: "entries_in ?toc = entries_in toc" using put_ul_entries(2) [OF ul(1)] by simp
    have u: "unwrap toc = (if children ?toc \<noteq> [] then unwrap ?toc else (None, ?toc))"
      using ul by (simp add: unwrap.simps [of toc] Let_def Suc_le_eq)
    show ?thesis
    proof (cases "children ?toc = []")
      case True
      then show ?thesis using e u by (simp add: stops_def)
    next
      case False
      then have u': "unwrap toc = unwrap ?toc" using u by simp
      show ?thesis unfolding u' using False "1.IH" [OF ul(1,2) refl refl _ refl] e by (simp add: Suc_le_eq)
    qed
  next
    case False
    then have "unwrap toc = (if first_ul_in toc = None then Some TypeError else None, toc)"
      by (subst unwrap.simps) (auto split: option.split list.split tree.split)
    then show ?thesis using False by (auto simp: stops_def)
  qed
qed


text \<open>Levels that consist of a single item, with the white space that surrounds the elements.\<close>

fun levels :: "(string \<times> string) list \<Rightarrow> tree list \<Rightarrow> tree list" where
  "levels [] inner = inner"
| "levels ((u, v) # ws) inner = [Text v, Elem ''UL'' [] [Text u, Elem ''LI'' [] (levels ws inner), Text u], Text v]"

lemma first_ul_texts: "list_all (\<lambda>x. \<not> is_elem x) ts \<Longrightarrow> first_ul_in (ts @ xs) = first_ul_in xs"
  by (induction ts) (auto elim!: is_elem.elims(3))

lemma put_ul_texts: "list_all (\<lambda>x. \<not> is_elem x) ts \<Longrightarrow> put_ul_in new (ts @ xs) = ts @ put_ul_in new xs"
  by (induction ts) (auto elim!: is_elem.elims(3))

lemma children_texts: "list_all (\<lambda>x. \<not> is_elem x) ts \<Longrightarrow> children ts = []"
  by (simp add: filter_empty_conv list_all_iff)

lemma levels_children: "children inner \<noteq> [] \<Longrightarrow> children (levels ws inner) \<noteq> []"
  by (cases ws rule: levels.cases [of "(ws, inner)" for ws, simplified]) auto

lemma unwrap_levels:
  assumes "children inner \<noteq> []" "list_all (\<lambda>x. \<not> is_elem x) pre" "list_all (\<lambda>x. \<not> is_elem x) post"
  shows "\<exists>pre' post'. list_all (\<lambda>x. \<not> is_elem x) pre' \<and> list_all (\<lambda>x. \<not> is_elem x) post' \<and>
    unwrap (pre @ levels ws inner @ post) = unwrap (pre' @ inner @ post')"
  using assms(2,3)
proof (induction ws arbitrary: pre post)
  case (Cons w ws)
  obtain u v where w: "w = (u, v)" by (cases w)
  let ?li = "levels ws inner"
  let ?toc = "(pre @ [Text v]) @ Elem ''UL'' [] [Text u, Elem ''LI'' [] ?li, Text u] # Text v # post"
  have t: "list_all (\<lambda>x. \<not> is_elem x) (pre @ [Text v])" using Cons.prems by simp
  have f: "first_ul_in ?toc = Some [Text u, Elem ''LI'' [] ?li, Text u]" using first_ul_texts [OF t] by simp
  have p: "put_ul_in ?li ?toc = (pre @ [Text v]) @ ?li @ (Text v # post)" using put_ul_texts [OF t] by simp
  have "children (put_ul_in ?li ?toc) \<noteq> []" using levels_children [OF assms(1), of ws] unfolding p by simp
  then have "unwrap ?toc = unwrap ((pre @ [Text v]) @ ?li @ (Text v # post))"
    using f unfolding p [symmetric] by (subst unwrap.simps) (simp add: Let_def Suc_le_eq del: append_assoc)
  moreover have "pre @ levels (w # ws) inner @ post = ?toc" by (simp add: w)
  ultimately show ?case using Cons.IH [OF t, of "Text v # post"] Cons.prems by simp
qed auto

text \<open>
  A table whose top levels have one item each, as Hugo makes it for headings that start at a
  lower level, is reduced to the first list with at least two items.
\<close>

theorem toc_unwraps_levels:
  assumes "2 \<le> length (children cs)"
  shows "fst (unwrap (levels ws [Elem ''UL'' a cs])) = None \<and> children (snd (unwrap (levels ws [Elem ''UL'' a cs]))) = [Elem ''UL'' a cs]"
proof -
  obtain pre post where t: "list_all (\<lambda>x. \<not> is_elem x) pre" "list_all (\<lambda>x. \<not> is_elem x) post"
    and u: "unwrap (levels ws [Elem ''UL'' a cs]) = unwrap (pre @ [Elem ''UL'' a cs] @ post)"
    using unwrap_levels [of "[Elem ''UL'' a cs]" "[]" "[]" ws] by auto
  obtain x y zs where "children cs = x # y # zs"
    using assms by (metis Suc_le_length_iff numeral_2_eq_2)
  then have "unwrap (pre @ [Elem ''UL'' a cs] @ post) = (None, pre @ [Elem ''UL'' a cs] @ post)"
    using first_ul_texts [OF t(1)] by (subst unwrap.simps) (simp split: tree.split)
  then show ?thesis using u children_texts [OF t(1)] children_texts [OF t(2)] by simp
qed

text \<open>
  C26. A table with a single entry makes the script throw: when the levels above the entry have been
  removed there is an element left and no list, and the next round reads a property of \<open>null\<close>. The
  levels are removed all the same.
\<close>

theorem toc_single_entry_throws:
  assumes "first_ul_in entry = None" "children entry \<noteq> []"
  shows "fst (unwrap (levels ws entry)) = Some TypeError \<and> children (snd (unwrap (levels ws entry))) = children entry"
proof -
  obtain pre post where t: "list_all (\<lambda>x. \<not> is_elem x) pre" "list_all (\<lambda>x. \<not> is_elem x) post"
    and u: "unwrap (levels ws entry) = unwrap (pre @ entry @ post)"
    using unwrap_levels [OF assms(2), of "[]" "[]" ws] by auto
  have "first_ul_in (entry @ post) = None"
    using assms(1) first_ul_texts [OF t(2), of "[]"] by (induction entry) (auto split: option.splits)
  then have "unwrap (pre @ entry @ post) = (Some TypeError, pre @ entry @ post)"
    using first_ul_texts [OF t(1)] by (subst unwrap.simps) simp
  then show ?thesis using u children_texts [OF t(1)] children_texts [OF t(2)] by simp
qed

subsection \<open>Lightboxes\<close>

text \<open>
  The lightboxes of the other theme (\<open>main.js\<close> of \<open>grid-side\<close>): every element with the attribute
  \<open>data-lightbox-id\<close> opens the box with this id; setting it up styles and hides the box and adds a
  button that closes it. A box is known by the styles set on it, whether it is shown, and its
  buttons; a box that does not exist is an empty selection, on which nothing
  happens. Boxes do not lie inside the elements that open them.
\<close>

record lightbox =
  styles :: "(string \<times> string) list"
  box_shown :: bool
  close_buttons :: "(string \<times> string) list list"

definition set_css :: "(string \<times> string) list \<Rightarrow> (string \<times> string) list \<Rightarrow> (string \<times> string) list" where
  "set_css ps st = fold (\<lambda>(k, v). AList.update k v) ps st"

definition lightboxProperties :: "(string \<times> string) list" where
  "lightboxProperties = [(''padding'', ''70px''), (''width'', ''100%''), (''height'', ''100%''),
     (''background-color'', ''rgba(0, 0, 0, 0.95)''), (''color'', ''white''), (''position'', ''fixed''),
     (''top'', ''0px''), (''left'', ''0px''), (''z-index'', ''999'')]"

definition lightboxCloseButtonProperties :: "(string \<times> string) list" where
  "lightboxCloseButtonProperties = [(''position'', ''absolute''), (''top'', ''0px''), (''left'', ''0px''),
     (''z-index'', ''999''), (''cursor'', ''pointer'')]"

definition prepare_box :: "lightbox \<Rightarrow> lightbox" where
  "prepare_box b = b\<lparr>styles := set_css lightboxProperties (styles b), box_shown := False,
     close_buttons := close_buttons b @ [set_css lightboxCloseButtonProperties []]\<rparr>"

definition on_box :: "string \<Rightarrow> (lightbox \<Rightarrow> lightbox) \<Rightarrow> (string \<rightharpoonup> lightbox) \<Rightarrow> (string \<rightharpoonup> lightbox)" where
  "on_box i f boxes = boxes(i := map_option f (boxes i))"

text \<open>One round for each element that opens a box, in document order.\<close>

definition attach_lightboxes :: "string list \<Rightarrow> (string \<rightharpoonup> lightbox) \<Rightarrow> (string \<rightharpoonup> lightbox)" where
  "attach_lightboxes ids boxes = fold (\<lambda>i. on_box i prepare_box) ids boxes"

datatype box_click = OpenBox string | CloseBox string

fun click_box :: "box_click \<Rightarrow> (string \<rightharpoonup> lightbox) \<Rightarrow> (string \<rightharpoonup> lightbox)" where
  "click_box (OpenBox i) boxes = on_box i (\<lambda>b. b\<lparr>box_shown := True\<rparr>) boxes"
| "click_box (CloseBox i) boxes = on_box i (\<lambda>b. b\<lparr>box_shown := False\<rparr>) boxes"

fun box_of :: "box_click \<Rightarrow> string" where
  "box_of (OpenBox i) = i"
| "box_of (CloseBox i) = i"

lemma attach_lightboxes_box:
  "attach_lightboxes ids boxes i = map_option (prepare_box ^^ count_list ids i) (boxes i)"
proof (induction ids arbitrary: boxes)
  case (Cons j ids)
  have "attach_lightboxes (j # ids) boxes i = map_option (prepare_box ^^ count_list ids i) (on_box j prepare_box boxes i)"
    using Cons by (simp add: attach_lightboxes_def)
  then show ?case by (cases "i = j"; cases "boxes i") (auto simp: on_box_def funpow_swap1)
qed (simp add: attach_lightboxes_def option.map_id)

lemma prepare_boxes:
  "0 < n \<Longrightarrow> box_shown ((prepare_box ^^ n) b) = False" "length (close_buttons ((prepare_box ^^ n) b)) = length (close_buttons b) + n"
  by (cases n; simp add: prepare_box_def) (induction n; simp add: prepare_box_def)

lemma click_boxes:
  "fold click_box ks boxes i = map_option (\<lambda>b. case filter (\<lambda>k. box_of k = i) (rev ks) of
     [] \<Rightarrow> b | k # _ \<Rightarrow> b\<lparr>box_shown := (k = OpenBox i)\<rparr>) (boxes i)"
proof (induction ks rule: rev_induct)
  case (snoc k ks)
  then show ?case by (cases k; cases "boxes i") (auto simp: on_box_def split: list.splits)
qed (simp add: option.map_ident)

text \<open>
  After the page is set up every box that some element opens is hidden, with a closing button
  for each of these elements; after any clicks a box is shown exactly when the last click that
  concerned it opened it.
\<close>

theorem lightbox_shown:
  assumes "boxes i = Some b" "i \<in> set ids" "close_buttons b = []"
  shows "\<exists>b'. fold click_box ks (attach_lightboxes ids boxes) i = Some b' \<and> length (close_buttons b') = count_list ids i
    \<and> box_shown b' = (case filter (\<lambda>k. box_of k = i) (rev ks) of [] \<Rightarrow> False | k # _ \<Rightarrow> k = OpenBox i)"
proof -
  have "0 < count_list ids i" using assms(2) by (simp add: count_list_0_iff flip: neq0_conv)
  then show ?thesis
    using assms(3) prepare_boxes [of "count_list ids i" b]
    by (auto simp: click_boxes attach_lightboxes_box assms(1) split: list.split)
qed

subsection \<open>Examples\<close>

definition example_panel :: panel_page where
  "example_panel = \<lparr>body = [''no-js''], panel = [''panel-cover''], content_wrapper = [''content-wrapper''], navigation = [''navigation-wrapper''],
     menu_icon = [''fa fa-bars btn-mobile-menu__icon''], close_icon = [''fa fa-times btn-mobile-close__icon hidden''],
     panel_width = Some (Fin 400), panel_max_width = None, animations = []\<rparr>"

lemma example_panel_ok: "menu_good example_panel" "in_step False example_panel" "all_show ''animated'' False (navigation example_panel)"
  by (simp_all add: example_panel_def menu_good_def good1_def in_step_def all_show_def hasClass1_def padded_def uc_blank_def is_ws_def)

theorem menu_in_step_witness:
  "in_step True (fold click_on [MenuButton, NavBlogButton True, MenuButton] example_panel)
   \<and> all_show ''animated'' False (navigation (fold click_on [MenuButton, NavBlogButton True, MenuButton] example_panel))"
  using menu_in_step [OF example_panel_ok refl, of "[MenuButton, NavBlogButton True, MenuButton]"] by simp

theorem toc_unwraps_levels_witness:
  "children (snd (unwrap (levels [(''x'', ''y'')] [Elem ''UL'' [] [Elem ''LI'' [] [], Elem ''LI'' [] []]])))
    = [Elem ''UL'' [] [Elem ''LI'' [] [], Elem ''LI'' [] []]]"
  using toc_unwraps_levels [of "[Elem ''LI'' [] [], Elem ''LI'' [] []]" "[(''x'', ''y'')]" "[]"] by simp

theorem toc_single_entry_throws_witness:
  "fst (unwrap (levels [([], [])] [Elem ''A'' ''href=1'' [Text ''One'']])) = Some TypeError"
  using toc_single_entry_throws [of "[Elem ''A'' ''href=1'' [Text ''One'']]" "[([], [])]"] by simp

theorem lightbox_shown_witness:
  "\<exists>b'. fold click_box [OpenBox ''x'', CloseBox ''y''] (attach_lightboxes [''x'', ''x''] [''x'' \<mapsto> \<lparr>styles = [], box_shown = True, close_buttons = []\<rparr>]) ''x'' = Some b'
    \<and> length (close_buttons b') = 2 \<and> box_shown b'"
  using lightbox_shown [of "[''x'' \<mapsto> \<lparr>styles = [], box_shown = True, close_buttons = []\<rparr>]" "''x''" _ "[''x'', ''x'']" "[OpenBox ''x'', CloseBox ''y'']"]
  by (simp add: numeral_2_eq_2)

end
