(* ===== verification/Particles.thy ===== *)
theory Particles
  imports JS_Values
begin

section \<open>The particle background\<close>

text \<open>
  \<open>particles.js\<close> of the theme: the parameters given to the particle library, and the loop that
  writes the number of particles into the page. The library itself (\<open>particles.min.js\<close>) appears as
  the particle systems it registers in \<open>pJSDom\<close>; the frame meter \<open>Stats\<close> is not part of the
  repository and is only known to be defined or not.
\<close>

subsection \<open>The parameters\<close>

datatype param = PObj "(string \<times> param) list" | PNum real | PStr string | PBool bool

definition particles_config :: param where
  "particles_config =
    PObj [(''particles'', PObj [(''number'', PObj [(''value'', PNum 60),
              (''density'', PObj [(''enable'', PBool True),
                  (''value_area'', PNum 800)])]),
          (''color'', PObj [(''value'', PStr ''#ffffff'')]),
          (''shape'', PObj [(''type'', PStr ''circle''),
              (''stroke'', PObj [(''width'', PNum 0),
                  (''color'', PStr ''#000000'')]),
              (''polygon'', PObj [(''nb_sides'', PNum 5)]),
              (''image'', PObj [(''width'', PNum 100),
                  (''height'', PNum 100)])]),
          (''opacity'', PObj [(''value'', PNum 0.5),
              (''random'', PBool False),
              (''anim'', PObj [(''enable'', PBool False),
                  (''speed'', PNum 1),
                  (''opacity_min'', PNum 0.1),
                  (''sync'', PBool False)])]),
          (''size'', PObj [(''value'', PNum 3),
              (''random'', PBool True),
              (''anim'', PObj [(''enable'', PBool True),
                  (''speed'', PNum 1),
                  (''size_min'', PNum 0.1),
                  (''sync'', PBool False)])]),
          (''line_linked'', PObj [(''enable'', PBool True),
              (''distance'', PNum 176.37479644244019),
              (''color'', PStr ''#ffffff''),
              (''opacity'', PNum 0.2805962670675185),
              (''width'', PNum 1.4430665163472378)]),
          (''move'', PObj [(''enable'', PBool True),
              (''speed'', PNum 1),
              (''direction'', PStr ''none''),
              (''random'', PBool False),
              (''straight'', PBool False),
              (''out_mode'', PStr ''out''),
              (''bounce'', PBool False),
              (''attract'', PObj [(''enable'', PBool True),
                  (''rotateX'', PNum 400.851810096455),
                  (''rotateY'', PNum 1200)])])]),
      (''interactivity'', PObj [(''detect_on'', PStr ''canvas''),
          (''events'', PObj [(''onhover'', PObj [(''enable'', PBool True),
                  (''mode'', PStr ''grab'')]),
              (''onclick'', PObj [(''enable'', PBool True),
                  (''mode'', PStr ''push'')]),
              (''resize'', PBool True)]),
          (''modes'', PObj [(''grab'', PObj [(''distance'', PNum 400),
                  (''line_linked'', PObj [(''opacity'', PNum 1)])]),
              (''bubble'', PObj [(''distance'', PNum 400),
                  (''size'', PNum 40),
                  (''duration'', PNum 2),
                  (''opacity'', PNum 8),
                  (''speed'', PNum 3)]),
              (''repulse'', PObj [(''distance'', PNum 200),
                  (''duration'', PNum 0.4)]),
              (''push'', PObj [(''particles_nb'', PNum 4)]),
              (''remove'', PObj [(''particles_nb'', PNum 2)])])]),
      (''retina_detect'', PBool True)]"

fun unique_keys :: "param \<Rightarrow> bool" where
  "unique_keys (PObj kvs) = (distinct (map fst kvs) \<and> list_all (\<lambda>(k, v). unique_keys v) kvs)"
| "unique_keys _ = True"

text \<open>No parameter is set twice.\<close>

lemma config_keys: "unique_keys particles_config"
  by (simp add: particles_config_def)

fun param_at :: "param \<Rightarrow> string list \<Rightarrow> param option" where
  "param_at p [] = Some p"
| "param_at (PObj kvs) (k # ks) = (case map_of kvs k of None \<Rightarrow> None | Some p \<Rightarrow> param_at p ks)"
| "param_at _ (k # ks) = None"

subsection \<open>The counter\<close>

text \<open>\<open>counter\<close> is the text of the element \<open>.js-count-particles\<close>, \<open>None\<close> where the page has none; a
  system is the length of its array of particles, \<open>None\<close> while the library has not made it;
  \<open>frames\<close> counts the pending calls of \<open>update\<close>.\<close>

record counter_page =
  stats_defined :: bool
  stats_nodes :: nat
  counter :: "nat option"
  pJSDom :: "nat option list"
  frames :: nat

definition update_counter :: "counter_page \<Rightarrow> jserr option \<times> counter_page" where
  "update_counter W =
     (case pJSDom W of
        [] \<Rightarrow> (Some TypeError, W)
      | sys # _ \<Rightarrow>
          (case sys of
             None \<Rightarrow> (None, W\<lparr>frames := Suc (frames W)\<rparr>)
           | Some n \<Rightarrow>
               (case counter W of
                  None \<Rightarrow> (Some TypeError, W)
                | Some _ \<Rightarrow> (None, W\<lparr>counter := Some n, frames := Suc (frames W)\<rparr>))))"

definition counter_script :: "counter_page \<Rightarrow> jserr option \<times> counter_page" where
  "counter_script W =
     (if \<not> stats_defined W then (Some ReferenceError, W)
      else (None, W\<lparr>stats_nodes := Suc (stats_nodes W), frames := Suc (frames W)\<rparr>))"

text \<open>A frame runs one pending call.\<close>

definition run_frame :: "counter_page \<Rightarrow> counter_page" where
  "run_frame W = (if frames W = 0 then W else snd (update_counter (W\<lparr>frames := frames W - 1\<rparr>)))"

text \<open>While the page has the element, the loop goes on and the text is the current number; a page
  without it loses the loop with the first frame that finds particles.\<close>

lemma counter_loop:
  assumes "frames W = 1" "pJSDom W = Some n # rest"
  shows "counter W \<noteq> None \<Longrightarrow> frames (run_frame W) = 1 \<and> counter (run_frame W) = Some n"
    and "counter W = None \<Longrightarrow> frames (run_frame W) = 0"
  using assms by (auto simp: run_frame_def update_counter_def)

lemma no_stats_no_loop: "\<not> stats_defined W \<Longrightarrow> counter_script W = (Some ReferenceError, W)"
  by (simp add: counter_script_def)

end
